(* ===== verification/Prelude.thy ===== *)
theory Prelude
  imports Main "HOL-Library.Word"
begin

unbundle bit_operations_syntax

section \<open>Prelude: machine integers, results, the handler monad\<close>

text \<open>
  What the components share.

  \<^item> Machine integers: Rust's \<open>u8\<close>, \<open>u32\<close>, \<open>u64\<close> are words of that width; a byte buffer
    (\<open>Bytes\<close>, \<open>Vec<u8>\<close>, \<open>&[u8]\<close>) is a list of bytes. \<open>to_be_bytes\<close> and
    \<open>from_be_bytes\<close> of the standard library, decimal printing of \<open>{}\<close>, and the three
    ways Rust adds (\<open>+\<close> with and without overflow checks, \<open>saturating_sub\<close>).
  \<^item> Errors: \<open>Result<T, E>\<close> is \<open>'e + 't\<close> with \<open>Inl\<close> the error; \<open>?\<close> is
    \<open>bind_res\<close> and \<open>iter().map(f).collect::<Result<Vec<_>, _>>()\<close> is
    \<open>collect_res f\<close>, which stops at the first error.
  \<^item> Effects: a step of the server is a function of its state that ends in \<open>Ret\<close> (a
    value), \<open>Fail\<close> (an early \<open>return\<close> or \<open>?\<close> of the function) or \<open>Panic\<close>.
\<close>

subsection \<open>Lemma collections\<close>

named_theorems flow_simps \<open>unfolding the handler monad one bind at a time\<close>
named_theorems table_simps \<open>reading a resource table after an update of the tables\<close>
named_theorems invariant_intros \<open>steps that keep a component's invariant\<close>
named_theorems triple_intros \<open>triples of a step and of compositions of steps\<close>

subsection \<open>Machine integers\<close>

type_synonym byte = "8 word"
type_synonym u32 = "32 word"
type_synonym u64 = "64 word"
type_synonym bytes = "byte list"

text \<open>\<open>u32::to_be_bytes\<close> and \<open>u32::from_be_bytes\<close>: most significant byte first.\<close>

definition u32_to_be_bytes :: "u32 \<Rightarrow> bytes" where
  "u32_to_be_bytes w =
     [ucast (drop_bit 24 w), ucast (drop_bit 16 w), ucast (drop_bit 8 w), ucast w]"

definition u32_from_be_bytes :: "byte \<Rightarrow> byte \<Rightarrow> byte \<Rightarrow> byte \<Rightarrow> u32" where
  "u32_from_be_bytes b0 b1 b2 b3 =
     push_bit 24 (ucast b0) OR push_bit 16 (ucast b1) OR push_bit 8 (ucast b2) OR ucast b3"

lemma length_u32_to_be_bytes [simp]: "length (u32_to_be_bytes w) = 4"
  by (simp add: u32_to_be_bytes_def)

lemma u32_be_bytes_roundtrip [simp]:
  "u32_from_be_bytes (ucast (drop_bit 24 w)) (ucast (drop_bit 16 w))
     (ucast (drop_bit 8 w)) (ucast w) = (w :: u32)"
proof (rule bit_word_eqI)
  fix n
  assume "n < LENGTH(32)"
  then show "bit (u32_from_be_bytes (ucast (drop_bit 24 w)) (ucast (drop_bit 16 w))
     (ucast (drop_bit 8 w)) (ucast w)) n \<longleftrightarrow> bit w n"
    by (cases "n < 8"; cases "n < 16"; cases "n < 24")
      (auto simp add: u32_from_be_bytes_def bit_simps)
qed

lemma u32_to_be_bytes_cases:
  obtains b0 b1 b2 b3 where "u32_to_be_bytes w = [b0, b1, b2, b3]"
    and "u32_from_be_bytes b0 b1 b2 b3 = w"
  by (simp add: u32_to_be_bytes_def)

text \<open>
  Rust's \<open>a + b\<close> on \<open>u64\<close>: with overflow checks (a debug build) it panics when the sum
  does not fit, without them (a release build) it wraps. \<open>None\<close> is the panic.
\<close>

definition add_u64 :: "bool \<Rightarrow> u64 \<Rightarrow> u64 \<Rightarrow> u64 option" where
  "add_u64 overflow_checks a b =
     (if overflow_checks \<and> 2 ^ 64 \<le> unat a + unat b then None else Some (a + b))"

lemma add_u64_fits [simp]: "unat a + unat b < 2 ^ 64 \<Longrightarrow> add_u64 c a b = Some (a + b)"
  by (simp add: add_u64_def)

definition saturating_sub_u64 :: "u64 \<Rightarrow> u64 \<Rightarrow> u64" where
  "saturating_sub_u64 a b = (if a < b then 0 else a - b)"

lemma unat_saturating_sub_u64: "unat (saturating_sub_u64 a b) = unat a - unat b"
  by (auto simp: saturating_sub_u64_def word_less_nat_alt unat_sub word_le_nat_alt not_less)

subsection \<open>Decimal printing\<close>

text \<open>\<open>{}\<close> of an unsigned integer: its decimal digits.\<close>

definition digit_char :: "nat \<Rightarrow> char" where
  "digit_char d = char_of (48 + d)"

fun show_nat :: "nat \<Rightarrow> string" where
  "show_nat n = (if n < 10 then [digit_char n] else show_nat (n div 10) @ [digit_char (n mod 10)])"

declare show_nat.simps [simp del]

abbreviation show_u64 :: "u64 \<Rightarrow> string" where
  "show_u64 w \<equiv> show_nat (unat w)"

abbreviation show_u32 :: "u32 \<Rightarrow> string" where
  "show_u32 w \<equiv> show_nat (unat w)"

subsection \<open>Results\<close>

definition bind_res :: "'e + 'a \<Rightarrow> ('a \<Rightarrow> 'e + 'b) \<Rightarrow> 'e + 'b" where
  "bind_res r f = (case r of Inl e \<Rightarrow> Inl e | Inr a \<Rightarrow> f a)"

lemma bind_res_simps [simp]:
  "bind_res (Inl e) f = Inl e"
  "bind_res (Inr a) f = f a"
  by (simp_all add: bind_res_def)

lemma bind_res_eq_Inr:
  "bind_res r f = Inr b \<longleftrightarrow> (\<exists>a. r = Inr a \<and> f a = Inr b)"
  by (cases r) auto

lemma bind_res_eq_Inl:
  "bind_res r f = Inl e \<longleftrightarrow> r = Inl e \<or> (\<exists>a. r = Inr a \<and> f a = Inl e)"
  by (cases r) auto

definition ok_or :: "'e \<Rightarrow> 'a option \<Rightarrow> 'e + 'a" where
  "ok_or e m = (case m of None \<Rightarrow> Inl e | Some a \<Rightarrow> Inr a)"

lemma ok_or_simps [simp]:
  "ok_or e None = Inl e"
  "ok_or e (Some a) = Inr a"
  by (simp_all add: ok_or_def)

lemma ok_or_eq_Inr [simp]: "ok_or e m = Inr a \<longleftrightarrow> m = Some a"
  by (cases m) auto

fun collect_res :: "('a \<Rightarrow> 'e + 'b) \<Rightarrow> 'a list \<Rightarrow> 'e + 'b list" where
  "collect_res f [] = Inr []"
| "collect_res f (x # xs) =
     bind_res (f x) (\<lambda>y. bind_res (collect_res f xs) (\<lambda>ys. Inr (y # ys)))"

lemma collect_res_eq_Inr:
  "collect_res f xs = Inr ys \<longleftrightarrow> list_all2 (\<lambda>x y. f x = Inr y) xs ys"
  by (induction xs arbitrary: ys) (auto simp: bind_res_eq_Inr list_all2_Cons1)

lemma collect_res_Inl_iff:
  "(\<exists>e. collect_res f xs = Inl e) \<longleftrightarrow> (\<exists>x \<in> set xs. \<exists>e. f x = Inl e)"
proof (induction xs)
  case Nil
  then show ?case by simp
next
  case (Cons x xs)
  then show ?case
    by (cases "f x"; cases "collect_res f xs") auto
qed

text \<open>The error that comes back is the first one, in list order.\<close>

lemma collect_res_first_error:
  assumes "\<forall>u \<in> set us. \<exists>y. f u = Inr y" and "f x = Inl e"
  shows "collect_res f (us @ x # vs) = Inl e"
  using assms by (induction us) auto

lemma collect_res_InlE:
  assumes "collect_res f xs = Inl e"
  obtains us x vs where "xs = us @ x # vs" and "\<forall>u \<in> set us. \<exists>y. f u = Inr y"
    and "f x = Inl e"
  using assms
proof (induction xs arbitrary: thesis)
  case Nil
  then show ?case by simp
next
  case (Cons a xs)
  show ?case
  proof (cases "f a")
    case (Inl e')
    with Cons.prems(2) show ?thesis
      by (intro Cons.prems(1) [of "[]" a xs]) auto
  next
    case (Inr y)
    with Cons.prems(2) have "collect_res f xs = Inl e"
      by (cases "collect_res f xs") auto
    then obtain us x vs where "xs = us @ x # vs" "\<forall>u \<in> set us. \<exists>y. f u = Inr y"
      "f x = Inl e"
      by (rule Cons.IH [rotated])
    with Inr show ?thesis
      by (intro Cons.prems(1) [of "a # us" x vs]) auto
  qed
qed

subsection \<open>The handler monad\<close>

datatype ('e, 'a) flow = Ret 'a | Fail 'e | Panic

type_synonym ('s, 'e, 'a) step = "'s \<Rightarrow> ('e, 'a) flow \<times> 's"

definition ret :: "'a \<Rightarrow> ('s, 'e, 'a) step" where
  "ret a s = (Ret a, s)"

definition fail :: "'e \<Rightarrow> ('s, 'e, 'a) step" where
  "fail e s = (Fail e, s)"

definition panic :: "('s, 'e, 'a) step" where
  "panic s = (Panic, s)"

definition andThen :: "('s, 'e, 'a) step \<Rightarrow> ('a \<Rightarrow> ('s, 'e, 'b) step) \<Rightarrow> ('s, 'e, 'b) step" where
  "andThen m f s =
     (case m s of
        (Ret a, s') \<Rightarrow> f a s'
      | (Fail e, s') \<Rightarrow> (Fail e, s')
      | (Panic, s') \<Rightarrow> (Panic, s'))"

text \<open>A pure result inside a handler: its error is the early return.\<close>

definition lift_res :: "'e + 'a \<Rightarrow> ('s, 'e, 'a) step" where
  "lift_res r s = (case r of Inl e \<Rightarrow> (Fail e, s) | Inr a \<Rightarrow> (Ret a, s))"

text \<open>A panicking arithmetic operation inside a handler.\<close>

definition lift_opt :: "'a option \<Rightarrow> ('s, 'e, 'a) step" where
  "lift_opt m s = (case m of None \<Rightarrow> (Panic, s) | Some a \<Rightarrow> (Ret a, s))"

text \<open>\<open>for x in xs { body x?; }\<close>\<close>

fun for_each :: "('a \<Rightarrow> ('s, 'e, unit) step) \<Rightarrow> 'a list \<Rightarrow> ('s, 'e, unit) step" where
  "for_each body [] = ret ()"
| "for_each body (x # xs) = andThen (body x) (\<lambda>_. for_each body xs)"

lemma step_simps [simp, flow_simps]:
  "ret a s = (Ret a, s)"
  "fail e s = (Fail e, s)"
  "panic s = (Panic, s)"
  "lift_res (Inl e) s = (Fail e, s)"
  "lift_res (Inr a) s = (Ret a, s)"
  "lift_opt None s = (Panic, s)"
  "lift_opt (Some a) s = (Ret a, s)"
  by (simp_all add: ret_def fail_def panic_def lift_res_def lift_opt_def)

lemma andThen_ret [simp]:
  "andThen (ret a) f = f a"
  "andThen (Pair (Ret a)) f = f a"
  by (simp_all add: fun_eq_iff andThen_def)

lemma andThen_fail [simp]:
  "andThen (fail e) f = fail e"
  "andThen (Pair (Fail e)) f = Pair (Fail e)"
  by (simp_all add: fun_eq_iff andThen_def)

lemma andThen_lift_res [simp]:
  "andThen (lift_res (Inl e)) f = fail e"
  "andThen (lift_res (Inr a)) f = f a"
  by (simp_all add: fun_eq_iff andThen_def)

lemma andThen_assoc: "andThen (andThen m f) g = andThen m (\<lambda>a. andThen (f a) g)"
  by (simp add: fun_eq_iff andThen_def split: prod.splits flow.splits)

lemma for_each_append:
  "for_each body (xs @ ys) = andThen (for_each body xs) (\<lambda>_. for_each body ys)"
  by (induction xs) (simp_all add: andThen_assoc)

lemma andThen_eq_Ret:
  "andThen m f s = (Ret b, s'') \<longleftrightarrow> (\<exists>a s'. m s = (Ret a, s') \<and> f a s' = (Ret b, s''))"
  by (auto simp: andThen_def split: prod.splits flow.splits)

lemma andThen_cases [consumes 1, case_names Ret Fail Panic]:
  assumes "andThen m f s = (r, s'')"
  obtains a s' where "m s = (Ret a, s')" and "f a s' = (r, s'')"
  | e where "m s = (Fail e, s'')" and "r = Fail e"
  | "m s = (Panic, s'')" and "r = Panic"
  using assms by (auto simp: andThen_def split: prod.splits flow.splits)

text \<open>
  An invariant of the state that every step keeps, whatever the step's outcome, is kept by a
  sequence of steps.
\<close>

definition keeps :: "('s \<Rightarrow> 's \<Rightarrow> bool) \<Rightarrow> ('s, 'e, 'a) step \<Rightarrow> bool" where
  "keeps R m \<longleftrightarrow> (\<forall>s. R s (snd (m s)))"

lemma keepsI [intro?]: "(\<And>s r s'. m s = (r, s') \<Longrightarrow> R s s') \<Longrightarrow> keeps R m"
  by (metis keeps_def prod.collapse)

lemma keepsD: "keeps R m \<Longrightarrow> m s = (r, s') \<Longrightarrow> R s s'"
  by (metis keeps_def snd_conv)

lemma keeps_pure:
  assumes "reflp R"
  shows "keeps R (ret a)" "keeps R (fail e)" "keeps R panic"
    "keeps R (lift_res r)" "keeps R (lift_opt m)"
  using assms
  by (auto simp: keeps_def reflp_def lift_res_def lift_opt_def split: sum.splits option.splits)

lemma keeps_andThen:
  assumes "transp R" and "keeps R m" and "\<And>a. keeps R (f a)"
  shows "keeps R (andThen m f)"
proof
  fix s r s''
  assume "andThen m f s = (r, s'')"
  then show "R s s''"
    using assms by (cases rule: andThen_cases) (blast dest: keepsD transpD)+
qed

lemma keeps_for_each:
  assumes "reflp R" and "transp R" and "\<And>x. x \<in> set xs \<Longrightarrow> keeps R (body x)"
  shows "keeps R (for_each body xs)"
  using assms(3) by (induction xs) (auto intro!: keeps_andThen keeps_pure assms(1,2))

subsection \<open>Outcomes of a step\<close>

definition never_fails :: "('s, 'e, 'a) step \<Rightarrow> bool" where
  "never_fails m \<longleftrightarrow> (\<forall>s e. fst (m s) \<noteq> Fail e)"

definition no_panic :: "('s, 'e, 'a) step \<Rightarrow> bool" where
  "no_panic m \<longleftrightarrow> (\<forall>s. fst (m s) \<noteq> Panic)"

lemma never_fails_pure [simp]:
  "never_fails (ret a)" "never_fails panic" "never_fails (lift_opt x)" "never_fails (lift_res (Inr a))"
  by (simp_all add: never_fails_def lift_opt_def split: option.splits)

lemma no_panic_pure [simp]:
  "no_panic (ret a)" "no_panic (fail e)" "no_panic (lift_res r)" "no_panic (lift_opt (Some a))"
  by (simp_all add: no_panic_def lift_res_def split: sum.splits)

lemma never_fails_andThen:
  "never_fails m \<Longrightarrow> (\<And>a. never_fails (f a)) \<Longrightarrow> never_fails (andThen m f)"
  unfolding never_fails_def andThen_def
  by (auto split: prod.splits flow.splits) (metis fst_conv)+

lemma no_panic_andThen:
  "no_panic m \<Longrightarrow> (\<And>a. no_panic (f a)) \<Longrightarrow> no_panic (andThen m f)"
  unfolding no_panic_def andThen_def
  by (auto split: prod.splits flow.splits) (metis fst_conv)+

lemma never_fails_for_each:
  "(\<And>x. x \<in> set xs \<Longrightarrow> never_fails (body x)) \<Longrightarrow> never_fails (for_each body xs)"
  by (induction xs) (auto intro!: never_fails_andThen)

lemma no_panic_for_each:
  "(\<And>x. x \<in> set xs \<Longrightarrow> no_panic (body x)) \<Longrightarrow> no_panic (for_each body xs)"
  by (induction xs) (auto intro!: no_panic_andThen)

text \<open>
  A step that looks things up while it goes, against one that looks everything up first: when the
  pure computation \<open>r\<close> gives a plan, the step is the plan's execution, and when \<open>r\<close> fails
  with \<open>e\<close>, so does the step, unless it panics before it gets there.
\<close>

definition realises :: "('s, 'e, 'b) step \<Rightarrow> 'e + 'p \<Rightarrow> ('p \<Rightarrow> ('s, 'e, 'b) step) \<Rightarrow> bool" where
  "realises m r run \<longleftrightarrow>
     (\<forall>p. r = Inr p \<longrightarrow> m = run p) \<and> (\<forall>e s. r = Inl e \<longrightarrow> fst (m s) = Fail e \<or> fst (m s) = Panic)"

lemma realises_lift: "realises (andThen (lift_res r) run) r run"
  by (cases r) (simp_all add: realises_def)

lemma realises_Inr: "realises m r run \<Longrightarrow> r = Inr p \<Longrightarrow> m = run p"
  by (simp add: realises_def)

lemma realises_Inl: "realises m r run \<Longrightarrow> r = Inl e \<Longrightarrow> fst (m s) = Fail e \<or> fst (m s) = Panic"
  by (simp add: realises_def)

lemma andThen_stops:
  "fst (m s) = Fail e \<or> fst (m s) = Panic \<Longrightarrow>
     fst (andThen m g s) = Fail e \<or> fst (andThen m g s) = Panic"
  by (cases "m s") (auto simp: andThen_def)

lemma andThen_never_fails_stops:
  assumes "never_fails m" and "\<And>a s. fst (g a s) = Fail e \<or> fst (g a s) = Panic"
  shows "fst (andThen m g s) = Fail e \<or> fst (andThen m g s) = Panic"
proof (cases "m s")
  case (Pair r s')
  have "fst (m s) \<noteq> Fail e'" for e'
    using assms(1) by (simp add: never_fails_def)
  then show ?thesis
    using assms(2) Pair by (cases r) (auto simp: andThen_def)
qed

text \<open>The step fails only with the error of the pure computation.\<close>

lemma realises_FailD:
  assumes "realises m r run" and "\<And>p. never_fails (run p)" and "m s = (Fail e, s')"
  shows "r = Inl e"
proof (cases r)
  case (Inl e')
  then show ?thesis
    using assms(3) realises_Inl [OF assms(1), of e' s] by simp
next
  case (Inr p)
  then show ?thesis
    using assms(2) [of p] assms(3) realises_Inr [OF assms(1), of p]
    by (auto simp: never_fails_def) (metis fst_conv)
qed

lemma realises_for_each:
  assumes "\<And>c. realises (m c) (f c) run" and "\<And>p. never_fails (run p)"
  shows "realises (for_each m cs) (collect_res f cs) (for_each run)"
proof (induction cs)
  case Nil
  then show ?case by (auto simp: realises_def fun_eq_iff)
next
  case (Cons c cs)
  show ?case
  proof (cases "f c")
    case (Inl e)
    then have "fst (for_each m (c # cs) s) = Fail e \<or> fst (for_each m (c # cs) s) = Panic" for s
      using realises_Inl [OF assms(1)] by (simp add: andThen_stops)
    with Inl show ?thesis
      by (simp add: realises_def)
  next
    case (Inr p)
    then have m: "m c = run p"
      using realises_Inr [OF assms(1)] by blast
    show ?thesis
    proof (cases "collect_res f cs")
      case (Inl e)
      then have "fst (for_each m (c # cs) s) = Fail e \<or> fst (for_each m (c # cs) s) = Panic" for s
        using realises_Inl [OF Cons.IH]
        by (simp add: m andThen_never_fails_stops [OF assms(2)])
      with Inr Inl show ?thesis
        by (simp add: realises_def m)
    next
      case ps: (Inr ps)
      then have "for_each m cs = for_each run ps"
        using realises_Inr [OF Cons.IH] by blast
      with Inr ps show ?thesis
        by (simp add: realises_def m)
    qed
  qed
qed

subsection \<open>Triples\<close>

text \<open>
  A Hoare triple over the three outcomes: started in \<open>P\<close>, the step ends in \<open>Q a\<close> when it
  returns \<open>a\<close>, in \<open>F\<close> when it leaves early and in \<open>X\<close> when it panics.
\<close>

definition triple ::
  "('s \<Rightarrow> bool) \<Rightarrow> ('s, 'e, 'a) step \<Rightarrow> ('a \<Rightarrow> 's \<Rightarrow> bool) \<Rightarrow> ('s \<Rightarrow> bool) \<Rightarrow> ('s \<Rightarrow> bool) \<Rightarrow> bool" where
  "triple P m Q F X \<longleftrightarrow>
     (\<forall>s. P s \<longrightarrow> (case m s of (Ret a, s') \<Rightarrow> Q a s' | (Fail e, s') \<Rightarrow> F s' | (Panic, s') \<Rightarrow> X s'))"

lemma tripleD:
  assumes "triple P m Q F X" and "P s" and "m s = (r, s')"
  shows "case r of Ret a \<Rightarrow> Q a s' | Fail e \<Rightarrow> F s' | Panic \<Rightarrow> X s'"
  using assms by (cases r) (auto simp: triple_def)

lemma tripleI:
  "(\<And>s r s'. P s \<Longrightarrow> m s = (r, s') \<Longrightarrow> case r of Ret a \<Rightarrow> Q a s' | Fail e \<Rightarrow> F s' | Panic \<Rightarrow> X s') \<Longrightarrow>
     triple P m Q F X"
  by (auto simp: triple_def split: prod.split flow.split)

lemma triple_ret [triple_intros]: "(\<And>s. P s \<Longrightarrow> Q a s) \<Longrightarrow> triple P (ret a) Q F X"
  by (simp add: triple_def)

lemma triple_fail [triple_intros]: "(\<And>s. P s \<Longrightarrow> F s) \<Longrightarrow> triple P (fail e) Q F X"
  by (simp add: triple_def)

lemma triple_lookup [triple_intros]:
  assumes "\<And>a. triple P (f a) R F X" and "\<And>s. P s \<Longrightarrow> F s"
  shows "triple P (andThen (lift_res r) f) R F X"
  using assms by (cases r) (auto simp: triple_def andThen_def)

lemma triple_checked [triple_intros]:
  assumes "\<And>a. triple P (f a) R F X" and "\<And>s. P s \<Longrightarrow> X s"
  shows "triple P (andThen (lift_opt r) f) R F X"
  using assms by (cases r) (auto simp: triple_def andThen_def)

lemma triple_andThen:
  assumes "triple P m Q F X" and "\<And>a. triple (Q a) (f a) R F X"
  shows "triple P (andThen m f) R F X"
  using assms unfolding triple_def andThen_def
  by (fastforce split: prod.splits flow.splits)

lemma triple_for_each [triple_intros]:
  assumes "\<And>x. x \<in> set xs \<Longrightarrow> triple P (body x) (\<lambda>_. P) F X"
  shows "triple P (for_each body xs) (\<lambda>_. P) F X"
  using assms by (induction xs) (auto simp del: step_simps intro!: triple_andThen triple_ret)

lemma triple_weaken:
  assumes "triple P m Q F X" and "\<And>s. P' s \<Longrightarrow> P s" and "\<And>a s. Q a s \<Longrightarrow> Q' a s"
    and "\<And>s. F s \<Longrightarrow> F' s" and "\<And>s. X s \<Longrightarrow> X' s"
  shows "triple P' m Q' F' X'"
  using assms unfolding triple_def by (fastforce split: prod.splits flow.splits)

end
