(* ===== verification/Ids.thy ===== *)
theory Ids
  imports Prelude
begin

section \<open>Typed resource handles\<close>

text \<open>
  \<open>protocol/ids.rs\<close>. The macro \<open>id_type!\<close> declares thirteen newtypes over \<open>u64\<close> that
  differ only in their name, so that a \<open>BufferId\<close> cannot be passed for a \<open>TextureId\<close>.
  Here they are one generic newtype \<open>'k id\<close> at thirteen tag types: the type checker of HOL
  keeps the kinds apart as Rust's does. The derived \<open>Ord\<close> compares the number.
\<close>

datatype 'k id = Id (raw: u64)

text \<open>\<open>$name::new\<close>.\<close>

definition new_id :: "u64 \<Rightarrow> 'k id" where
  "new_id n = Id n"

datatype device_kind = DeviceKind
datatype queue_kind = QueueKind
datatype buffer_kind = BufferKind
datatype texture_kind = TextureKind
datatype texture_view_kind = TextureViewKind
datatype sampler_kind = SamplerKind
datatype shader_module_kind = ShaderModuleKind
datatype bind_group_layout_kind = BindGroupLayoutKind
datatype bind_group_kind = BindGroupKind
datatype pipeline_layout_kind = PipelineLayoutKind
datatype render_pipeline_kind = RenderPipelineKind
datatype compute_pipeline_kind = ComputePipelineKind
datatype command_buffer_kind = CommandBufferKind

type_synonym device_id = "device_kind id"
type_synonym queue_id = "queue_kind id"
type_synonym buffer_id = "buffer_kind id"
type_synonym texture_id = "texture_kind id"
type_synonym texture_view_id = "texture_view_kind id"
type_synonym sampler_id = "sampler_kind id"
type_synonym shader_module_id = "shader_module_kind id"
type_synonym bind_group_layout_id = "bind_group_layout_kind id"
type_synonym bind_group_id = "bind_group_kind id"
type_synonym pipeline_layout_id = "pipeline_layout_kind id"
type_synonym render_pipeline_id = "render_pipeline_kind id"
type_synonym compute_pipeline_id = "compute_pipeline_kind id"
type_synonym command_buffer_id = "command_buffer_kind id"

text \<open>\<open>#[derive(Ord, PartialOrd)]\<close> on a newtype: the order of the number.\<close>

instantiation id :: (type) linorder
begin

definition less_eq_id :: "'a id \<Rightarrow> 'a id \<Rightarrow> bool" where
  "less_eq_id a b = (raw a \<le> raw b)"

definition less_id :: "'a id \<Rightarrow> 'a id \<Rightarrow> bool" where
  "less_id a b = (raw a < raw b)"

instance
  by standard (auto simp: less_eq_id_def less_id_def id.expand)

end

lemma raw_new_id [simp]: "raw (new_id n) = n"
  by (simp add: new_id_def)

lemma new_id_inject [simp]: "new_id m = new_id n \<longleftrightarrow> m = n"
  by (simp add: new_id_def)

lemma new_id_raw [simp]: "new_id (raw i) = i"
  by (simp add: new_id_def)

text \<open>\<open>ResourceId\<close>: some resource, whatever its kind.\<close>

datatype resource_id =
    RDevice device_id
  | RQueue queue_id
  | RBuffer buffer_id
  | RTexture texture_id
  | RTextureView texture_view_id
  | RSampler sampler_id
  | RShaderModule shader_module_id
  | RBindGroupLayout bind_group_layout_id
  | RBindGroup bind_group_id
  | RPipelineLayout pipeline_layout_id
  | RRenderPipeline render_pipeline_id
  | RComputePipeline compute_pipeline_id
  | RCommandBuffer command_buffer_id

end
