(* ===== verification/Descriptors.thy ===== *)
theory Descriptors
  imports Ids
begin

section \<open>Wire descriptors\<close>

text \<open>
  \<open>protocol/descriptors.rs\<close>. Plain values of the \<open>wgpu_types\<close> crate that this program
  only moves from one struct to the next (texture formats, filter modes, extents, colours,
  floats, \<dots>) are values of the type parameter \<open>'w\<close>: their definition is not in this
  repository and no code of it looks inside. \<open>BufferUsages\<close> is the exception, a flag set
  the drop-in adds a flag to, and is a \<open>u32\<close>. A \<open>NonZeroU64\<close> is the \<open>u64\<close> its
  \<open>get\<close> returns. The model is of the default build (feature \<open>wgpu-27\<close>).
\<close>

subsection \<open>Descriptors aliased from wgpu-types\<close>

record buffer_descriptor =
  bd_label :: "string option"
  bd_size :: u64
  bd_usage :: u32
  bd_mapped_at_creation :: bool

record 'w texture_descriptor =
  td_label :: "string option"
  td_size :: 'w
  td_mip_level_count :: u32
  td_sample_count :: u32
  td_dimension :: 'w
  td_format :: 'w
  td_usage :: 'w
  td_view_formats :: "'w list"

record 'w texture_view_descriptor =
  tv_label :: "string option"
  tv_format :: "'w option"
  tv_dimension :: "'w option"
  tv_usage :: "'w option"
  tv_aspect :: 'w
  tv_base_mip_level :: u32
  tv_mip_level_count :: "u32 option"
  tv_base_array_layer :: u32
  tv_array_layer_count :: "u32 option"

record 'w sampler_descriptor =
  sd_label :: "string option"
  sd_address_mode_u :: 'w
  sd_address_mode_v :: 'w
  sd_address_mode_w :: 'w
  sd_mag_filter :: 'w
  sd_min_filter :: 'w
  sd_mipmap_filter :: 'w
  sd_lod_min_clamp :: 'w
  sd_lod_max_clamp :: 'w
  sd_compare :: "'w option"
  sd_anisotropy_clamp :: 'w
  sd_border_color :: "'w option"

record command_encoder_descriptor =
  ce_label :: "string option"

subsection \<open>Descriptors that name other resources by id\<close>

record 'w bind_group_layout_descriptor =
  bgl_label :: "string option"
  bgl_entries :: "'w list"

record buffer_binding =
  bb_buffer :: buffer_id
  bb_offset :: u64
  bb_size :: "u64 option"

datatype binding_resource =
    BRBuffer buffer_id u64 "u64 option"
  | BRBufferArray "buffer_binding list"
  | BRSampler sampler_id
  | BRSamplerArray "sampler_id list"
  | BRTextureView texture_view_id
  | BRTextureViewArray "texture_view_id list"

record bind_group_entry =
  bge_binding :: u32
  bge_resource :: binding_resource

record bind_group_descriptor =
  bg_label :: "string option"
  bg_layout :: bind_group_layout_id
  bg_entries :: "bind_group_entry list"

record 'w pipeline_layout_descriptor =
  pl_label :: "string option"
  pl_bind_group_layouts :: "bind_group_layout_id list"
  pl_push_constant_ranges :: "'w list"

datatype 'w shader_source =
    Wgsl string
  | SpirV "u32 list"
  | Glsl string 'w "(string \<times> string) list"

record 'w shader_module_descriptor =
  sm_label :: "string option"
  sm_source :: "'w shader_source"

record 'w vertex_buffer_layout =
  vbl_array_stride :: u64
  vbl_step_mode :: 'w
  vbl_attributes :: "'w list"

record 'w vertex_state =
  vs_module :: shader_module_id
  vs_entry_point :: "string option"
  vs_constants :: "(string \<times> 'w) list"
  vs_buffers :: "'w vertex_buffer_layout list"

record 'w fragment_state =
  fs_module :: shader_module_id
  fs_entry_point :: "string option"
  fs_constants :: "(string \<times> 'w) list"
  fs_targets :: "'w option list"

record 'w render_pipeline_descriptor =
  rp_label :: "string option"
  rp_layout :: "pipeline_layout_id option"
  rp_vertex :: "'w vertex_state"
  rp_primitive :: 'w
  rp_depth_stencil :: "'w option"
  rp_multisample :: 'w
  rp_fragment :: "'w fragment_state option"
  rp_multiview :: "u32 option"

record 'w compute_pipeline_descriptor =
  cp_label :: "string option"
  cp_layout :: "pipeline_layout_id option"
  cp_module :: shader_module_id
  cp_entry_point :: "string option"
  cp_constants :: "(string \<times> 'w) list"

subsection \<open>The derived Debug text of a binding resource\<close>

text \<open>
  \<open>{:?}\<close> of the derived \<open>Debug\<close> implementations, which the server prints in one error
  message: a tuple struct prints as \<open>Name(field)\<close>, a struct as \<open>Name { f: v }\<close>, a
  \<open>Vec\<close> as \<open>[a, b]\<close>, an \<open>Option\<close> as \<open>Some(v)\<close> or \<open>None\<close>.
\<close>

fun sep_by :: "string \<Rightarrow> string list \<Rightarrow> string" where
  "sep_by sep [] = []"
| "sep_by sep [x] = x"
| "sep_by sep (x # xs) = x @ sep @ sep_by sep xs"

definition debug_id :: "string \<Rightarrow> 'k id \<Rightarrow> string" where
  "debug_id name i = name @ ''('' @ show_u64 (raw i) @ '')''"

definition debug_size :: "u64 option \<Rightarrow> string" where
  "debug_size sz =
     (case sz of None \<Rightarrow> ''None'' | Some n \<Rightarrow> ''Some('' @ show_u64 n @ '')'')"

definition debug_buffer_fields :: "buffer_id \<Rightarrow> u64 \<Rightarrow> u64 option \<Rightarrow> string" where
  "debug_buffer_fields b off sz =
     '' { buffer: '' @ debug_id ''BufferId'' b @ '', offset: '' @ show_u64 off
        @ '', size: '' @ debug_size sz @ '' }''"

fun debug_binding_resource :: "binding_resource \<Rightarrow> string" where
  "debug_binding_resource (BRBuffer b off sz) = ''Buffer'' @ debug_buffer_fields b off sz"
| "debug_binding_resource (BRBufferArray bs) =
     ''BufferArray(['' @ sep_by '', '' (map (\<lambda>b. ''BufferBinding''
        @ debug_buffer_fields (bb_buffer b) (bb_offset b) (bb_size b)) bs) @ ''])''"
| "debug_binding_resource (BRSampler s) = ''Sampler('' @ debug_id ''SamplerId'' s @ '')''"
| "debug_binding_resource (BRSamplerArray ss) =
     ''SamplerArray(['' @ sep_by '', '' (map (debug_id ''SamplerId'') ss) @ ''])''"
| "debug_binding_resource (BRTextureView v) =
     ''TextureView('' @ debug_id ''TextureViewId'' v @ '')''"
| "debug_binding_resource (BRTextureViewArray vs) =
     ''TextureViewArray(['' @ sep_by '', '' (map (debug_id ''TextureViewId'') vs) @ ''])''"

end
