(* ===== verification/Commands.thy ===== *)
theory Commands
  imports Descriptors
begin

section \<open>Recorded command buffers\<close>

text \<open>
  \<open>protocol/commands.rs\<close>: a recorded command buffer is a list of encoder commands, and the
  commands of a pass are nested inside the \<open>Begin*Pass\<close> that opens it. A Rust range
  \<open>a..b\<close> of \<open>u32\<close> is the pair of its bounds.
\<close>

record 'w image_copy_buffer =
  icb_buffer :: buffer_id
  icb_layout :: 'w

record 'w image_copy_texture =
  ict_texture :: texture_id
  ict_mip_level :: u32
  ict_origin :: 'w
  ict_aspect :: 'w

record 'w color_attachment =
  ca_view :: texture_view_id
  ca_depth_slice :: "u32 option"
  ca_resolve_target :: "texture_view_id option"
  ca_ops :: 'w

record 'w depth_stencil_attachment =
  da_view :: texture_view_id
  da_depth_ops :: "'w option"
  da_stencil_ops :: "'w option"

datatype compute_command =
    CSetPipeline compute_pipeline_id
  | CSetBindGroup u32 bind_group_id "u32 list"
  | CSetPushConstants u32 bytes
  | CDispatchWorkgroups u32 u32 u32
  | CDispatchWorkgroupsIndirect buffer_id u64

datatype 'w render_command =
    RSetPipeline render_pipeline_id
  | RSetBindGroup u32 bind_group_id "u32 list"
  | RSetVertexBuffer u32 buffer_id u64 "u64 option"
  | RSetIndexBuffer buffer_id 'w u64 "u64 option"
  | RDraw "u32 \<times> u32" "u32 \<times> u32"
  | RDrawIndexed "u32 \<times> u32" u32 "u32 \<times> u32"

text \<open>
  The fields of \<open>CopyBufferToBuffer\<close> are source, source offset, destination, destination
  offset and size; those of \<open>BeginRenderPass\<close> label, colour attachments, depth-stencil
  attachment and commands. The base vertex of \<open>DrawIndexed\<close> is an \<open>i32\<close>, carried as its
  32 bits.
\<close>

datatype 'w encoder_command =
    CopyBufferToBuffer buffer_id u64 buffer_id u64 u64
  | CopyBufferToTexture "'w image_copy_buffer" "'w image_copy_texture" 'w
  | CopyTextureToBuffer "'w image_copy_texture" "'w image_copy_buffer" 'w
  | ClearBuffer buffer_id u64 "u64 option"
  | BeginComputePass "string option" "compute_command list"
  | BeginRenderPass "string option" "'w color_attachment option list"
      "'w depth_stencil_attachment option" "'w render_command list"

record 'w recording =
  rec_label :: "string option"
  rec_commands :: "'w encoder_command list"

end
