(* ===== verification/Actions.thy ===== *)
theory Actions
  imports Commands
begin

section \<open>Messages\<close>

text \<open>
  \<open>protocol/actions.rs\<close>, \<open>protocol/responses.rs\<close> and \<open>protocol/version.rs\<close>: what the
  client sends, what the server answers, and the protocol version.
\<close>

definition PROTOCOL_VERSION :: u32 where
  "PROTOCOL_VERSION = 1"

datatype request_id = RequestId (req_raw: u64)

datatype 'w action =
    Hello u32
  | RequestAdapter
  | RequestDevice "string option"
  | CreateBuffer buffer_id buffer_descriptor
  | CreateTexture texture_id "'w texture_descriptor"
  | CreateTextureView texture_view_id texture_id "'w texture_view_descriptor"
  | CreateSampler sampler_id "'w sampler_descriptor"
  | CreateShaderModule shader_module_id "'w shader_module_descriptor"
  | CreateBindGroupLayout bind_group_layout_id "'w bind_group_layout_descriptor"
  | CreateBindGroup bind_group_id bind_group_descriptor
  | CreatePipelineLayout pipeline_layout_id "'w pipeline_layout_descriptor"
  | CreateRenderPipeline render_pipeline_id "'w render_pipeline_descriptor"
  | CreateComputePipeline compute_pipeline_id "'w compute_pipeline_descriptor"
  | CreateCommandEncoder command_buffer_id command_encoder_descriptor
  | Destroy resource_id
  | WriteBuffer buffer_id u64 bytes
  | WriteTexture texture_id u32 'w 'w bytes 'w 'w
  | DeriveRenderPipelineBindGroupLayout render_pipeline_id u32 bind_group_layout_id
  | DeriveComputePipelineBindGroupLayout compute_pipeline_id u32 bind_group_layout_id
  | Submit "bytes list"
  | MapBufferForRead buffer_id u64 u64

record 'w frame =
  fr_request_id :: "request_id option"
  fr_action :: "'w action"

datatype error_code =
    ProtocolVersionMismatch
  | UnknownResource
  | InvalidArgument
  | OutOfMemory
  | DeviceLost
  | Internal

datatype response =
    HelloAck u32
  | RespOk
  | BufferData bytes
  | SubmissionComplete u64
  | RespError error_code string

record response_frame =
  rf_request_id :: request_id
  rf_response :: response

text \<open>
  The derived \<open>Ord\<close> of \<open>RequestId\<close>; ids are minted in this order.
\<close>

instantiation request_id :: linorder
begin

definition less_eq_request_id :: "request_id \<Rightarrow> request_id \<Rightarrow> bool" where
  "less_eq_request_id a b = (req_raw a \<le> req_raw b)"

definition less_request_id :: "request_id \<Rightarrow> request_id \<Rightarrow> bool" where
  "less_request_id a b = (req_raw a < req_raw b)"

instance
  by standard (auto simp: less_eq_request_id_def less_request_id_def request_id.expand)

end

text \<open>The server's answer to a reference to a resource its tables do not hold.\<close>

definition unknown_resource :: "string \<Rightarrow> u64 \<Rightarrow> response" where
  "unknown_resource kind n = RespError UnknownResource (''unknown '' @ kind @ ''('' @ show_u64 n @ '')'')"

lemma unknown_resource_neq [simp]:
  "unknown_resource k n \<noteq> RespOk" "unknown_resource k n \<noteq> BufferData d"
  "unknown_resource k n \<noteq> HelloAck v"
  by (simp_all add: unknown_resource_def)

end
