(* ===== verification/Codec.thy ===== *)
theory Codec
  imports Actions
begin

section \<open>Framing\<close>

text \<open>
  \<open>protocol/codec.rs\<close> and \<open>read_frame\<close> of \<open>transport/mod.rs\<close>: a frame is
  \<open>[u32 BE length][bincode bytes]\<close>. The serializer, the crate \<open>bincode\<close>, is a parameter:
  a pair of functions whose error is the text its error type displays. What the code relies on
  is \<open>bincode_ok\<close>: decoding the bytes a value was encoded to gives the value back and consumes
  them all. A byte stream is the list of bytes that arrive before it ends; \<open>read_exact\<close> fails
  when fewer are left.

  The locale \<open>framing\<close> is the interface between the framing and the two loops that read
  frames, the server's stream handler and the client's reader task.
\<close>

subsection \<open>The serializer\<close>

record 'a bincode =
  bc_encode :: "'a \<Rightarrow> string + bytes"
  bc_decode :: "bytes \<Rightarrow> string + 'a \<times> nat"

definition bincode_ok :: "'a bincode \<Rightarrow> bool" where
  "bincode_ok bc \<longleftrightarrow>
     (\<forall>v body. bc_encode bc v = Inr body \<longrightarrow> bc_decode bc body = Inr (v, length body))"

lemma bincode_okD: "bincode_ok bc \<Longrightarrow> bc_encode bc v = Inr body \<Longrightarrow> bc_decode bc body = Inr (v, length body)"
  by (simp add: bincode_ok_def)

text \<open>
  A serializer given by a finite table, with which the properties below are evaluated on
  concrete messages.
\<close>

fun table_encode :: "('a \<times> bytes) list \<Rightarrow> 'a \<Rightarrow> string + bytes" where
  "table_encode [] v = Inl ''not in the table''"
| "table_encode ((w, b) # tbl) v = (if v = w then Inr b else table_encode tbl v)"

fun table_decode :: "('a \<times> bytes) list \<Rightarrow> bytes \<Rightarrow> string + 'a \<times> nat" where
  "table_decode [] b = Inl ''unexpected end''"
| "table_decode ((w, b') # tbl) b = (if b = b' then Inr (w, length b) else table_decode tbl b)"

definition table_bincode :: "('a \<times> bytes) list \<Rightarrow> 'a bincode" where
  "table_bincode tbl = \<lparr>bc_encode = table_encode tbl, bc_decode = table_decode tbl\<rparr>"

lemma table_encode_in: "table_encode tbl v = Inr b \<Longrightarrow> b \<in> snd ` set tbl"
  by (induction tbl v rule: table_encode.induct) (auto split: if_splits)

lemma table_bincode_ok:
  assumes "distinct (map snd tbl)"
  shows "bincode_ok (table_bincode tbl)"
proof -
  have "table_encode tbl v = Inr b \<Longrightarrow> table_decode tbl b = Inr (v, length b)" for v b
    using assms
    by (induction tbl v rule: table_encode.induct) (auto split: if_splits dest: table_encode_in)
  then show ?thesis
    by (simp add: bincode_ok_def table_bincode_def)
qed

subsection \<open>codec.rs\<close>

definition MAX_FRAME_BYTES :: nat where
  "MAX_FRAME_BYTES = 64 * 1024 * 1024"

datatype codec_error =
    EncodeError string
  | DecodeError string
  | FrameTooLarge nat
  | Truncated nat nat

text \<open>\<open>Truncated needed got\<close>, in this order.\<close>

text \<open>\<open>u32::from_be_bytes([b[0], b[1], b[2], b[3]]) as usize\<close>.\<close>

definition be_len :: "bytes \<Rightarrow> nat" where
  "be_len b = unat (u32_from_be_bytes (b ! 0) (b ! 1) (b ! 2) (b ! 3))"

definition encode_frame :: "'a bincode \<Rightarrow> 'a \<Rightarrow> codec_error + bytes" where
  "encode_frame bc v =
     (case bc_encode bc v of
        Inl e \<Rightarrow> Inl (EncodeError e)
      | Inr body \<Rightarrow>
          if length body > MAX_FRAME_BYTES then Inl (FrameTooLarge (length body))
          else Inr (u32_to_be_bytes (of_nat (length body)) @ body))"

definition decode_frame :: "'a bincode \<Rightarrow> bytes \<Rightarrow> codec_error + 'a \<times> nat" where
  "decode_frame bc buf =
     (if length buf < 4 then Inl (Truncated 4 (length buf))
      else
        let len = be_len buf in
        if len > MAX_FRAME_BYTES then Inl (FrameTooLarge len)
        else
          let total = 4 + len in
          if length buf < total then Inl (Truncated total (length buf))
          else
            (case bc_decode bc (take len (drop 4 buf)) of
               Inl e \<Rightarrow> Inl (DecodeError e)
             | Inr (v, _) \<Rightarrow> Inr (v, total)))"

subsection \<open>read_frame\<close>

text \<open>\<open>read_exact\<close> of \<open>n\<close> bytes: what was read and what is left, \<open>None\<close> at end of stream.\<close>

definition read_exact :: "nat \<Rightarrow> bytes \<Rightarrow> (bytes \<times> bytes) option" where
  "read_exact n s = (if length s < n then None else Some (take n s, drop n s))"

definition read_frame :: "bytes \<Rightarrow> (bytes \<times> bytes) option" where
  "read_frame s =
     (case read_exact 4 s of
        None \<Rightarrow> None
      | Some (len_buf, s1) \<Rightarrow>
          let len = be_len len_buf in (case read_exact len s1 of
                None \<Rightarrow> None
              | Some (body, s2) \<Rightarrow> Some (len_buf @ body, s2)))"

subsection \<open>One frame\<close>

text \<open>The bytes of a frame with a given body, and the bodies whose length the prefix can hold.\<close>

definition put_frame :: "bytes \<Rightarrow> bytes" where
  "put_frame body = u32_to_be_bytes (of_nat (length body)) @ body"

definition prefix_fits :: "bytes \<Rightarrow> bool" where
  "prefix_fits body \<longleftrightarrow> length body < 2 ^ 32"

lemma max_frame_lt: "n \<le> MAX_FRAME_BYTES \<Longrightarrow> n < 2 ^ 32"
  by (simp add: MAX_FRAME_BYTES_def)

lemma encode_frame_eq_Inr:
  "encode_frame bc v = Inr f \<longleftrightarrow>
     (\<exists>body. bc_encode bc v = Inr body \<and> length body \<le> MAX_FRAME_BYTES \<and> f = put_frame body)"
  by (auto simp: encode_frame_def put_frame_def split: sum.splits)

lemma max_frame_fits: "length body \<le> MAX_FRAME_BYTES \<Longrightarrow> prefix_fits body"
  using max_frame_lt by (simp add: prefix_fits_def)

lemma encode_frame_prefix_fits:
  "encode_frame bc v = Inr f \<Longrightarrow> \<exists>body. prefix_fits body \<and> f = put_frame body"
  by (auto simp: encode_frame_eq_Inr intro: max_frame_fits)

lemma unat_of_nat_length [simp]:
  "prefix_fits body \<Longrightarrow> unat (of_nat (length body) :: u32) = length body"
  by (simp add: prefix_fits_def unat_of_nat)

lemma length_put_frame [simp]: "length (put_frame body) = 4 + length body"
  by (simp add: put_frame_def)

text \<open>Reading a framed length back off the head of a buffer.\<close>

lemma be_len_put [simp]: "prefix_fits body \<Longrightarrow> be_len (put_frame body @ rest) = length body"
  by (simp add: be_len_def put_frame_def u32_to_be_bytes_def)

lemma be_len_u32 [simp]: "be_len (u32_to_be_bytes w) = unat w"
  by (simp add: be_len_def u32_to_be_bytes_def)

lemma be_len_take: "4 \<le> n \<Longrightarrow> be_len (take n f) = be_len f"
  by (simp add: be_len_def)

lemma drop_put_frame [simp]: "drop 4 (put_frame body) = body"
  by (simp add: put_frame_def)

lemma read_frame_put: "prefix_fits body \<Longrightarrow> read_frame (put_frame body @ rest) = Some (put_frame body, rest)"
  by (simp add: read_frame_def read_exact_def put_frame_def)

lemma read_frame_parts:
  assumes "read_frame s = Some (f, r)"
  shows "s = f @ r" and "4 \<le> length f"
proof -
  let ?n = "be_len (take 4 s)"
  have "4 \<le> length s" and f: "f = take 4 s @ take ?n (drop 4 s)" and r: "r = drop ?n (drop 4 s)"
    using assms by (auto simp: read_frame_def read_exact_def Let_def split: if_splits)
  then show "4 \<le> length f" by simp
  show "s = f @ r"
    by (simp only: f r append.assoc append_take_drop_id)
qed

lemma read_frame_shorter: "read_frame s = Some (f, r) \<Longrightarrow> length r < length s"
  using read_frame_parts [of s f r] by auto

lemma decode_frame_put:
  assumes "length body \<le> MAX_FRAME_BYTES"
  shows "decode_frame bc (put_frame body @ rest) =
    (case bc_decode bc body of
       Inl e \<Rightarrow> Inl (DecodeError e) | Inr (v, _) \<Rightarrow> Inr (v, 4 + length body))"
  using assms max_frame_fits [OF assms] by (simp add: decode_frame_def Let_def)

lemma decode_encoded_frame:
  assumes "bincode_ok bc" and "encode_frame bc v = Inr f"
  shows "decode_frame bc (f @ rest) = Inr (v, length f)"
proof -
  from assms(2) obtain body where "bc_encode bc v = Inr body"
    and len: "length body \<le> MAX_FRAME_BYTES" and f: "f = put_frame body"
    by (auto simp: encode_frame_eq_Inr)
  then have "bc_decode bc body = Inr (v, length body)"
    using assms(1) by (blast dest: bincode_okD)
  then show ?thesis
    by (simp add: f decode_frame_put [OF len])
qed

subsection \<open>The framing interface\<close>

text \<open>
  What a loop that reads frames relies on: a frame written is read back whole whatever follows
  it, an empty stream has no frame, and a read takes a prefix of the stream and makes progress.
\<close>

locale framing =
  fixes fits :: "bytes \<Rightarrow> bool"
    and put :: "bytes \<Rightarrow> bytes"
    and get :: "bytes \<Rightarrow> (bytes \<times> bytes) option"
  assumes get_put: "fits b \<Longrightarrow> get (put b @ rest) = Some (put b, rest)"
    and get_Nil: "get [] = None"
    and get_append: "get s = Some (f, r) \<Longrightarrow> s = f @ r"
    and get_progress: "get s = Some (f, r) \<Longrightarrow> length r < length s"
begin

text \<open>
  The frames of a stream, read until one is missing: the list \<open>fs\<close> of frames and the bytes
  \<open>r\<close> that are left.
\<close>

inductive drains :: "bytes \<Rightarrow> bytes list \<Rightarrow> bytes \<Rightarrow> bool" where
  drains_end: "get s = None \<Longrightarrow> drains s [] s"
| drains_frame: "get s = Some (f, s') \<Longrightarrow> drains s' fs r \<Longrightarrow> drains s (f # fs) r"

lemma drains_put:
  "\<forall>b \<in> set bs. fits b \<Longrightarrow> get tail = None \<Longrightarrow> drains (concat (map put bs) @ tail) (map put bs) tail"
proof (induction bs)
  case Nil
  then show ?case by (auto intro: drains_end)
next
  case (Cons b bs)
  then have "get (put b @ concat (map put bs) @ tail) = Some (put b, concat (map put bs) @ tail)"
    by (simp add: get_put)
  with Cons show ?case
    by (auto intro: drains_frame)
qed

lemma drains_None: "get s = None \<Longrightarrow> drains s gs q \<longleftrightarrow> gs = [] \<and> q = s"
  by (auto elim: drains.cases intro: drains_end)

lemma drains_Some:
  "get s = Some (f, s') \<Longrightarrow> drains s gs q \<longleftrightarrow> (\<exists>hs. gs = f # hs \<and> drains s' hs q)"
  by (auto elim: drains.cases intro: drains_frame)

lemma drains_unique: "drains s fs r \<Longrightarrow> drains s gs q \<Longrightarrow> gs = fs \<and> q = r"
proof (induction arbitrary: gs q rule: drains.induct)
  case (drains_end s)
  then show ?case
    using drains_None [OF drains_end(1)] by blast
next
  case (drains_frame s f s' fs r)
  then show ?case
    using drains_Some [OF drains_frame.hyps(1)] by blast
qed

lemma drains_total: "\<exists>fs r. drains s fs r"
proof (induction "length s" arbitrary: s rule: less_induct)
  case less
  show ?case
  proof (cases "get s")
    case None
    then show ?thesis by (blast intro: drains_end)
  next
    case (Some p)
    then obtain f s' where "get s = Some (f, s')" by (cases p) auto
    with less [of s'] show ?thesis
      by (blast intro: drains_frame dest: get_progress)
  qed
qed

lemma drains_concat: "drains s fs r \<Longrightarrow> s = concat fs @ r"
  by (induction rule: drains.induct) (auto dest: get_append)

end

interpretation wire: framing prefix_fits put_frame read_frame
proof unfold_locales
  show "read_frame [] = None"
    by (simp add: read_frame_def read_exact_def)
qed (auto intro: read_frame_put dest: read_frame_parts(1) read_frame_shorter)

subsection \<open>Properties\<close>

text \<open>C15: round trip. Whatever bytes follow, decoding the head of a buffer that starts with an
  encoded value gives the value and the length of its frame, which is what the encoder wrote.\<close>

theorem codec_roundtrip:
  assumes "bincode_ok bc" and "encode_frame bc v = Inr f"
  shows "decode_frame bc (f @ rest) = Inr (v, length f)"
  by (rule decode_encoded_frame [OF assms])

theorem codec_roundtrip_witness:
  "decode_frame (table_bincode [(True, [7, 9])]) ([0, 0, 0, 2, 7, 9] @ [1, 2, 3])
     = Inr (True, 6)"
proof -
  let ?bc = "table_bincode [(True, [7, 9 :: byte])]"
  have "bincode_ok ?bc" by (rule table_bincode_ok) simp
  moreover have "encode_frame ?bc True = Inr [0, 0, 0, 2, 7, 9]"
    by (simp add: encode_frame_def table_bincode_def MAX_FRAME_BYTES_def u32_to_be_bytes_def)
  ultimately show ?thesis
    using codec_roundtrip [of ?bc True "[0, 0, 0, 2, 7, 9]" "[1, 2, 3]"] by simp
qed

text \<open>A proper prefix of an encoded frame is never decoded and never misread: the decoder
  says how many bytes it needs (4 for the length, then the whole frame) and how many it got.\<close>

theorem decode_prefix_truncated:
  assumes "encode_frame bc v = Inr f" and "n < length f"
  shows "decode_frame bc (take n f) = Inl (Truncated (if n < 4 then 4 else length f) n)"
proof -
  from assms(1) obtain body where len: "length body \<le> MAX_FRAME_BYTES" and f: "f = put_frame body"
    by (auto simp: encode_frame_eq_Inr)
  show ?thesis
  proof (cases "n < 4")
    case True
    then show ?thesis
      using assms(2) by (simp add: decode_frame_def)
  next
    case False
    then have "be_len (take n f) = length body"
      using max_frame_fits [OF len] be_len_put [of body "[]"] by (simp add: be_len_take f)
    with False show ?thesis
      using assms(2) len f by (simp add: decode_frame_def Let_def)
  qed
qed

theorem decode_prefix_truncated_witness:
  "decode_frame (table_bincode [(True, [7, 9])]) [0, 0, 0, 2, 7] = Inl (Truncated 6 5)"
proof -
  let ?bc = "table_bincode [(True, [7, 9 :: byte])]"
  have "encode_frame ?bc True = Inr [0, 0, 0, 2, 7, 9]"
    by (simp add: encode_frame_def table_bincode_def MAX_FRAME_BYTES_def u32_to_be_bytes_def)
  from decode_prefix_truncated [OF this, of 5] show ?thesis by simp
qed

text \<open>The cap. The decoder refuses a frame for its size exactly when its header declares more
  than \<open>MAX_FRAME_BYTES\<close>, whatever the body is and before the serializer runs; the encoder
  refuses exactly the values whose body is longer, and what it accepts is within the cap.\<close>

theorem frame_cap:
  "(decode_frame bc buf = Inl (FrameTooLarge n) \<longleftrightarrow>
     4 \<le> length buf \<and> n = be_len buf \<and> MAX_FRAME_BYTES < n)
   \<and> (encode_frame bc v = Inl (FrameTooLarge n) \<longleftrightarrow>
     (\<exists>body. bc_encode bc v = Inr body \<and> n = length body \<and> MAX_FRAME_BYTES < n))
   \<and> (encode_frame bc v = Inr f \<longleftrightarrow>
     (\<exists>body. bc_encode bc v = Inr body \<and> length body \<le> MAX_FRAME_BYTES \<and> f = put_frame body))"
  by (auto simp: decode_frame_def encode_frame_def Let_def put_frame_def split: sum.splits if_splits)

text \<open>A frame whose declared length exceeds the cap is read off the stream whole (the reader
  has no cap of its own) and only then refused by the decoder.\<close>

theorem read_frame_uncapped:
  assumes "MAX_FRAME_BYTES < length body" and "prefix_fits body"
  shows "read_frame (put_frame body @ rest) = Some (put_frame body, rest)
    \<and> decode_frame bc (put_frame body) = Inl (FrameTooLarge (length body))"
proof
  show "read_frame (put_frame body @ rest) = Some (put_frame body, rest)"
    using assms(2) by (rule read_frame_put)
  have "be_len (put_frame body) = length body"
    using be_len_put [OF assms(2), of "[]"] by simp
  then show "decode_frame bc (put_frame body) = Inl (FrameTooLarge (length body))"
    using assms(1) by (simp add: decode_frame_def Let_def)
qed

text \<open>C16: a stream that carries encoded messages back to back, and then ends or breaks off inside
  a frame, is read as exactly the frames that were written, in order, with the incomplete tail left
  over.\<close>

theorem stream_of_frames:
  assumes "list_all2 (\<lambda>v f. encode_frame bc v = Inr f) vs fs" and "read_frame tail = None"
  shows "wire.drains (concat fs @ tail) gs r \<longleftrightarrow> gs = fs \<and> r = tail"
proof -
  have "\<exists>bs. fs = map put_frame bs \<and> (\<forall>b \<in> set bs. prefix_fits b)"
    using assms(1)
  proof (induction rule: list_all2_induct)
    case Nil
    then show ?case by simp
  next
    case (Cons v vs f fs)
    obtain b where b: "prefix_fits b" "f = put_frame b"
      using encode_frame_prefix_fits [OF Cons.hyps(1)] by blast
    obtain bs where bs: "fs = map put_frame bs" "\<forall>b \<in> set bs. prefix_fits b"
      using Cons.IH by blast
    show ?case
      by (rule exI [of _ "b # bs"]) (simp add: b bs)
  qed
  then have "wire.drains (concat fs @ tail) fs tail"
    using wire.drains_put assms(2) by metis
  then show ?thesis
    using wire.drains_unique by blast
qed

theorem stream_of_frames_witness:
  "\<forall>gs r. wire.drains [0, 0, 0, 1, 5, 0, 0, 0, 1, 6, 0, 0] gs r \<longleftrightarrow>
     gs = [[0, 0, 0, 1, 5], [0, 0, 0, 1, 6]] \<and> r = [0, 0]"
proof -
  let ?bc = "table_bincode [(True, [5]), (False, [6 :: byte])]"
  have "list_all2 (\<lambda>v f. encode_frame ?bc v = Inr f) [True, False]
      [[0, 0, 0, 1, 5], [0, 0, 0, 1, 6]]"
    by (simp add: encode_frame_def table_bincode_def MAX_FRAME_BYTES_def u32_to_be_bytes_def)
  from stream_of_frames [OF this, of "[0, 0]"]
  show ?thesis by (simp add: read_frame_def read_exact_def)
qed

theorem read_frame_uncapped_witness:
  "read_frame (put_frame (replicate (2 ^ 27) 0) @ [1]) = Some (put_frame (replicate (2 ^ 27) 0), [1])
   \<and> decode_frame (table_bincode [(True, [7])]) (put_frame (replicate (2 ^ 27) 0))
      = Inl (FrameTooLarge (2 ^ 27))"
proof -
  have "MAX_FRAME_BYTES < n \<and> n < 2 ^ 32 \<longrightarrow>
      read_frame (put_frame (replicate n 0) @ [1]) = Some (put_frame (replicate n 0), [1])
      \<and> decode_frame (table_bincode [(True, [7])]) (put_frame (replicate n 0))
          = Inl (FrameTooLarge n)" for n
    using read_frame_uncapped [of "replicate n 0" "[1]" "table_bincode [(True, [7])]"]
    by (simp add: prefix_fits_def)
  moreover have "MAX_FRAME_BYTES < 2 ^ 27" and "(2 ^ 27 :: nat) < 2 ^ 32"
    by (simp_all add: MAX_FRAME_BYTES_def)
  ultimately show ?thesis by blast
qed

end
