(* ===== verification/Minter.thy ===== *)
theory Minter
  imports Actions
begin

section \<open>Minting ids\<close>

text \<open>
  \<open>client/ids.rs\<close>: one \<open>AtomicU64\<close> per kind of resource, starting at 0; \<open>mint_fn!\<close> returns
  the counter's value after \<open>fetch_add(1) + 1\<close>. Atomic additions wrap. The request ids of
  \<open>client/client.rs\<close> come from such a counter too, started at 1.
\<close>

subsection \<open>AtomicU64::fetch_add\<close>

text \<open>The old value and the new state; the addition wraps around.\<close>

definition fetch_add :: "u64 \<Rightarrow> u64 \<Rightarrow> u64 \<times> u64" where
  "fetch_add n a = (a, a + n)"

subsection \<open>IdMinter\<close>

record id_minter =
  next_buffer :: u64
  next_texture :: u64
  next_texture_view :: u64
  next_sampler :: u64
  next_shader_module :: u64
  next_bind_group_layout :: u64
  next_bind_group :: u64
  next_pipeline_layout :: u64
  next_render_pipeline :: u64
  next_compute_pipeline :: u64

definition new_minter :: id_minter where
  "new_minter =
     \<lparr>next_buffer = 0, next_texture = 0, next_texture_view = 0, next_sampler = 0,
      next_shader_module = 0, next_bind_group_layout = 0, next_bind_group = 0,
      next_pipeline_layout = 0, next_render_pipeline = 0, next_compute_pipeline = 0\<rparr>"

text \<open>\<open>mint_fn!(field, Ty, method)\<close>: the field is given by its selector and its update.\<close>

definition mint_fn ::
  "(id_minter \<Rightarrow> u64) \<Rightarrow> ((u64 \<Rightarrow> u64) \<Rightarrow> id_minter \<Rightarrow> id_minter) \<Rightarrow> id_minter \<Rightarrow> 'k id \<times> id_minter" where
  "mint_fn get upd m =
     (case fetch_add 1 (get m) of (old, new) \<Rightarrow> (new_id (old + 1), upd (\<lambda>_. new) m))"

definition mint_buffer :: "id_minter \<Rightarrow> buffer_id \<times> id_minter" where
  "mint_buffer = mint_fn next_buffer next_buffer_update"

definition mint_texture :: "id_minter \<Rightarrow> texture_id \<times> id_minter" where
  "mint_texture = mint_fn next_texture next_texture_update"

definition mint_texture_view :: "id_minter \<Rightarrow> texture_view_id \<times> id_minter" where
  "mint_texture_view = mint_fn next_texture_view next_texture_view_update"

definition mint_sampler :: "id_minter \<Rightarrow> sampler_id \<times> id_minter" where
  "mint_sampler = mint_fn next_sampler next_sampler_update"

definition mint_shader_module :: "id_minter \<Rightarrow> shader_module_id \<times> id_minter" where
  "mint_shader_module = mint_fn next_shader_module next_shader_module_update"

definition mint_bind_group_layout :: "id_minter \<Rightarrow> bind_group_layout_id \<times> id_minter" where
  "mint_bind_group_layout = mint_fn next_bind_group_layout next_bind_group_layout_update"

definition mint_bind_group :: "id_minter \<Rightarrow> bind_group_id \<times> id_minter" where
  "mint_bind_group = mint_fn next_bind_group next_bind_group_update"

definition mint_pipeline_layout :: "id_minter \<Rightarrow> pipeline_layout_id \<times> id_minter" where
  "mint_pipeline_layout = mint_fn next_pipeline_layout next_pipeline_layout_update"

definition mint_render_pipeline :: "id_minter \<Rightarrow> render_pipeline_id \<times> id_minter" where
  "mint_render_pipeline = mint_fn next_render_pipeline next_render_pipeline_update"

definition mint_compute_pipeline :: "id_minter \<Rightarrow> compute_pipeline_id \<times> id_minter" where
  "mint_compute_pipeline = mint_fn next_compute_pipeline next_compute_pipeline_update"

lemmas mint_defs =
  mint_buffer_def mint_texture_def mint_texture_view_def mint_sampler_def mint_shader_module_def
  mint_bind_group_layout_def mint_bind_group_def mint_pipeline_layout_def mint_render_pipeline_def
  mint_compute_pipeline_def mint_fn_def fetch_add_def

subsection \<open>The interface of a minter\<close>

text \<open>
  What the facade relies on of a minter: with \<open>below\<close> the set of resources minted so far, a mint
  gives a resource outside it and adds it. The measure \<open>used\<close> counts mints; there is one more
  id as long as fewer than \<open>2\<^sup>6\<^sup>4 - 1\<close> were minted.
\<close>

datatype kind =
    KBuffer | KTexture | KTextureView | KSampler | KShaderModule | KBindGroupLayout | KBindGroup
  | KPipelineLayout | KRenderPipeline | KComputePipeline

locale resource_minter =
  fixes mint :: "kind \<Rightarrow> 'm \<Rightarrow> resource_id \<times> 'm"
    and minted :: "'m \<Rightarrow> resource_id \<Rightarrow> bool"
    and used :: "'m \<Rightarrow> nat"
    and capacity :: nat
  assumes mint_fresh: "mint k m = (r, m') \<Longrightarrow> used m < capacity \<Longrightarrow> \<not> minted m r"
    and mint_minted: "mint k m = (r, m') \<Longrightarrow> used m < capacity \<Longrightarrow> minted m' x \<longleftrightarrow> x = r \<or> minted m x"
    and mint_used: "mint k m = (r, m') \<Longrightarrow> used m < capacity \<Longrightarrow> used m' \<le> Suc (used m)"
begin

fun mint_all :: "kind list \<Rightarrow> 'm \<Rightarrow> resource_id list \<times> 'm" where
  "mint_all [] m = ([], m)"
| "mint_all (k # ks) m = (case mint k m of (r, m') \<Rightarrow> case mint_all ks m' of (rs, m'') \<Rightarrow> (r # rs, m''))"

lemma mint_all_distinct:
  "mint_all ks m = (rs, m') \<Longrightarrow> used m + length ks \<le> capacity \<Longrightarrow>
     distinct rs \<and> (\<forall>r \<in> set rs. \<not> minted m r) \<and> (\<forall>x. minted m' x \<longleftrightarrow> x \<in> set rs \<or> minted m x)"
proof (induction ks arbitrary: m rs m')
  case Nil
  then show ?case by simp
next
  case (Cons k ks)
  obtain r m1 where r: "mint k m = (r, m1)" by (rule prod.exhaust)
  obtain rs1 m2 where rs1: "mint_all ks m1 = (rs1, m2)" by (rule prod.exhaust)
  have lt: "used m < capacity" using Cons.prems(2) by simp
  then have "used m1 + length ks \<le> capacity"
    using mint_used [OF r lt] Cons.prems(2) by simp
  then have "distinct rs1 \<and> (\<forall>r \<in> set rs1. \<not> minted m1 r) \<and> (\<forall>x. minted m2 x \<longleftrightarrow> x \<in> set rs1 \<or> minted m1 x)"
    using Cons.IH [OF rs1] by blast
  then show ?case
    using Cons.prems(1) r rs1 mint_fresh [OF r lt] mint_minted [OF r lt] by auto
qed

end

subsection \<open>IdMinter provides it\<close>

fun mint_kind :: "kind \<Rightarrow> id_minter \<Rightarrow> resource_id \<times> id_minter" where
  "mint_kind KBuffer m = map_prod RBuffer (\<lambda>m. m) (mint_buffer m)"
| "mint_kind KTexture m = map_prod RTexture (\<lambda>m. m) (mint_texture m)"
| "mint_kind KTextureView m = map_prod RTextureView (\<lambda>m. m) (mint_texture_view m)"
| "mint_kind KSampler m = map_prod RSampler (\<lambda>m. m) (mint_sampler m)"
| "mint_kind KShaderModule m = map_prod RShaderModule (\<lambda>m. m) (mint_shader_module m)"
| "mint_kind KBindGroupLayout m = map_prod RBindGroupLayout (\<lambda>m. m) (mint_bind_group_layout m)"
| "mint_kind KBindGroup m = map_prod RBindGroup (\<lambda>m. m) (mint_bind_group m)"
| "mint_kind KPipelineLayout m = map_prod RPipelineLayout (\<lambda>m. m) (mint_pipeline_layout m)"
| "mint_kind KRenderPipeline m = map_prod RRenderPipeline (\<lambda>m. m) (mint_render_pipeline m)"
| "mint_kind KComputePipeline m = map_prod RComputePipeline (\<lambda>m. m) (mint_compute_pipeline m)"

text \<open>The ids below the counters, 1 up to the value of the counter of the kind.\<close>

definition up_to :: "u64 \<Rightarrow> 'k id \<Rightarrow> bool" where
  "up_to n i \<longleftrightarrow> 0 < raw i \<and> raw i \<le> n"

fun minted_by :: "id_minter \<Rightarrow> resource_id \<Rightarrow> bool" where
  "minted_by m (RBuffer i) = up_to (next_buffer m) i"
| "minted_by m (RTexture i) = up_to (next_texture m) i"
| "minted_by m (RTextureView i) = up_to (next_texture_view m) i"
| "minted_by m (RSampler i) = up_to (next_sampler m) i"
| "minted_by m (RShaderModule i) = up_to (next_shader_module m) i"
| "minted_by m (RBindGroupLayout i) = up_to (next_bind_group_layout m) i"
| "minted_by m (RBindGroup i) = up_to (next_bind_group m) i"
| "minted_by m (RPipelineLayout i) = up_to (next_pipeline_layout m) i"
| "minted_by m (RRenderPipeline i) = up_to (next_render_pipeline m) i"
| "minted_by m (RComputePipeline i) = up_to (next_compute_pipeline m) i"
| "minted_by m _ = False"

definition mints_used :: "id_minter \<Rightarrow> nat" where
  "mints_used m =
     unat (next_buffer m) + unat (next_texture m) + unat (next_texture_view m) + unat (next_sampler m)
     + unat (next_shader_module m) + unat (next_bind_group_layout m) + unat (next_bind_group m)
     + unat (next_pipeline_layout m) + unat (next_render_pipeline m) + unat (next_compute_pipeline m)"

lemma unat_Suc:
  assumes "unat (n :: u64) < 2 ^ 64 - 1"
  shows "unat (n + 1) = Suc (unat n)"
proof -
  have "unat (n + 1) = (unat n + 1) mod 2 ^ 64"
    by (simp add: unat_word_ariths)
  with assms show ?thesis by simp
qed

lemma up_to_new_id: "up_to n (new_id k) \<longleftrightarrow> 0 < unat k \<and> unat k \<le> unat n"
  by (simp add: up_to_def word_less_nat_alt word_le_nat_alt)

lemma up_to_Suc:
  assumes "unat (n :: u64) < 2 ^ 64 - 1"
  shows "up_to (n + 1) i \<longleftrightarrow> i = new_id (n + 1) \<or> up_to n i" and "\<not> up_to n (new_id (n + 1))"
proof -
  obtain k where i: "i = new_id k" by (metis new_id_raw)
  have "k = n + 1 \<longleftrightarrow> unat k = Suc (unat n)"
    using unat_Suc [OF assms] by (metis word_unat_eq_iff)
  then show "up_to (n + 1) i \<longleftrightarrow> i = new_id (n + 1) \<or> up_to n i"
    by (auto simp only: i up_to_new_id unat_Suc [OF assms] new_id_inject)
  show "\<not> up_to n (new_id (n + 1))"
    by (simp only: up_to_new_id unat_Suc [OF assms]) simp
qed

definition id_capacity :: nat where
  "id_capacity = 2 ^ 64 - 1"

lemma counters_below:
  assumes "mints_used m < id_capacity"
  shows "unat (next_buffer m) < 2 ^ 64 - 1" "unat (next_texture m) < 2 ^ 64 - 1"
    "unat (next_texture_view m) < 2 ^ 64 - 1" "unat (next_sampler m) < 2 ^ 64 - 1"
    "unat (next_shader_module m) < 2 ^ 64 - 1" "unat (next_bind_group_layout m) < 2 ^ 64 - 1"
    "unat (next_bind_group m) < 2 ^ 64 - 1" "unat (next_pipeline_layout m) < 2 ^ 64 - 1"
    "unat (next_render_pipeline m) < 2 ^ 64 - 1" "unat (next_compute_pipeline m) < 2 ^ 64 - 1"
  using assms by (simp_all only: mints_used_def id_capacity_def)

interpretation client_ids: resource_minter mint_kind minted_by mints_used id_capacity
proof
  fix k m r m'
  assume mint: "mint_kind k m = (r, m')" and lt: "mints_used m < id_capacity"
  note below = counters_below [OF lt]
  note up = up_to_Suc [OF below(1)] up_to_Suc [OF below(2)] up_to_Suc [OF below(3)] up_to_Suc [OF below(4)]
    up_to_Suc [OF below(5)] up_to_Suc [OF below(6)] up_to_Suc [OF below(7)] up_to_Suc [OF below(8)]
    up_to_Suc [OF below(9)] up_to_Suc [OF below(10)]
  show "\<not> minted_by m r"
    using mint by (cases k) (auto simp only: mint_kind.simps mint_defs prod.case map_prod_simp prod.inject minted_by.simps up)
  show "minted_by m' x \<longleftrightarrow> x = r \<or> minted_by m x" for x
    using mint by (cases k; cases x) (auto simp: mint_defs up)
  show "mints_used m' \<le> Suc (mints_used m)"
    using mint below by (cases k) (auto simp: mint_defs mints_used_def unat_Suc)
qed

text \<open>The ids a client mints, of whatever kinds in whatever order.\<close>

definition mint_sequence :: "kind list \<Rightarrow> id_minter \<Rightarrow> resource_id list \<times> id_minter" where
  "mint_sequence = client_ids.mint_all"

subsection \<open>Request ids\<close>

text \<open>\<open>Client::mint_request_id\<close>; the counter starts at 1.\<close>

definition mint_request_id :: "u64 \<Rightarrow> request_id \<times> u64" where
  "mint_request_id next = (case fetch_add 1 next of (old, new) \<Rightarrow> (RequestId old, new))"

fun mint_requests :: "nat \<Rightarrow> u64 \<Rightarrow> request_id list \<times> u64" where
  "mint_requests 0 next = ([], next)"
| "mint_requests (Suc n) next =
     (case mint_request_id next of (r, next') \<Rightarrow>
      case mint_requests n next' of (rs, next'') \<Rightarrow> (r # rs, next''))"

lemma mint_requests_eq:
  "mint_requests n k = (map (\<lambda>j. RequestId (k + of_nat j)) [0..<n], k + of_nat n)"
proof (induction n arbitrary: k)
  case 0
  then show ?case by simp
next
  case (Suc n)
  have "map (\<lambda>j. RequestId (k + of_nat j)) [0..<Suc n]
      = RequestId k # map (\<lambda>j. RequestId (k + 1 + of_nat j)) [0..<n]"
    by (simp add: upt_conv_Cons map_Suc_upt [symmetric] comp_def ac_simps del: upt_Suc)
  with Suc show ?case
    by (simp add: mint_request_id_def fetch_add_def ac_simps)
qed

subsection \<open>Properties\<close>

text \<open>C32: a client never hands out the same resource id twice. Over any sequence of fewer than
  \<open>2\<^sup>6\<^sup>4\<close> mints of any kinds, the resources of a fresh minter are pairwise distinct, and none has
  the number 0.\<close>

theorem minted_ids_distinct:
  assumes "length ks < 2 ^ 64" and "mint_sequence ks new_minter = (rs, m)"
  shows "distinct rs \<and> (\<forall>r \<in> set rs. minted_by m r)"
proof -
  have "mints_used new_minter + length ks \<le> id_capacity"
    using assms(1) by (simp add: mints_used_def new_minter_def id_capacity_def)
  from client_ids.mint_all_distinct [OF assms(2) [unfolded mint_sequence_def] this] show ?thesis
    by blast
qed

theorem minted_ids_distinct_witness:
  "distinct (fst (mint_sequence [KBuffer, KTexture, KBuffer, KBuffer] new_minter))"
proof -
  obtain rs m where run: "mint_sequence [KBuffer, KTexture, KBuffer, KBuffer] new_minter = (rs, m)"
    by (rule prod.exhaust)
  from minted_ids_distinct [OF _ run] run show ?thesis by simp
qed

text \<open>Request ids do not repeat within \<open>2\<^sup>6\<^sup>4\<close> requests, so at most one pending request waits for
  a response; they are consecutive, from the counter's value, and wrap around after \<open>2\<^sup>6\<^sup>4 - 1\<close>.\<close>

theorem request_ids_distinct:
  assumes "n \<le> 2 ^ 64"
  shows "distinct (fst (mint_requests n k)) \<and> fst (mint_requests n k) = map (\<lambda>j. RequestId (k + of_nat j)) [0..<n]"
proof -
  have "inj_on (\<lambda>j. RequestId (k + of_nat j)) (set [0..<n])"
  proof (rule inj_onI)
    fix i j
    assume "i \<in> set [0..<n]" "j \<in> set [0..<n]" "RequestId (k + of_nat i) = RequestId (k + of_nat j)"
    then have lt: "i < 2 ^ 64" "j < 2 ^ 64" and eq: "(of_nat i :: u64) = of_nat j"
      using assms by auto
    from lt have i: "unat (of_nat i :: u64) = i" and j: "unat (of_nat j :: u64) = j"
      by (simp_all add: unat_of_nat)
    show "i = j"
      using arg_cong [OF eq, of unat] by (simp only: i j)
  qed
  then show ?thesis
    by (simp add: mint_requests_eq distinct_map)
qed

theorem request_ids_distinct_witness:
  "fst (mint_requests (Suc (Suc (Suc 0))) (- 1)) = [RequestId (- 1), RequestId 0, RequestId 1]"
proof -
  have "Suc (Suc (Suc 0)) \<le> (2 ^ 64 :: nat)" by simp
  from request_ids_distinct [OF this, of "- 1"] show ?thesis by simp
qed

end
