(* ===== verification/Mux.thy ===== *)
theory Mux
  imports Codec Minter
begin

section \<open>The multiplexed client\<close>

text \<open>
  \<open>client/client.rs\<close>. A \<open>Client\<close> owns a connection, the counter of request ids and a cell for
  its multiplexer, which is opened on the first request: a bidirectional stream with a writer task,
  that drains an inbox of encoded frames onto the send stream, and a reader task, that decodes
  response frames and resolves the pending request they belong to.

  The tasks and callers run concurrently. The state below has every multiplexer that was ever opened
  on the connection, and an operation is one atomic step of one of the parties: a call of
  \<open>request\<close> or \<open>send\<close> up to its suspension, one iteration of a writer or reader task, the arrival
  of bytes, and the two steps of the task that \<open>send\<close> spawns when no multiplexer is open. That
  task gets a clone of the cell, which is empty, so it opens a multiplexer of its own; when it ends,
  the clone is dropped, and with it the multiplexer: both its tasks are aborted. Opening a stream and
  writing may fail, as the operation says.

  Two simplifications. The first \<open>request\<close> suspends while it opens the stream (\<open>self.mux().await\<close>); here it
  is one step, so a \<open>send\<close> that falls into that time is one before the request. A writer whose \<open>write_all\<close>
  or \<open>flush\<close> fails ends, and its frame is not on the wire; in the code a part of it, or after a failed
  \<open>flush\<close> all of it, may still get to the other side.

  A pending one-shot channel is the request's id in \<open>mx_pending\<close>; what its caller gets is in
  \<open>cl_outcomes\<close>.
\<close>

subsection \<open>State\<close>

record mux =
  mx_inbox :: "bytes list"
  mx_wire :: bytes
  mx_writing :: bool
  mx_recv :: bytes
  mx_reading :: bool
  mx_pending :: "request_id set"

definition open_mux :: mux where
  "open_mux =
     \<lparr>mx_inbox = [], mx_wire = [], mx_writing = True, mx_recv = [], mx_reading = True, mx_pending = {}\<rparr>"

datatype client_error =
    TransportFailed
  | IoFailed
  | EncodeFailed string
  | DecodeFailed string
  | CodecError codec_error
  | ServerError error_code string
  | ConnectionClosed

record client =
  cl_next_request_id :: u64
  cl_mux :: "nat option"
  cl_muxes :: "mux list"
  cl_cold :: "bytes list"
  cl_outcomes :: "request_id \<rightharpoonup> client_error + response"

definition new_client :: client where
  "new_client =
     \<lparr>cl_next_request_id = 1, cl_mux = None, cl_muxes = [], cl_cold = [], cl_outcomes = Map.empty\<rparr>"

record 'w client_codec =
  cc_frames :: "'w frame bincode"
  cc_responses :: "response_frame bincode"

definition upd_mux :: "nat \<Rightarrow> (mux \<Rightarrow> mux) \<Rightarrow> client \<Rightarrow> client" where
  "upd_mux j f c =
     (if j < length (cl_muxes c) then c\<lparr>cl_muxes := (cl_muxes c)[j := f (cl_muxes c ! j)]\<rparr> else c)"

subsection \<open>request and send\<close>

text \<open>The frame of an action, with a freshly minted id.\<close>

definition mint_frame :: "'w client_codec \<Rightarrow> 'w action \<Rightarrow> client \<Rightarrow> request_id \<times> (codec_error + bytes) \<times> client" where
  "mint_frame cc act c =
     (case mint_request_id (cl_next_request_id c) of (rid, next) \<Rightarrow>
        (rid, encode_frame (cc_frames cc) \<lparr>fr_request_id = Some rid, fr_action = act\<rparr>,
         c\<lparr>cl_next_request_id := next\<rparr>))"

text \<open>\<open>self.mux()\<close>: \<open>get_or_try_init\<close>; \<open>ok\<close> says whether \<open>open_bi\<close> succeeds.\<close>

definition get_mux :: "bool \<Rightarrow> client \<Rightarrow> nat option \<times> client" where
  "get_mux ok c =
     (case cl_mux c of
        Some j \<Rightarrow> (Some j, c)
      | None \<Rightarrow>
          if ok then (Some (length (cl_muxes c)),
            c\<lparr>cl_mux := Some (length (cl_muxes c)), cl_muxes := cl_muxes c @ [open_mux]\<rparr>)
          else (None, c))"

text \<open>\<open>inbox.send(..)\<close>: it fails when the writer task, which owns the receiver, is gone.\<close>

definition enqueue :: "nat \<Rightarrow> bytes \<Rightarrow> client \<Rightarrow> bool \<times> client" where
  "enqueue j b c =
     (if mx_writing (cl_muxes c ! j) then (True, upd_mux j (\<lambda>m. m\<lparr>mx_inbox := mx_inbox m @ [b]\<rparr>) c)
      else (False, c))"

text \<open>\<open>request\<close> up to \<open>resp_rx.await\<close>: an error it returns at once, or the id it waits for.\<close>

definition request :: "'w client_codec \<Rightarrow> 'w action \<Rightarrow> bool \<Rightarrow> client \<Rightarrow> (client_error + request_id) \<times> client" where
  "request cc act ok c =
     (case mint_frame cc act c of (rid, frame, c) \<Rightarrow>
        case frame of
          Inl e \<Rightarrow> (Inl (CodecError e), c)
        | Inr b \<Rightarrow>
            (case get_mux ok c of
               (None, c) \<Rightarrow> (Inl TransportFailed, c)
             | (Some j, c) \<Rightarrow>
                 let c = upd_mux j (\<lambda>m. m\<lparr>mx_pending := insert rid (mx_pending m)\<rparr>) c in
                 (case enqueue j b c of
                    (True, c) \<Rightarrow> (Inr rid, c)
                  | (False, c) \<Rightarrow>
                      (Inl ConnectionClosed, upd_mux j (\<lambda>m. m\<lparr>mx_pending := mx_pending m - {rid}\<rparr>) c))))"

definition send :: "'w client_codec \<Rightarrow> 'w action \<Rightarrow> client \<Rightarrow> client" where
  "send cc act c =
     (case mint_frame cc act c of (rid, frame, c) \<Rightarrow>
        case frame of
          Inl _ \<Rightarrow> c
        | Inr b \<Rightarrow>
            (case cl_mux c of
               Some j \<Rightarrow> snd (enqueue j b c)
             | None \<Rightarrow> c\<lparr>cl_cold := cl_cold c @ [b]\<rparr>))"

subsection \<open>The tasks\<close>

text \<open>The task spawned by a cold \<open>send\<close>: open a multiplexer and queue the frame \<dots>\<close>

definition cold_start :: "nat \<Rightarrow> bool \<Rightarrow> client \<Rightarrow> client" where
  "cold_start k ok c =
     (if k < length (cl_cold c) then
        let b = cl_cold c ! k; c = c\<lparr>cl_cold := take k (cl_cold c) @ drop (Suc k) (cl_cold c)\<rparr> in
        if ok then c\<lparr>cl_muxes := cl_muxes c @ [open_mux\<lparr>mx_inbox := [b]\<rparr>]\<rparr> else c
      else c)"

text \<open>\<dots> and \<open>Mux::drop\<close>, when the task ends: reader and writer are aborted.\<close>

definition drop_mux :: "nat \<Rightarrow> client \<Rightarrow> client" where
  "drop_mux j c =
     (if cl_mux c = Some j then c
      else upd_mux j (\<lambda>m. m\<lparr>mx_writing := False, mx_reading := False\<rparr>) c)"

definition writer_step :: "nat \<Rightarrow> bool \<Rightarrow> client \<Rightarrow> client" where
  "writer_step j ok c =
     upd_mux j (\<lambda>m.
       if mx_writing m then
         (case mx_inbox m of
            [] \<Rightarrow> m
          | b # bs \<Rightarrow>
              if ok then m\<lparr>mx_inbox := bs, mx_wire := mx_wire m @ b\<rparr>
              else m\<lparr>mx_inbox := [], mx_writing := False\<rparr>)
       else m) c"

text \<open>The reader's exit: clearing the map fails every request that is pending.\<close>

definition reader_exit :: "nat \<Rightarrow> client \<Rightarrow> client" where
  "reader_exit j c =
     (let dead = mx_pending (cl_muxes c ! j) in
      upd_mux j (\<lambda>m. m\<lparr>mx_reading := False, mx_pending := {}\<rparr>)
        (c\<lparr>cl_outcomes := (\<lambda>r. if r \<in> dead then Some (Inl ConnectionClosed) else cl_outcomes c r)\<rparr>))"

text \<open>
  One iteration. \<open>eof\<close> says that the receive stream has ended; otherwise the reader waits when no
  whole frame has arrived.
\<close>

definition reader_step :: "'w client_codec \<Rightarrow> nat \<Rightarrow> bool \<Rightarrow> client \<Rightarrow> client" where
  "reader_step cc j eof c =
     (if j < length (cl_muxes c) \<and> mx_reading (cl_muxes c ! j) then
        (case read_frame (mx_recv (cl_muxes c ! j)) of
           None \<Rightarrow> if eof then reader_exit j c else c
         | Some (msg, rest) \<Rightarrow>
             (case decode_frame (cc_responses cc) msg of
                Inl _ \<Rightarrow> reader_exit j c
              | Inr (frame, _) \<Rightarrow>
                  let waiting = rf_request_id frame \<in> mx_pending (cl_muxes c ! j);
                      c = upd_mux j (\<lambda>m. m\<lparr>mx_recv := rest, mx_pending := mx_pending m - {rf_request_id frame}\<rparr>) c
                  in if waiting
                     then c\<lparr>cl_outcomes := (cl_outcomes c)(rf_request_id frame \<mapsto> Inr (rf_response frame))\<rparr>
                     else c))
      else c)"

subsection \<open>Runs\<close>

datatype 'w client_op =
    OpRequest "'w action" bool
  | OpSend "'w action"
  | OpColdStart nat bool
  | OpDrop nat
  | OpWrite nat bool
  | OpRead nat bool
  | OpArrive nat bytes

fun apply_op :: "'w client_codec \<Rightarrow> 'w client_op \<Rightarrow> client \<Rightarrow> client" where
  "apply_op cc (OpRequest act ok) c = snd (request cc act ok c)"
| "apply_op cc (OpSend act) c = send cc act c"
| "apply_op cc (OpColdStart k ok) c = cold_start k ok c"
| "apply_op cc (OpDrop j) c = drop_mux j c"
| "apply_op cc (OpWrite j ok) c = writer_step j ok c"
| "apply_op cc (OpRead j eof) c = reader_step cc j eof c"
| "apply_op cc (OpArrive j b) c = upd_mux j (\<lambda>m. m\<lparr>mx_recv := mx_recv m @ b\<rparr>) c"

definition client_run :: "'w client_codec \<Rightarrow> 'w client_op list \<Rightarrow> client \<Rightarrow> client" where
  "client_run cc ops c = fold (apply_op cc) ops c"

lemma client_run_simps [simp]:
  "client_run cc [] c = c"
  "client_run cc (op # ops) c = client_run cc ops (apply_op cc op c)"
  "client_run cc (ops @ ops') c = client_run cc ops' (client_run cc ops c)"
  by (simp_all add: client_run_def)

subsection \<open>The wire of the main multiplexer\<close>

text \<open>The frames the calls of a run encode, in the order of the calls.\<close>

definition call_frame :: "'w client_codec \<Rightarrow> 'w action \<Rightarrow> client \<Rightarrow> bytes list" where
  "call_frame cc act c = (case fst (snd (mint_frame cc act c)) of Inl _ \<Rightarrow> [] | Inr b \<Rightarrow> [b])"

fun issued_by :: "'w client_codec \<Rightarrow> 'w client_op \<Rightarrow> client \<Rightarrow> bytes list" where
  "issued_by cc (OpRequest act _) c = call_frame cc act c"
| "issued_by cc (OpSend act) c = call_frame cc act c"
| "issued_by cc _ c = []"

fun issued :: "'w client_codec \<Rightarrow> 'w client_op list \<Rightarrow> client \<Rightarrow> bytes list" where
  "issued cc [] c = []"
| "issued cc (op # ops) c = issued_by cc op c @ issued cc ops (apply_op cc op c)"

definition on_main :: "nat \<Rightarrow> client \<Rightarrow> bool" where
  "on_main j c \<longleftrightarrow> cl_mux c = Some j \<and> j < length (cl_muxes c)"

definition outgoing :: "nat \<Rightarrow> client \<Rightarrow> bytes" where
  "outgoing j c = mx_wire (cl_muxes c ! j) @ concat (mx_inbox (cl_muxes c ! j))"

lemma upd_mux_simps [simp]:
  "cl_mux (upd_mux j f c) = cl_mux c" "length (cl_muxes (upd_mux j f c)) = length (cl_muxes c)"
  "cl_next_request_id (upd_mux j f c) = cl_next_request_id c" "cl_outcomes (upd_mux j f c) = cl_outcomes c"
  "cl_cold (upd_mux j f c) = cl_cold c"
  by (simp_all add: upd_mux_def)

lemma upd_mux_nth:
  "i < length (cl_muxes c) \<Longrightarrow> cl_muxes (upd_mux j f c) ! i = (if i = j then f (cl_muxes c ! i) else cl_muxes c ! i)"
  by (simp add: upd_mux_def)

text \<open>One step keeps the multiplexer open and appends what it issues, unless the writer is gone.\<close>

lemma main_step:
  assumes "on_main j c"
  shows "on_main j (apply_op cc op c) \<and>
    (mx_writing (cl_muxes (apply_op cc op c) ! j) \<longrightarrow>
       mx_writing (cl_muxes c ! j) \<and> outgoing j (apply_op cc op c) = outgoing j c @ concat (issued_by cc op c))"
proof (cases op)
  case (OpRequest act ok)
  obtain rid fr c1 where m: "mint_frame cc act c = (rid, fr, c1)" by (metis prod.exhaust)
  then have "cl_mux c1 = cl_mux c" "cl_muxes c1 = cl_muxes c"
    by (auto simp: mint_frame_def split: prod.splits)
  with m OpRequest assms show ?thesis
    by (cases fr) (auto simp: request_def get_mux_def enqueue_def on_main_def outgoing_def call_frame_def Let_def upd_mux_nth)
next
  case (OpSend act)
  obtain rid fr c1 where m: "mint_frame cc act c = (rid, fr, c1)" by (metis prod.exhaust)
  then have "cl_mux c1 = cl_mux c" "cl_muxes c1 = cl_muxes c"
    by (auto simp: mint_frame_def split: prod.splits)
  with m OpSend assms show ?thesis
    by (cases fr) (auto simp: send_def enqueue_def on_main_def outgoing_def call_frame_def upd_mux_nth)
next
  case (OpColdStart k ok)
  with assms show ?thesis
    by (auto simp: cold_start_def on_main_def outgoing_def Let_def nth_append)
next
  case (OpDrop i)
  with assms show ?thesis
    by (auto simp: drop_mux_def on_main_def outgoing_def upd_mux_nth)
next
  case (OpWrite i ok)
  with assms show ?thesis
    by (auto simp: writer_step_def on_main_def outgoing_def upd_mux_nth split: list.splits)
next
  case (OpRead i eof)
  with assms show ?thesis
    by (auto simp: reader_step_def reader_exit_def on_main_def outgoing_def upd_mux_nth Let_def
        split: option.splits prod.splits sum.splits if_splits)
next
  case (OpArrive i b)
  with assms show ?thesis
    by (auto simp: on_main_def outgoing_def upd_mux_nth)
qed

lemma main_run:
  assumes "on_main j c"
  shows "on_main j (client_run cc ops c) \<and>
    (mx_writing (cl_muxes (client_run cc ops c) ! j) \<longrightarrow>
       mx_writing (cl_muxes c ! j) \<and> outgoing j (client_run cc ops c) = outgoing j c @ concat (issued cc ops c))"
  using assms
proof (induction ops arbitrary: c)
  case (Cons op ops)
  have step: "on_main j (apply_op cc op c)" using main_step [OF Cons.prems] by blast
  show ?case
    using main_step [OF Cons.prems, of cc op] Cons.IH [OF step] by auto
qed simp

subsection \<open>Pending requests\<close>

definition pend :: "client \<Rightarrow> request_id set" where
  "pend c = (case cl_mux c of None \<Rightarrow> {} | Some j \<Rightarrow> mx_pending (cl_muxes c ! j))"

text \<open>
  The invariant: only the multiplexer of the cell has pending requests, every id in use was minted
  before, and no pending request is resolved.
\<close>

definition cl_ok :: "client \<Rightarrow> bool" where
  "cl_ok c \<longleftrightarrow>
     (\<forall>j. cl_mux c = Some j \<longrightarrow> j < length (cl_muxes c))
   \<and> (\<forall>i < length (cl_muxes c). cl_mux c \<noteq> Some i \<longrightarrow> mx_pending (cl_muxes c ! i) = {})
   \<and> (\<forall>r \<in> pend c. req_raw r < cl_next_request_id c \<and> cl_outcomes c r = None)
   \<and> (\<forall>r \<in> dom (cl_outcomes c). req_raw r < cl_next_request_id c)"

lemma cl_ok_new: "cl_ok new_client"
  by (simp add: cl_ok_def new_client_def pend_def)

lemma next_id_less:
  assumes "unat (n :: u64) < 2 ^ 64 - 1"
  shows "n < n + 1" "m < n \<Longrightarrow> m < n + 1" "m < n \<Longrightarrow> m \<noteq> n"
  using unat_Suc [OF assms] by (auto simp: word_less_nat_alt)

text \<open>What a step does to the pending requests and to the outcomes.\<close>

definition op_mints :: "'w client_op \<Rightarrow> bool" where
  "op_mints op = (case op of OpRequest _ _ \<Rightarrow> True | OpSend _ \<Rightarrow> True | _ \<Rightarrow> False)"

lemma next_after_op:
  "cl_next_request_id (apply_op cc op c) = cl_next_request_id c + (if op_mints op then 1 else 0)"
proof (cases op)
  case (OpRequest act ok)
  then show ?thesis
    by (auto simp: request_def mint_frame_def mint_request_id_def fetch_add_def get_mux_def enqueue_def Let_def
        op_mints_def split: sum.splits option.splits)
next
  case (OpSend act)
  then show ?thesis
    by (auto simp: send_def mint_frame_def mint_request_id_def fetch_add_def enqueue_def op_mints_def
        split: sum.splits option.splits)
qed (auto simp: op_mints_def cold_start_def drop_mux_def writer_step_def reader_step_def reader_exit_def Let_def
    split: option.splits prod.splits sum.splits)

lemma pend_upd:
  "cl_ok c \<Longrightarrow> cl_mux c = Some i \<Longrightarrow> pend (upd_mux j f c) = (if i = j then mx_pending (f (cl_muxes c ! i)) else pend c)"
  by (auto simp: pend_def upd_mux_def cl_ok_def)

lemma cl_ok_upd:
  assumes "cl_ok c" and "\<And>m. mx_pending (f m) \<subseteq> mx_pending m"
  shows "cl_ok (upd_mux j f c)"
proof -
  have "pend (upd_mux j f c) \<subseteq> pend c"
    using assms by (auto simp: pend_def upd_mux_def cl_ok_def nth_list_update split: option.splits)
  moreover have "mx_pending (cl_muxes (upd_mux j f c) ! i) \<subseteq> mx_pending (cl_muxes c ! i)"
    if "i < length (cl_muxes c)" for i
    using that assms(2) by (auto simp: upd_mux_nth)
  ultimately show ?thesis
    using assms(1) unfolding cl_ok_def by (simp, blast)
qed

lemma cl_ok_mint:
  assumes "cl_ok c" and "unat (cl_next_request_id c) < 2 ^ 64 - 1"
  shows "cl_ok (c\<lparr>cl_next_request_id := cl_next_request_id c + 1\<rparr>)"
  using assms(1) next_id_less [OF assms(2)] by (cases "cl_mux c") (auto simp: cl_ok_def pend_def)

lemma cl_ok_get_mux:
  assumes "cl_ok c" and "get_mux ok c = (r, c')"
  shows "cl_ok c' \<and> cl_outcomes c' = cl_outcomes c \<and> cl_next_request_id c' = cl_next_request_id c
    \<and> pend c' = pend c \<and> (\<forall>j. r = Some j \<longrightarrow> cl_mux c' = Some j)"
  using assms
  by (auto simp: get_mux_def cl_ok_def pend_def open_mux_def nth_append less_Suc_eq split: option.splits if_splits)

lemma cl_ok_insert:
  assumes "cl_ok c" and "cl_mux c = Some j" and "req_raw rid < cl_next_request_id c" and "cl_outcomes c rid = None"
  shows "cl_ok (upd_mux j (\<lambda>m. m\<lparr>mx_pending := insert rid (mx_pending m)\<rparr>) c)"
  using assms by (auto simp: cl_ok_def pend_def upd_mux_nth)

lemma cl_ok_request:
  assumes "cl_ok c" and "unat (cl_next_request_id c) < 2 ^ 64 - 1"
  shows "cl_ok (snd (request cc act ok c)) \<and> cl_outcomes (snd (request cc act ok c)) = cl_outcomes c"
proof -
  let ?rid = "RequestId (cl_next_request_id c)"
  let ?c1 = "c\<lparr>cl_next_request_id := cl_next_request_id c + 1\<rparr>"
  note ok1 = cl_ok_mint [OF assms]
  have mint: "mint_frame cc act c = (?rid, encode_frame (cc_frames cc) \<lparr>fr_request_id = Some ?rid, fr_action = act\<rparr>, ?c1)"
    by (simp add: mint_frame_def mint_request_id_def fetch_add_def)
  have fresh: "cl_outcomes c ?rid = None"
    using assms(1) unfolding cl_ok_def by (metis domIff less_irrefl request_id.sel)
  obtain r c2 where g: "get_mux ok ?c1 = (r, c2)" by (rule prod.exhaust)
  note ok2 = cl_ok_get_mux [OF ok1 g]
  show ?thesis
  proof (cases "encode_frame (cc_frames cc) \<lparr>fr_request_id = Some ?rid, fr_action = act\<rparr>")
    case (Inl e)
    then show ?thesis using ok1 by (simp add: request_def mint)
  next
    case (Inr b)
    show ?thesis
    proof (cases r)
      case None
      then show ?thesis using ok2 Inr g by (simp add: request_def mint)
    next
      case (Some j)
      have ins: "cl_ok (upd_mux j (\<lambda>m. m\<lparr>mx_pending := insert ?rid (mx_pending m)\<rparr>) c2)"
        using ok2 Some fresh next_id_less(1) [OF assms(2)] by (intro cl_ok_insert) auto
      then show ?thesis
        using ok2 Some Inr g by (auto simp: request_def mint Let_def enqueue_def intro!: cl_ok_upd)
    qed
  qed
qed

lemma cl_ok_send:
  assumes "cl_ok c" and "unat (cl_next_request_id c) < 2 ^ 64 - 1"
  shows "cl_ok (send cc act c) \<and> cl_outcomes (send cc act c) = cl_outcomes c"
  using cl_ok_mint [OF assms]
  by (auto simp: send_def mint_frame_def mint_request_id_def fetch_add_def enqueue_def cl_ok_upd
      split: sum.splits option.splits) (simp_all add: cl_ok_def pend_def)

lemma cl_ok_reader_exit:
  assumes "cl_ok c" and "j < length (cl_muxes c)"
  shows "cl_ok (reader_exit j c) \<and> (\<forall>r x. cl_outcomes c r = Some x \<longrightarrow> cl_outcomes (reader_exit j c) r = Some x)"
proof -
  have sub: "mx_pending (cl_muxes c ! j) \<subseteq> pend c"
    using assms by (cases "cl_mux c = Some j") (auto simp: cl_ok_def pend_def)
  show ?thesis
    using assms sub
    by (auto simp: cl_ok_def reader_exit_def Let_def pend_def upd_mux_nth split: option.splits if_splits)
qed

lemma cl_ok_step:
  assumes "cl_ok c" and "unat (cl_next_request_id c) < 2 ^ 64 - 1"
  shows "cl_ok (apply_op cc op c) \<and> (\<forall>r x. cl_outcomes c r = Some x \<longrightarrow> cl_outcomes (apply_op cc op c) r = Some x)"
proof (cases op)
  case (OpRequest act ok)
  then show ?thesis using cl_ok_request [OF assms, of cc act ok] by simp
next
  case (OpSend act)
  then show ?thesis using cl_ok_send [OF assms, of cc act] by simp
next
  case (OpColdStart k ok)
  then show ?thesis
    using assms(1)
    by (auto simp: cold_start_def Let_def cl_ok_def pend_def open_mux_def nth_append less_Suc_eq split: option.splits)
next
  case (OpDrop j)
  then show ?thesis using assms(1) by (simp add: drop_mux_def cl_ok_upd)
next
  case (OpWrite j ok)
  then show ?thesis
    using assms(1) by (auto simp: writer_step_def intro!: cl_ok_upd split: list.splits if_splits)
next
  case (OpArrive j b)
  then show ?thesis using assms(1) by (simp add: cl_ok_upd)
next
  case (OpRead j eof)
  show ?thesis
  proof (cases "j < length (cl_muxes c) \<and> mx_reading (cl_muxes c ! j)")
    case True
    show ?thesis
    proof (cases "\<exists>msg rest f n. read_frame (mx_recv (cl_muxes c ! j)) = Some (msg, rest)
        \<and> decode_frame (cc_responses cc) msg = Inr (f, n)")
      case False
      with OpRead True show ?thesis
        using cl_ok_reader_exit [OF assms(1)] assms(1)
        by (auto simp: reader_step_def split: option.splits prod.splits sum.splits)
    next
      case deliver: True
      then obtain msg rest f n where read: "read_frame (mx_recv (cl_muxes c ! j)) = Some (msg, rest)"
        and f: "decode_frame (cc_responses cc) msg = Inr (f, n)" by blast
      let ?r = "rf_request_id f"
      let ?c1 = "upd_mux j (\<lambda>m. m\<lparr>mx_recv := rest, mx_pending := mx_pending m - {?r}\<rparr>) c"
      have ok1: "cl_ok ?c1" using assms(1) by (auto intro!: cl_ok_upd)
      show ?thesis
      proof (cases "?r \<in> mx_pending (cl_muxes c ! j)")
        case False
        then show ?thesis using OpRead True read f ok1 by (simp add: reader_step_def Let_def)
      next
        case waiting: True
        then have main: "cl_mux c = Some j"
          using assms(1) True by (auto simp: cl_ok_def)
        then have "?r \<in> pend c" using waiting by (simp add: pend_def)
        then have new: "cl_outcomes c ?r = None" and less: "req_raw ?r < cl_next_request_id c"
          using assms(1) by (auto simp: cl_ok_def)
        have "?r \<notin> pend ?c1" using main True by (simp add: pend_def upd_mux_nth)
        then have "cl_ok (?c1\<lparr>cl_outcomes := (cl_outcomes ?c1)(?r \<mapsto> Inr (rf_response f))\<rparr>)"
          using ok1 less main by (auto simp: cl_ok_def pend_def)
        then show ?thesis
          using OpRead True read f waiting new by (auto simp: reader_step_def Let_def)
      qed
    qed
  qed (use OpRead assms(1) in \<open>auto simp: reader_step_def\<close>)
qed

lemma unat_next_after_op:
  "unat (cl_next_request_id c) < 2 ^ 64 - 1 \<Longrightarrow>
     unat (cl_next_request_id (apply_op cc op c)) \<le> Suc (unat (cl_next_request_id c))"
  by (simp add: next_after_op unat_Suc)

lemma cl_ok_run:
  assumes "cl_ok c" and "unat (cl_next_request_id c) + length ops < 2 ^ 64"
  shows "cl_ok (client_run cc ops c) \<and> (\<forall>r x. cl_outcomes c r = Some x \<longrightarrow> cl_outcomes (client_run cc ops c) r = Some x)"
  using assms
proof (induction ops arbitrary: c)
  case (Cons op ops)
  have lt: "unat (cl_next_request_id c) < 2 ^ 64 - 1" using Cons.prems(2) by simp
  note step = cl_ok_step [OF Cons.prems(1) lt, of cc op]
  have "unat (cl_next_request_id (apply_op cc op c)) + length ops < 2 ^ 64"
    using unat_next_after_op [OF lt, of cc op] Cons.prems(2) by simp
  with Cons.IH [of "apply_op cc op c"] step show ?case by auto
qed simp

lemma next_after_run:
  "unat (cl_next_request_id c) + length ops < 2 ^ 64 \<Longrightarrow>
     unat (cl_next_request_id (client_run cc ops c)) \<le> unat (cl_next_request_id c) + length ops"
proof (induction ops arbitrary: c)
  case (Cons op ops)
  then have "unat (cl_next_request_id c) < 2 ^ 64 - 1" by simp
  from unat_next_after_op [OF this, of cc op] Cons.IH [of "apply_op cc op c"] Cons.prems
  show ?case by simp
qed simp

subsection \<open>After the reader has gone\<close>

text \<open>Whether \<open>rid\<close> waits on multiplexer \<open>j\<close>, whose reader has exited.\<close>

definition abandoned :: "nat \<Rightarrow> request_id \<Rightarrow> client \<Rightarrow> bool" where
  "abandoned j rid c \<longleftrightarrow> cl_mux c = Some j \<and> \<not> mx_reading (cl_muxes c ! j)
     \<and> rid \<in> mx_pending (cl_muxes c ! j)"

lemma abandoned_step:
  assumes "cl_ok c" and "abandoned j rid c" and "unat (cl_next_request_id c) < 2 ^ 64 - 1"
  shows "abandoned j rid (apply_op cc op c)"
proof -
  have j: "j < length (cl_muxes c)" and less: "req_raw rid < cl_next_request_id c"
    using assms(1,2) by (auto simp: cl_ok_def abandoned_def pend_def)
  then have neq: "rid \<noteq> RequestId (cl_next_request_id c)"
    by auto
  show ?thesis
  proof (cases op)
    case (OpRequest act ok)
    then show ?thesis
      using assms(2) j neq
      by (auto simp: abandoned_def request_def mint_frame_def mint_request_id_def fetch_add_def get_mux_def
          enqueue_def Let_def upd_mux_nth split: sum.splits)
  next
    case (OpRead i eof)
    then show ?thesis
      using assms(1,2) j
      by (auto simp: abandoned_def reader_step_def reader_exit_def Let_def upd_mux_nth cl_ok_def
          split: option.splits prod.splits sum.splits)
  qed (use assms(2) j in \<open>auto simp: abandoned_def send_def mint_frame_def enqueue_def cold_start_def
      drop_mux_def writer_step_def Let_def upd_mux_nth nth_append split: prod.splits sum.splits option.splits list.splits\<close>)
qed

lemma abandoned_run:
  assumes "cl_ok c" and "abandoned j rid c" and "unat (cl_next_request_id c) + length ops < 2 ^ 64"
  shows "abandoned j rid (client_run cc ops c)"
  using assms
proof (induction ops arbitrary: c)
  case (Cons op ops)
  have lt: "unat (cl_next_request_id c) < 2 ^ 64 - 1" using Cons.prems(3) by simp
  then show ?case
    using Cons.IH [of "apply_op cc op c"] cl_ok_step [OF Cons.prems(1) lt, of cc op] abandoned_step [OF Cons.prems(1,2) lt, of cc op]
      unat_next_after_op [OF lt, of cc op] Cons.prems(3) by simp
qed simp

subsection \<open>Before the multiplexer is open\<close>

lemma unopened_step:
  assumes "cl_mux c = None" and "\<forall>act ok. op \<noteq> OpRequest act ok"
  shows "cl_mux (apply_op cc op c) = None"
  using assms
  by (cases op)
    (auto simp: send_def mint_frame_def cold_start_def drop_mux_def writer_step_def reader_step_def
      reader_exit_def Let_def split: prod.splits sum.splits option.splits)

lemma opening_request:
  assumes "cl_mux c = None" and "cl_mux (apply_op cc (OpRequest act ok) c) = Some j"
  shows "on_main j (apply_op cc (OpRequest act ok) c)
    \<and> outgoing j (apply_op cc (OpRequest act ok) c) = concat (issued_by cc (OpRequest act ok) c)"
proof -
  obtain rid fr c1 where m: "mint_frame cc act c = (rid, fr, c1)" by (metis prod.exhaust)
  then have "cl_mux c1 = cl_mux c" "cl_muxes c1 = cl_muxes c"
    by (auto simp: mint_frame_def split: prod.splits)
  with m assms show ?thesis
    by (cases fr)
      (auto simp: request_def get_mux_def enqueue_def on_main_def outgoing_def call_frame_def Let_def upd_mux_nth
        open_mux_def split: if_splits)
qed

lemma opened_by_request:
  assumes "cl_mux c = None" and "cl_mux (client_run cc ops c) = Some j"
  shows "\<exists>ops1 act ok ops2. ops = ops1 @ OpRequest act ok # ops2 \<and> cl_mux (client_run cc ops1 c) = None
    \<and> cl_mux (client_run cc (ops1 @ [OpRequest act ok]) c) = Some j"
  using assms
proof (induction ops arbitrary: c)
  case (Cons op ops)
  show ?case
  proof (cases "cl_mux (apply_op cc op c)")
    case None
    from Cons.IH [OF this] Cons.prems(2) obtain ops1 act ok ops2 where
      "ops = ops1 @ OpRequest act ok # ops2" "cl_mux (client_run cc ops1 (apply_op cc op c)) = None"
      "cl_mux (client_run cc (ops1 @ [OpRequest act ok]) (apply_op cc op c)) = Some j"
      by auto
    then show ?thesis
      by (intro exI [of _ "op # ops1"] exI [of _ act] exI [of _ ok] exI [of _ ops2]) simp
  next
    case (Some i)
    then obtain act ok where op: "op = OpRequest act ok"
      using unopened_step [OF Cons.prems(1), of op cc] by fastforce
    have "i = j"
      using main_run [of i "apply_op cc op c" cc ops] opening_request [OF Cons.prems(1), of cc act ok i] Some Cons.prems(2)
      by (auto simp: op on_main_def)
    with Some op Cons.prems(1) show ?thesis
      by (intro exI [of _ "[]"] exI [of _ act] exI [of _ ok] exI [of _ ops]) simp
  qed
qed simp

subsection \<open>Properties\<close>

text \<open>Order on the wire. Once a client's multiplexer is open, whatever its tasks, the server and
  other callers do, the bytes on its send stream followed by the frames in its inbox are those that
  were there, followed by the frames of every \<open>request\<close> and \<open>send\<close> issued since, in the order they
  were issued, as long as the writer lives.\<close>

theorem calls_reach_the_wire_in_order:
  assumes "cl_mux c = Some j" and "j < length (cl_muxes c)"
    and "mx_writing (cl_muxes (client_run cc ops c) ! j)"
  shows "outgoing j (client_run cc ops c) = outgoing j c @ concat (issued cc ops c)"
  using main_run [of j c cc ops] assms by (simp add: on_main_def)

text \<open>A request is resolved at most once. Over any run of fewer than \<open>2\<^sup>6\<^sup>4 - 1\<close> steps from a
  fresh client, a request that has its response, or its \<open>ConnectionClosed\<close>, keeps it, and no request
  is both resolved and pending.\<close>

theorem resolved_at_most_once:
  assumes "length (ops @ ops') < 2 ^ 64 - 1" and "cl_outcomes (client_run cc ops new_client) r = Some x"
  shows "cl_outcomes (client_run cc (ops @ ops') new_client) r = Some x
    \<and> r \<notin> pend (client_run cc (ops @ ops') new_client)"
proof -
  have n: "unat (cl_next_request_id new_client) = 1" by (simp add: new_client_def)
  let ?c = "client_run cc ops new_client"
  have ok: "cl_ok ?c"
    using cl_ok_run [OF cl_ok_new, of ops cc] assms(1) n by simp
  have lt: "unat (cl_next_request_id ?c) + length ops' < 2 ^ 64"
    using next_after_run [of new_client ops cc] assms(1) n by simp
  have keep: "cl_outcomes (client_run cc ops' ?c) r = Some x" and ok': "cl_ok (client_run cc ops' ?c)"
    using cl_ok_run [OF ok lt] assms(2) by blast+
  then show ?thesis by (auto simp: cl_ok_def)
qed

text \<open>C25: a request issued after the reader has gone hangs. When the reader task of the multiplexer has
  exited and the writer has not, a request is accepted and queued, and whatever happens afterwards it
  stays pending: it gets neither a response nor \<open>ConnectionClosed\<close>.\<close>

theorem late_request_hangs:
  assumes "cl_ok c" and "cl_mux c = Some j" and "\<not> mx_reading (cl_muxes c ! j)" and "mx_writing (cl_muxes c ! j)"
    and "request cc act ok c = (Inr rid, c')" and "unat (cl_next_request_id c) + length ops < 2 ^ 64 - 1"
  shows "rid \<in> pend (client_run cc ops c') \<and> cl_outcomes (client_run cc ops c') rid = None"
proof -
  have lt: "unat (cl_next_request_id c) < 2 ^ 64 - 1" using assms(6) by simp
  have c': "c' = apply_op cc (OpRequest act ok) c" by (simp add: assms(5))
  have ok': "cl_ok c'" unfolding c' using cl_ok_step [OF assms(1) lt, of cc "OpRequest act ok"] by blast
  have "j < length (cl_muxes c)" using assms(1,2) by (simp add: cl_ok_def)
  then have "abandoned j rid c'"
    using assms(2-5)
    by (auto simp: abandoned_def request_def mint_frame_def get_mux_def enqueue_def Let_def upd_mux_nth
        split: prod.splits sum.splits if_splits)
  moreover have lt': "unat (cl_next_request_id c') + length ops < 2 ^ 64"
    using unat_next_after_op [OF lt, of cc "OpRequest act ok"] assms(6) by (simp add: c')
  ultimately have "abandoned j rid (client_run cc ops c')"
    using ok' by (intro abandoned_run)
  then have "rid \<in> pend (client_run cc ops c')"
    by (simp add: abandoned_def pend_def)
  moreover have "cl_ok (client_run cc ops c')"
    using cl_ok_run [OF ok' lt'] by blast
  ultimately show ?thesis
    by (auto simp: cl_ok_def)
qed

text \<open>C24: frames sent before the first request never reach the client's stream. When a client's
  multiplexer is open, some request opened it, and its outgoing bytes are the frames of the calls from
  that request on; the frames of every earlier \<open>send\<close> are not among them, so a request can overtake
  the sends that were issued before it.\<close>

theorem sends_before_first_request:
  assumes "cl_mux c = None" and "cl_mux (client_run cc ops c) = Some j"
    and "mx_writing (cl_muxes (client_run cc ops c) ! j)"
  shows "\<exists>ops1 act ok ops2. ops = ops1 @ OpRequest act ok # ops2
    \<and> cl_mux (client_run cc ops1 c) = None
    \<and> outgoing j (client_run cc ops c) = concat (issued cc (OpRequest act ok # ops2) (client_run cc ops1 c))"
proof -
  from opened_by_request [OF assms(1,2)] obtain ops1 act ok ops2 where
    ops: "ops = ops1 @ OpRequest act ok # ops2" and before: "cl_mux (client_run cc ops1 c) = None"
    and opened: "cl_mux (client_run cc (ops1 @ [OpRequest act ok]) c) = Some j" by blast
  let ?c1 = "client_run cc ops1 c"
  have first: "on_main j (apply_op cc (OpRequest act ok) ?c1)"
    "outgoing j (apply_op cc (OpRequest act ok) ?c1) = concat (issued_by cc (OpRequest act ok) ?c1)"
    using opening_request [OF before, of cc act ok j] opened by simp_all
  have "outgoing j (client_run cc ops c) = concat (issued cc (OpRequest act ok # ops2) ?c1)"
    using main_run [OF first(1), of cc ops2] first(2) assms(3) by (simp add: ops)
  with ops before show ?thesis by blast
qed

text \<open>The codec and the run of the witnesses: a create is sent, then the first request is made.\<close>

definition mux_codec :: "nat client_codec" where
  "mux_codec =
     \<lparr>cc_frames = table_bincode
        [(\<lparr>fr_request_id = Some (RequestId 1), fr_action = CreateSampler (Id 1) undefined\<rparr>, [1]),
         (\<lparr>fr_request_id = Some (RequestId 2), fr_action = RequestAdapter\<rparr>, [2]),
         (\<lparr>fr_request_id = Some (RequestId 1), fr_action = RequestAdapter\<rparr>, [3])],
      cc_responses = table_bincode [(\<lparr>rf_request_id = RequestId 1, rf_response = RespOk\<rparr>, [4])]\<rparr>"

lemmas mux_eval =
  request_def send_def mint_frame_def mint_request_id_def fetch_add_def get_mux_def enqueue_def upd_mux_def
  cold_start_def drop_mux_def writer_step_def reader_step_def reader_exit_def open_mux_def new_client_def
  mux_codec_def table_bincode_def encode_frame_def MAX_FRAME_BYTES_def u32_to_be_bytes_def Let_def

lemma mux_encodes:
  "encode_frame (cc_frames mux_codec) \<lparr>fr_request_id = Some (RequestId 1), fr_action = CreateSampler (Id 1) undefined\<rparr>
     = Inr [0, 0, 0, 1, 1]"
  "encode_frame (cc_frames mux_codec) \<lparr>fr_request_id = Some (RequestId 2), fr_action = RequestAdapter\<rparr>
     = Inr [0, 0, 0, 1, 2]"
  "encode_frame (cc_frames mux_codec) \<lparr>fr_request_id = Some (RequestId 1), fr_action = RequestAdapter\<rparr>
     = Inr [0, 0, 0, 1, 3]"
  by (simp_all add: mux_eval)

theorem sends_before_first_request_witness:
  "outgoing 0 (client_run mux_codec [OpSend (CreateSampler (Id 1) undefined), OpRequest RequestAdapter True,
      OpColdStart 0 True, OpDrop 1, OpWrite 0 True] new_client) = [0, 0, 0, 1, 2]"
proof -
  let ?ops = "[OpSend (CreateSampler (Id 1) undefined), OpRequest RequestAdapter True,
      OpColdStart 0 True, OpDrop 1, OpWrite 0 True]"
  let ?c = "client_run mux_codec ?ops new_client"
  have 0: "cl_mux new_client = None" by (simp add: new_client_def)
  have 1: "cl_mux ?c = Some 0" and 2: "mx_writing (cl_muxes ?c ! 0)"
    by (simp_all add: mux_eval)
  from sends_before_first_request [OF 0 1 2]
  obtain ops1 act ok ops2 where ops: "?ops = ops1 @ OpRequest act ok # ops2"
    and out: "outgoing 0 ?c = concat (issued mux_codec (OpRequest act ok # ops2) (client_run mux_codec ops1 new_client))"
    by blast
  have "ops1 = [OpSend (CreateSampler (Id 1) undefined)]" and "act = RequestAdapter"
    and "ops2 = [OpColdStart 0 True, OpDrop 1, OpWrite 0 True]"
    using ops by (auto simp: Cons_eq_append_conv)
  then have "outgoing 0 ?c = concat (issued mux_codec
      (OpRequest RequestAdapter ok # [OpColdStart 0 True, OpDrop 1, OpWrite 0 True])
      (client_run mux_codec [OpSend (CreateSampler (Id 1) undefined)] new_client))"
    using out by metis
  also have "\<dots> = [0, 0, 0, 1, 2]"
    by (simp add: call_frame_def mux_eval)
  finally show ?thesis .
qed

theorem calls_reach_the_wire_in_order_witness:
  "outgoing 0 (client_run mux_codec [OpRequest RequestAdapter True, OpWrite 0 True, OpRequest RequestAdapter True]
     new_client) = [0, 0, 0, 1, 3, 0, 0, 0, 1, 2]"
proof -
  let ?c = "client_run mux_codec [OpRequest RequestAdapter True] new_client"
  let ?ops = "[OpWrite 0 True, OpRequest RequestAdapter True]"
  have 1: "cl_mux ?c = Some 0" and 2: "0 < length (cl_muxes ?c)"
    and 3: "mx_writing (cl_muxes (client_run mux_codec ?ops ?c) ! 0)"
    by (simp_all add: mux_eval)
  from calls_reach_the_wire_in_order [OF 1 2 3]
  have "outgoing 0 (client_run mux_codec ?ops ?c) = [0, 0, 0, 1, 3, 0, 0, 0, 1, 2]"
    by (simp add: outgoing_def call_frame_def mux_eval)
  then show ?thesis by simp
qed

theorem resolved_at_most_once_witness:
  "cl_outcomes (client_run mux_codec ([OpRequest RequestAdapter True, OpArrive 0 [0, 0, 0, 1, 4], OpRead 0 False] @
     [OpArrive 0 [0, 0, 0, 1, 4], OpRead 0 True, OpRead 0 True]) new_client) (RequestId 1) = Some (Inr RespOk)"
proof -
  let ?ops = "[OpRequest RequestAdapter True, OpArrive 0 [0, 0, 0, 1, 4], OpRead 0 False]"
  let ?ops' = "[OpArrive 0 [0, 0, 0, 1, 4], OpRead 0 True, OpRead 0 True] :: nat client_op list"
  have 1: "length (?ops @ ?ops') < 2 ^ 64 - 1" by simp
  have 2: "cl_outcomes (client_run mux_codec ?ops new_client) (RequestId 1) = Some (Inr RespOk)"
    by (simp add: mux_eval read_frame_def read_exact_def be_len_def u32_from_be_bytes_def decode_frame_def)
  from resolved_at_most_once [OF 1 2] show ?thesis by blast
qed

theorem late_request_hangs_witness:
  "RequestId 2 \<in> pend (client_run mux_codec [OpRequest RequestAdapter True, OpRead 0 True,
     OpRequest RequestAdapter True, OpWrite 0 True, OpRead 0 True] new_client)"
proof -
  let ?c = "client_run mux_codec [OpRequest RequestAdapter True, OpRead 0 True] new_client"
  let ?r = "request mux_codec RequestAdapter True ?c"
  have 1: "cl_ok ?c"
    using cl_ok_run [OF cl_ok_new, of "[OpRequest RequestAdapter True, OpRead 0 True]" mux_codec]
    by (simp add: new_client_def)
  have 2: "cl_mux ?c = Some 0" and 3: "\<not> mx_reading (cl_muxes ?c ! 0)" and 4: "mx_writing (cl_muxes ?c ! 0)"
    and 5: "?r = (Inr (RequestId 2), snd ?r)" and 6: "unat (cl_next_request_id ?c) + length [OpWrite 0 True, OpRead 0 True :: nat client_op] < 2 ^ 64 - 1"
    by (simp_all add: mux_eval read_frame_def read_exact_def be_len_def)
  from late_request_hangs [OF 1 2 3 4 5 6]
  have "RequestId 2 \<in> pend (client_run mux_codec [OpWrite 0 True, OpRead 0 True] (snd ?r))" by blast
  then show ?thesis by simp
qed

end
