(* ===== verification/Tables.thy ===== *)
theory Tables
  imports Actions
begin

section \<open>Resource tables\<close>

text \<open>
  \<open>server/tables.rs\<close>: one \<open>HashMap\<close> from ids to wgpu handles per kind of resource. A
  \<open>HashMap\<close> is a map; \<open>insert\<close> and \<open>remove\<close> update it. A wgpu handle (a buffer, a
  texture, a pipeline, \<dots>) is a value of the type parameter \<open>'h\<close>.
\<close>

record 'h resource_tables =
  buffers :: "buffer_id \<rightharpoonup> 'h"
  textures :: "texture_id \<rightharpoonup> 'h"
  texture_views :: "texture_view_id \<rightharpoonup> 'h"
  samplers :: "sampler_id \<rightharpoonup> 'h"
  shader_modules :: "shader_module_id \<rightharpoonup> 'h"
  bind_group_layouts :: "bind_group_layout_id \<rightharpoonup> 'h"
  bind_groups :: "bind_group_id \<rightharpoonup> 'h"
  pipeline_layouts :: "pipeline_layout_id \<rightharpoonup> 'h"
  render_pipelines :: "render_pipeline_id \<rightharpoonup> 'h"
  compute_pipelines :: "compute_pipeline_id \<rightharpoonup> 'h"

text \<open>\<open>ResourceTables::default()\<close>.\<close>

definition empty_tables :: "'h resource_tables" where
  "empty_tables =
     \<lparr>buffers = Map.empty, textures = Map.empty, texture_views = Map.empty,
      samplers = Map.empty, shader_modules = Map.empty, bind_group_layouts = Map.empty,
      bind_groups = Map.empty, pipeline_layouts = Map.empty, render_pipelines = Map.empty,
      compute_pipelines = Map.empty\<rparr>"

text \<open>
  \<open>tables.<field>.insert(id, h)\<close> and \<open>tables.<field>.remove(&id)\<close>: the field is given by
  its update function.
\<close>

type_synonym ('h, 'k) field_update =
  "(('k id \<rightharpoonup> 'h) \<Rightarrow> ('k id \<rightharpoonup> 'h)) \<Rightarrow> 'h resource_tables \<Rightarrow> 'h resource_tables"

definition insert_in :: "('h, 'k) field_update \<Rightarrow> 'k id \<Rightarrow> 'h \<Rightarrow> 'h resource_tables \<Rightarrow> 'h resource_tables" where
  "insert_in upd i h t = upd (\<lambda>m. m(i \<mapsto> h)) t"

definition remove_in :: "('h, 'k) field_update \<Rightarrow> 'k id \<Rightarrow> 'h resource_tables \<Rightarrow> 'h resource_tables" where
  "remove_in upd i t = upd (\<lambda>m. m(i := None)) t"

text \<open>
  \<open>tables.<field>.get(&id).ok_or_else(|| Response::Error { code: UnknownResource, .. })\<close>.
\<close>

definition lookup_in :: "string \<Rightarrow> ('k id \<rightharpoonup> 'h) \<Rightarrow> 'k id \<Rightarrow> response + 'h" where
  "lookup_in kind m i = ok_or (unknown_resource kind (raw i)) (m i)"

lemma lookup_in_Some [simp]: "m i = Some h \<Longrightarrow> lookup_in kind m i = Inr h"
  by (simp add: lookup_in_def)

lemma lookup_in_None [simp]: "m i = None \<Longrightarrow> lookup_in kind m i = Inl (unknown_resource kind (raw i))"
  by (simp add: lookup_in_def)

lemma lookup_in_eq_Inr [simp]: "lookup_in kind m i = Inr h \<longleftrightarrow> m i = Some h"
  by (simp add: lookup_in_def)

lemma lookup_in_eq_Inl:
  "lookup_in kind m i = Inl e \<longleftrightarrow> m i = None \<and> e = unknown_resource kind (raw i)"
  by (cases "m i") auto

subsection \<open>The interface of one table\<close>

text \<open>
  What the server relies on of a table inside the record of tables: the field read back after an
  update is the updated field. The laws of \<open>insert\<close>, \<open>remove\<close> and lookup follow once for
  every table.
\<close>

locale id_table =
  fixes get :: "'h resource_tables \<Rightarrow> ('k id \<rightharpoonup> 'h)"
    and upd :: "('h, 'k) field_update"
    and wrap :: "'k id \<Rightarrow> resource_id"
    and holds :: "'h resource_tables \<Rightarrow> resource_id \<Rightarrow> bool"
  assumes get_upd: "get (upd f t) = f (get t)"
    and holds_wrap: "holds t (wrap i) \<longleftrightarrow> get t i \<noteq> None"
    and holds_other: "(\<And>i. r \<noteq> wrap i) \<Longrightarrow> holds (upd f t) r = holds t r"
    and wrap_inj: "wrap i = wrap j \<longleftrightarrow> i = j"
begin

lemma lookup_insert: "get (insert_in upd i h t) j = (if j = i then Some h else get t j)"
  by (simp add: insert_in_def get_upd)

lemma lookup_remove: "get (remove_in upd i t) j = (if j = i then None else get t j)"
  by (simp add: remove_in_def get_upd)

lemma found_iff_holds: "(\<exists>h. lookup_in kind (get t) i = Inr h) \<longleftrightarrow> holds t (wrap i)"
  by (auto simp: holds_wrap)

lemma holds_insert: "holds (insert_in upd i h t) r \<longleftrightarrow> r = wrap i \<or> holds t r"
proof (cases "\<exists>j. r = wrap j")
  case True
  then obtain j where "r = wrap j" by blast
  then show ?thesis
    by (simp add: holds_wrap lookup_insert wrap_inj)
next
  case False
  then have "holds (insert_in upd i h t) r = holds t r"
    unfolding insert_in_def by (intro holds_other) auto
  with False show ?thesis by auto
qed

lemma holds_remove: "holds (remove_in upd i t) r \<longleftrightarrow> r \<noteq> wrap i \<and> holds t r"
proof (cases "\<exists>j. r = wrap j")
  case True
  then obtain j where "r = wrap j" by blast
  then show ?thesis
    by (simp add: holds_wrap lookup_remove wrap_inj)
next
  case False
  then have "holds (remove_in upd i t) r = holds t r"
    unfolding remove_in_def by (intro holds_other) auto
  with False show ?thesis by auto
qed

end

text \<open>Whether the tables hold a handle for a resource.\<close>

fun knows :: "'h resource_tables \<Rightarrow> resource_id \<Rightarrow> bool" where
  "knows t (RBuffer i) = (buffers t i \<noteq> None)"
| "knows t (RTexture i) = (textures t i \<noteq> None)"
| "knows t (RTextureView i) = (texture_views t i \<noteq> None)"
| "knows t (RSampler i) = (samplers t i \<noteq> None)"
| "knows t (RShaderModule i) = (shader_modules t i \<noteq> None)"
| "knows t (RBindGroupLayout i) = (bind_group_layouts t i \<noteq> None)"
| "knows t (RBindGroup i) = (bind_groups t i \<noteq> None)"
| "knows t (RPipelineLayout i) = (pipeline_layouts t i \<noteq> None)"
| "knows t (RRenderPipeline i) = (render_pipelines t i \<noteq> None)"
| "knows t (RComputePipeline i) = (compute_pipelines t i \<noteq> None)"
| "knows t (RDevice i) = False"
| "knows t (RQueue i) = False"
| "knows t (RCommandBuffer i) = False"

text \<open>An update of one table leaves what the tables know of the other kinds alone.\<close>

lemma knows_buffers_update: "(\<And>i. r \<noteq> RBuffer i) \<Longrightarrow> knows (buffers_update f t) r = knows t r"
  by (cases r) (simp_all, blast?)

lemma knows_textures_update: "(\<And>i. r \<noteq> RTexture i) \<Longrightarrow> knows (textures_update f t) r = knows t r"
  by (cases r) (simp_all, blast?)

lemma knows_texture_views_update: "(\<And>i. r \<noteq> RTextureView i) \<Longrightarrow> knows (texture_views_update f t) r = knows t r"
  by (cases r) (simp_all, blast?)

lemma knows_samplers_update: "(\<And>i. r \<noteq> RSampler i) \<Longrightarrow> knows (samplers_update f t) r = knows t r"
  by (cases r) (simp_all, blast?)

lemma knows_shader_modules_update: "(\<And>i. r \<noteq> RShaderModule i) \<Longrightarrow> knows (shader_modules_update f t) r = knows t r"
  by (cases r) (simp_all, blast?)

lemma knows_bind_group_layouts_update: "(\<And>i. r \<noteq> RBindGroupLayout i) \<Longrightarrow> knows (bind_group_layouts_update f t) r = knows t r"
  by (cases r) (simp_all, blast?)

lemma knows_bind_groups_update: "(\<And>i. r \<noteq> RBindGroup i) \<Longrightarrow> knows (bind_groups_update f t) r = knows t r"
  by (cases r) (simp_all, blast?)

lemma knows_pipeline_layouts_update: "(\<And>i. r \<noteq> RPipelineLayout i) \<Longrightarrow> knows (pipeline_layouts_update f t) r = knows t r"
  by (cases r) (simp_all, blast?)

lemma knows_render_pipelines_update: "(\<And>i. r \<noteq> RRenderPipeline i) \<Longrightarrow> knows (render_pipelines_update f t) r = knows t r"
  by (cases r) (simp_all, blast?)

lemma knows_compute_pipelines_update: "(\<And>i. r \<noteq> RComputePipeline i) \<Longrightarrow> knows (compute_pipelines_update f t) r = knows t r"
  by (cases r) (simp_all, blast?)

lemmas knows_upd_other =
  knows_buffers_update
  knows_textures_update
  knows_texture_views_update
  knows_samplers_update
  knows_shader_modules_update
  knows_bind_group_layouts_update
  knows_bind_groups_update
  knows_pipeline_layouts_update
  knows_render_pipelines_update
  knows_compute_pipelines_update

interpretation buffers_tbl: id_table buffers buffers_update RBuffer knows
  by unfold_locales (simp_all add: knows_upd_other)

interpretation textures_tbl: id_table textures textures_update RTexture knows
  by unfold_locales (simp_all add: knows_upd_other)

interpretation texture_views_tbl: id_table texture_views texture_views_update RTextureView knows
  by unfold_locales (simp_all add: knows_upd_other)

interpretation samplers_tbl: id_table samplers samplers_update RSampler knows
  by unfold_locales (simp_all add: knows_upd_other)

interpretation shader_modules_tbl: id_table shader_modules shader_modules_update RShaderModule knows
  by unfold_locales (simp_all add: knows_upd_other)

interpretation bind_group_layouts_tbl: id_table bind_group_layouts bind_group_layouts_update RBindGroupLayout knows
  by unfold_locales (simp_all add: knows_upd_other)

interpretation bind_groups_tbl: id_table bind_groups bind_groups_update RBindGroup knows
  by unfold_locales (simp_all add: knows_upd_other)

interpretation pipeline_layouts_tbl: id_table pipeline_layouts pipeline_layouts_update RPipelineLayout knows
  by unfold_locales (simp_all add: knows_upd_other)

interpretation render_pipelines_tbl: id_table render_pipelines render_pipelines_update RRenderPipeline knows
  by unfold_locales (simp_all add: knows_upd_other)

interpretation compute_pipelines_tbl: id_table compute_pipelines compute_pipelines_update RComputePipeline knows
  by unfold_locales (simp_all add: knows_upd_other)

lemmas knows_insert [simp, table_simps] =
  buffers_tbl.holds_insert textures_tbl.holds_insert texture_views_tbl.holds_insert
  samplers_tbl.holds_insert shader_modules_tbl.holds_insert bind_group_layouts_tbl.holds_insert
  bind_groups_tbl.holds_insert pipeline_layouts_tbl.holds_insert
  render_pipelines_tbl.holds_insert compute_pipelines_tbl.holds_insert

lemmas lookup_insert_same [simp, table_simps] =
  buffers_tbl.lookup_insert textures_tbl.lookup_insert texture_views_tbl.lookup_insert
  samplers_tbl.lookup_insert shader_modules_tbl.lookup_insert bind_group_layouts_tbl.lookup_insert
  bind_groups_tbl.lookup_insert pipeline_layouts_tbl.lookup_insert
  render_pipelines_tbl.lookup_insert compute_pipelines_tbl.lookup_insert

lemmas knows_remove [simp, table_simps] = buffers_tbl.holds_remove

lemma knows_empty [simp]: "\<not> knows empty_tables r"
  by (cases r) (simp_all add: empty_tables_def)

end
