(* ===== verification/Gpu.thy ===== *)
theory Gpu
  imports Tables
begin

section \<open>The wgpu interface of the server\<close>

text \<open>
  The server replays actions against the crate \<open>wgpu\<close>, which is not part of this repository:
  a device is a parameter of the model. The calls \<open>server/engine.rs\<close> makes are the values of
  two types, the calls that return a handle (\<open>create_call\<close>) and those that return nothing
  (\<open>exec_call\<close>), and a device is a function from a call and a device state to an outcome and
  the next device state. Any call may panic: wgpu raises validation errors through a handler that
  panics when none is installed, and the server installs none. \<open>None\<close> is a panic.

  Arguments the code passes as a constant (\<open>timestamp_writes: None\<close>,
  \<open>occlusion_query_set: None\<close>, \<open>cache: None\<close>) are not part of the call.
  \<open>PipelineCompilationOptions::default()\<close> has no constants, so the records below carry the
  list of override constants. Dropping a pass ends it and is a call (\<open>EndPass\<close>); dropping any
  other handle is not.
\<close>

subsection \<open>Descriptors with handles in place of ids\<close>

datatype 'h gpu_binding =
    GBuffer 'h u64 "u64 option"
  | GSampler 'h
  | GTextureView 'h

record 'h gpu_bind_group =
  gbg_label :: "string option"
  gbg_layout :: 'h
  gbg_entries :: "(u32 \<times> 'h gpu_binding) list"

record ('w, 'h) gpu_pipeline_layout =
  gpl_label :: "string option"
  gpl_bind_group_layouts :: "'h list"
  gpl_push_constant_ranges :: "'w list"

record ('w, 'h) gpu_compute_pipeline =
  gcp_label :: "string option"
  gcp_layout :: "'h option"
  gcp_module :: 'h
  gcp_entry_point :: "string option"
  gcp_constants :: "(string \<times> 'w) list"

record ('w, 'h) gpu_vertex_state =
  gvs_module :: 'h
  gvs_entry_point :: "string option"
  gvs_constants :: "(string \<times> 'w) list"
  gvs_buffers :: "'w vertex_buffer_layout list"

record ('w, 'h) gpu_fragment_state =
  gfs_module :: 'h
  gfs_entry_point :: "string option"
  gfs_constants :: "(string \<times> 'w) list"
  gfs_targets :: "'w option list"

record ('w, 'h) gpu_render_pipeline =
  grp_label :: "string option"
  grp_layout :: "'h option"
  grp_vertex :: "('w, 'h) gpu_vertex_state"
  grp_primitive :: 'w
  grp_depth_stencil :: "'w option"
  grp_multisample :: 'w
  grp_fragment :: "('w, 'h) gpu_fragment_state option"
  grp_multiview :: "u32 option"

record ('w, 'h) gpu_color_attachment =
  gca_view :: 'h
  gca_depth_slice :: "u32 option"
  gca_resolve_target :: "'h option"
  gca_ops :: 'w

record ('w, 'h) gpu_depth_attachment =
  gda_view :: 'h
  gda_depth_ops :: "'w option"
  gda_stencil_ops :: "'w option"

text \<open>\<open>TexelCopyBufferInfo\<close> and \<open>TexelCopyTextureInfo\<close>.\<close>

record ('w, 'h) gpu_copy_buffer =
  gcb_buffer :: 'h
  gcb_layout :: 'w

record ('w, 'h) gpu_copy_texture =
  gct_texture :: 'h
  gct_mip_level :: u32
  gct_origin :: 'w
  gct_aspect :: 'w

text \<open>A buffer slice \<open>b.slice(start..end)\<close> or \<open>b.slice(start..)\<close>.\<close>

record 'h gpu_slice =
  gsl_buffer :: 'h
  gsl_start :: u64
  gsl_end :: "u64 option"

subsection \<open>Calls\<close>

datatype ('w, 'h) create_call =
    MkBuffer buffer_descriptor
  | MkTexture "'w texture_descriptor"
  | MkTextureView 'h "'w texture_view_descriptor"
  | MkSampler "'w sampler_descriptor"
  | MkShaderModule "string option" string
  | MkBindGroupLayout "'w bind_group_layout_descriptor"
  | MkBindGroup "'h gpu_bind_group"
  | MkPipelineLayout "('w, 'h) gpu_pipeline_layout"
  | MkComputePipeline "('w, 'h) gpu_compute_pipeline"
  | MkRenderPipeline "('w, 'h) gpu_render_pipeline"
  | GetBindGroupLayout 'h u32
  | MkCommandEncoder "string option"
  | MkComputePass 'h "string option"
  | MkRenderPass 'h "string option" "('w, 'h) gpu_color_attachment option list"
      "('w, 'h) gpu_depth_attachment option"
  | FinishEncoder 'h

datatype ('w, 'h) exec_call =
    QueueWriteBuffer 'h u64 bytes
  | QueueWriteTexture "('w, 'h) gpu_copy_texture" bytes 'w 'w
  | QueueSubmit "'h list"
  | EncCopyBufferToBuffer 'h 'h u64 'h u64 u64
  | EncClearBuffer 'h 'h u64 "u64 option"
  | EncCopyBufferToTexture 'h "('w, 'h) gpu_copy_buffer" "('w, 'h) gpu_copy_texture" 'w
  | EncCopyTextureToBuffer 'h "('w, 'h) gpu_copy_texture" "('w, 'h) gpu_copy_buffer" 'w
  | PassSetPipeline 'h 'h
  | PassSetBindGroup 'h u32 'h "u32 list"
  | PassSetPushConstants 'h u32 bytes
  | PassDispatchWorkgroups 'h u32 u32 u32
  | PassDispatchWorkgroupsIndirect 'h 'h u64
  | PassSetVertexBuffer 'h u32 "'h gpu_slice"
  | PassSetIndexBuffer 'h "'h gpu_slice" 'w
  | PassDraw 'h "u32 \<times> u32" "u32 \<times> u32"
  | PassDrawIndexed 'h "u32 \<times> u32" u32 "u32 \<times> u32"
  | EndPass 'h
  | UnmapBuffer 'h

text \<open>What the callback of \<open>map_async\<close> delivers: success, an error, or nothing at all.\<close>

datatype map_result = MapOk | MapErr string | MapDropped

record ('w, 'h, 'g) wgpu =
  wg_create :: "('w, 'h) create_call \<Rightarrow> 'g \<Rightarrow> 'h option \<times> 'g"
  wg_exec :: "('w, 'h) exec_call \<Rightarrow> 'g \<Rightarrow> unit option \<times> 'g"
  wg_map_async :: "'h gpu_slice \<Rightarrow> 'g \<Rightarrow> map_result option \<times> 'g"
  wg_mapped_range :: "'h gpu_slice \<Rightarrow> 'g \<Rightarrow> bytes option \<times> 'g"

text \<open>A device on which no call panics and every map succeeds.\<close>

definition never_panics :: "('w, 'h, 'g) wgpu \<Rightarrow> bool" where
  "never_panics d \<longleftrightarrow>
     (\<forall>c g. fst (wg_create d c g) \<noteq> None) \<and> (\<forall>c g. fst (wg_exec d c g) \<noteq> None) \<and>
     (\<forall>c g. fst (wg_map_async d c g) \<noteq> None) \<and> (\<forall>c g. fst (wg_mapped_range d c g) \<noteq> None)"

subsection \<open>Observing a device\<close>

text \<open>
  The calls a device has been given, in order: \<open>logged d\<close> behaves as \<open>d\<close> and keeps them.
\<close>

datatype ('w, 'h) gpu_event =
    Created "('w, 'h) create_call" "'h option"
  | Executed "('w, 'h) exec_call"
  | MapAsync "'h gpu_slice"
  | MappedRange "'h gpu_slice"

definition logged :: "('w, 'h, 'g) wgpu \<Rightarrow> ('w, 'h, 'g \<times> ('w, 'h) gpu_event list) wgpu" where
  "logged d =
     \<lparr>wg_create = (\<lambda>c (g, l). case wg_create d c g of (r, g') \<Rightarrow> (r, g', l @ [Created c r])),
      wg_exec = (\<lambda>c (g, l). case wg_exec d c g of (r, g') \<Rightarrow> (r, g', l @ [Executed c])),
      wg_map_async = (\<lambda>c (g, l). case wg_map_async d c g of (r, g') \<Rightarrow> (r, g', l @ [MapAsync c])),
      wg_mapped_range =
        (\<lambda>c (g, l). case wg_mapped_range d c g of (r, g') \<Rightarrow> (r, g', l @ [MappedRange c]))\<rparr>"

text \<open>
  A concrete device for evaluating the model: it numbers the handles it makes, reads zeros and
  panics on the calls a predicate names.
\<close>

definition counting_device ::
  "(('w, nat) create_call \<Rightarrow> bool) \<Rightarrow> (('w, nat) exec_call \<Rightarrow> bool) \<Rightarrow> ('w, nat, nat) wgpu" where
  "counting_device bad_create bad_exec =
     \<lparr>wg_create = (\<lambda>c g. if bad_create c then (None, g) else (Some g, Suc g)),
      wg_exec = (\<lambda>c g. if bad_exec c then (None, g) else (Some (), g)),
      wg_map_async = (\<lambda>c g. (Some MapOk, g)),
      wg_mapped_range = (\<lambda>c g. (Some (case gsl_end c of
          None \<Rightarrow> [] | Some e \<Rightarrow> replicate (unat e - unat (gsl_start c)) 0), g))\<rparr>"

definition good_device :: "('w, nat, nat) wgpu" where
  "good_device = counting_device (\<lambda>_. False) (\<lambda>_. False)"

lemma never_panics_good_device [simp]: "never_panics good_device"
  by (simp add: never_panics_def good_device_def counting_device_def)

end
