(* ===== verification/Engine_State.thy ===== *)
theory Engine_State
  imports Gpu Codec
begin

section \<open>The server's state and its lock\<close>

text \<open>
  The state of \<open>struct Engine\<close> (\<open>server/engine.rs\<close>): the wgpu device and queue, whose state
  is a value of the type parameter \<open>'g\<close>, and \<open>tables: Mutex<ResourceTables>\<close>. A standard
  library mutex is poisoned when a thread panics while it holds the guard, and
  \<open>lock().unwrap()\<close> panics on a poisoned mutex; the flag \<open>eng_poisoned\<close> is that state.

  After a panic the model makes no further wgpu call: what the destructors of the unwinding
  thread do to the device is not modelled.
\<close>

record ('h, 'g) engine =
  eng_gpu :: 'g
  eng_tables :: "'h resource_tables"
  eng_poisoned :: bool

text \<open>
  What the engine's code depends on: the device, the deserializer of recordings, and whether the
  build checks arithmetic for overflow.
\<close>

record ('w, 'h, 'g) server =
  srv_device :: "('w, 'h, 'g) wgpu"
  srv_recordings :: "'w recording bincode"
  srv_overflow_checks :: bool

text \<open>The state \<open>Engine::new\<close> leaves, given the state of a fresh device.\<close>

definition new_engine :: "'g \<Rightarrow> ('h, 'g) engine" where
  "new_engine g = \<lparr>eng_gpu = g, eng_tables = empty_tables, eng_poisoned = False\<rparr>"

subsection \<open>Calls of the device as steps\<close>

definition gpu_create :: "('w, 'h, 'g) wgpu \<Rightarrow> ('w, 'h) create_call \<Rightarrow> ('g, response, 'h) step" where
  "gpu_create d c g = (case wg_create d c g of (r, g') \<Rightarrow> lift_opt r g')"

definition gpu_exec :: "('w, 'h, 'g) wgpu \<Rightarrow> ('w, 'h) exec_call \<Rightarrow> ('g, response, unit) step" where
  "gpu_exec d c g = (case wg_exec d c g of (r, g') \<Rightarrow> lift_opt r g')"

definition gpu_map_async :: "('w, 'h, 'g) wgpu \<Rightarrow> 'h gpu_slice \<Rightarrow> ('g, response, map_result) step" where
  "gpu_map_async d c g = (case wg_map_async d c g of (r, g') \<Rightarrow> lift_opt r g')"

definition gpu_mapped_range :: "('w, 'h, 'g) wgpu \<Rightarrow> 'h gpu_slice \<Rightarrow> ('g, response, bytes) step" where
  "gpu_mapped_range d c g = (case wg_mapped_range d c g of (r, g') \<Rightarrow> lift_opt r g')"

lemmas gpu_call_defs = gpu_create_def gpu_exec_def gpu_map_async_def gpu_mapped_range_def

lemma gpu_call_never_Fail [simp]:
  "gpu_create d c g \<noteq> (Fail e, g')" "gpu_exec d x g \<noteq> (Fail e, g')"
  "gpu_map_async d s g \<noteq> (Fail e, g')" "gpu_mapped_range d s g \<noteq> (Fail e, g')"
  by (auto simp: gpu_call_defs lift_opt_def split: prod.splits option.splits)

lemma gpu_call_Ret:
  assumes "never_panics d"
  shows "\<exists>h g'. gpu_create d c g = (Ret h, g')" "\<exists>g'. gpu_exec d x g = (Ret (), g')"
    "\<exists>m g'. gpu_map_async d sl g = (Ret m, g')" "\<exists>b g'. gpu_mapped_range d sl g = (Ret b, g')"
proof -
  have "wg_create d c g = (fst (wg_create d c g), snd (wg_create d c g))"
    "wg_exec d x g = (fst (wg_exec d x g), snd (wg_exec d x g))"
    "wg_map_async d sl g = (fst (wg_map_async d sl g), snd (wg_map_async d sl g))"
    "wg_mapped_range d sl g = (fst (wg_mapped_range d sl g), snd (wg_mapped_range d sl g))"
    by simp_all
  moreover have "fst (wg_create d c g) \<noteq> None" "fst (wg_exec d x g) \<noteq> None"
    "fst (wg_map_async d sl g) \<noteq> None" "fst (wg_mapped_range d sl g) \<noteq> None"
    using assms by (auto simp: never_panics_def)
  ultimately show "\<exists>h g'. gpu_create d c g = (Ret h, g')" "\<exists>g'. gpu_exec d x g = (Ret (), g')"
    "\<exists>m g'. gpu_map_async d sl g = (Ret m, g')" "\<exists>b g'. gpu_mapped_range d sl g = (Ret b, g')"
    by (auto simp: gpu_call_defs split: prod.splits)
qed

text \<open>A step of the device as a step of the engine.\<close>

definition on_gpu :: "('g, 'e, 'a) step \<Rightarrow> (('h, 'g) engine, 'e, 'a) step" where
  "on_gpu m s = (case m (eng_gpu s) of (r, g) \<Rightarrow> (r, s\<lparr>eng_gpu := g\<rparr>))"

subsection \<open>The lock\<close>

text \<open>
  \<open>{ let tables = self.tables.lock().unwrap(); body }\<close>: \<open>body\<close> gets the tables as they are
  when the lock is taken and changes them with \<open>put_tables\<close>. A panic inside poisons the lock.
\<close>

definition locked ::
  "('h resource_tables \<Rightarrow> (('h, 'g) engine, 'e, 'a) step) \<Rightarrow> (('h, 'g) engine, 'e, 'a) step" where
  "locked body s =
     (if eng_poisoned s then (Panic, s)
      else case body (eng_tables s) s of
          (Panic, s') \<Rightarrow> (Panic, s'\<lparr>eng_poisoned := True\<rparr>)
        | (Ret a, s') \<Rightarrow> (Ret a, s')
        | (Fail e, s') \<Rightarrow> (Fail e, s'))"

definition put_tables :: "'h resource_tables \<Rightarrow> (('h, 'g) engine, response, unit) step" where
  "put_tables t s = (Ret (), s\<lparr>eng_tables := t\<rparr>)"

text \<open>\<open>self.tables.lock().unwrap().<field>.insert(id, handle)\<close>.\<close>

definition store :: "('h, 'k) field_update \<Rightarrow> 'k id \<Rightarrow> 'h \<Rightarrow> (('h, 'g) engine, response, unit) step" where
  "store upd i h = locked (\<lambda>t. put_tables (insert_in upd i h t))"

text \<open>
  A method that returns a \<open>Response\<close> leaves early with \<open>return\<close>; the value it leaves with is
  its answer.
\<close>

definition answer :: "('s, 'a, 'a) step \<Rightarrow> ('s, 'a, 'a) step" where
  "answer m s =
     (case m s of
        (Fail r, s') \<Rightarrow> (Ret r, s')
      | (Ret r, s') \<Rightarrow> (Ret r, s')
      | (Panic, s') \<Rightarrow> (Panic, s'))"

subsection \<open>How the steps change the state\<close>

lemma put_tables_simp [simp]: "put_tables t s = (Ret (), s\<lparr>eng_tables := t\<rparr>)"
  by (simp add: put_tables_def)

lemma on_gpu_cases:
  assumes "on_gpu m s = (r, s')"
  obtains g where "m (eng_gpu s) = (r, g)" and "s' = s\<lparr>eng_gpu := g\<rparr>"
  using assms by (auto simp: on_gpu_def split: prod.splits)

lemma on_gpu_eq: "m (eng_gpu s) = (r, g) \<Longrightarrow> on_gpu m s = (r, s\<lparr>eng_gpu := g\<rparr>)"
  by (simp add: on_gpu_def)

lemma on_gpu_frame:
  assumes "on_gpu m s = (r, s')"
  shows "eng_tables s' = eng_tables s" "eng_poisoned s' = eng_poisoned s"
  using assms by (auto elim!: on_gpu_cases)

lemma locked_poisoned [simp]: "eng_poisoned s \<Longrightarrow> locked body s = (Panic, s)"
  by (simp add: locked_def)

lemma locked_cases [consumes 1, case_names poisoned Panic body]:
  assumes "locked body s = (r, s')"
  obtains "eng_poisoned s" and "r = Panic" and "s' = s"
  | s'' where "\<not> eng_poisoned s" and "r = Panic" and "body (eng_tables s) s = (Panic, s'')"
      and "s' = s''\<lparr>eng_poisoned := True\<rparr>"
  | "\<not> eng_poisoned s" and "r \<noteq> Panic" and "body (eng_tables s) s = (r, s')"
  using assms by (auto simp: locked_def split: if_splits prod.splits flow.splits)

lemma locked_eq:
  "\<not> eng_poisoned s \<Longrightarrow> body (eng_tables s) s = (r, s') \<Longrightarrow> r \<noteq> Panic \<Longrightarrow> locked body s = (r, s')"
  by (auto simp: locked_def split: flow.splits)

lemma answer_eq:
  "m s = (Ret r, s') \<Longrightarrow> answer m s = (Ret r, s')"
  "m s = (Fail r, s') \<Longrightarrow> answer m s = (Ret r, s')"
  "m s = (Panic, s') \<Longrightarrow> answer m s = (Panic, s')"
  by (simp_all add: answer_def)

lemma answer_cases [consumes 1, case_names Ret Fail Panic]:
  assumes "answer m s = (r, s')"
  obtains a where "m s = (Ret a, s')" and "r = Ret a"
  | a where "m s = (Fail a, s')" and "r = Ret a"
  | "m s = (Panic, s')" and "r = Panic"
  using assms by (auto simp: answer_def split: prod.splits flow.splits)

text \<open>Steps under the lock compose with what a step keeps.\<close>

lemma keeps_locked:
  assumes "\<And>t. keeps R (body t)" and "\<And>s s'. R s s' \<Longrightarrow> R s (s'\<lparr>eng_poisoned := True\<rparr>)"
    and "reflp R"
  shows "keeps R (locked body)"
proof
  fix s r s'
  assume "locked body s = (r, s')"
  then show "R s s'"
    using assms by (cases rule: locked_cases) (auto dest: keepsD simp: reflp_def)
qed

lemma keeps_answer: "keeps R m \<Longrightarrow> keeps R (answer m)"
  by (rule keepsI) (auto elim!: answer_cases dest: keepsD)

end
