(* ===== verification/Replay.thy ===== *)
theory Replay
  imports Engine_State
begin

section \<open>Replaying recorded command buffers\<close>

text \<open>
  \<open>Engine::submit\<close>, \<open>replay_recording\<close> and the three \<open>replay_*_command\<close> methods of
  \<open>server/engine.rs\<close>, with \<open>CommandBufferRecording::encode\<close> and \<open>decode\<close>. The commands
  of a recording are replayed with the table lock held, so they all see the same tables: the
  replay of commands is a step of the device, with the tables an argument. A pass is ended when it
  goes out of scope, also when a command inside it fails.

  The specification resolves every reference of a recording before the first call
  (\<open>resolve_*\<close>) and the lemmas show that the code, which resolves as it goes, issues the same
  calls and fails with the same error.
\<close>

subsection \<open>CommandBufferRecording\<close>

definition encode_recording :: "'w recording bincode \<Rightarrow> 'w recording \<Rightarrow> string + bytes" where
  "encode_recording bc r = bc_encode bc r"

definition decode_recording :: "'w recording bincode \<Rightarrow> bytes \<Rightarrow> string + 'w recording" where
  "decode_recording bc b = bind_res (bc_decode bc b) (\<lambda>(r, _). Inr r)"

lemma decode_encode_recording:
  "bincode_ok bc \<Longrightarrow> encode_recording bc r = Inr b \<Longrightarrow> decode_recording bc b = Inr r"
  by (simp add: encode_recording_def decode_recording_def bincode_okD)

subsection \<open>Lookups\<close>

definition lookup_image_copy_buffer ::
  "'h resource_tables \<Rightarrow> 'w image_copy_buffer \<Rightarrow> response + ('w, 'h) gpu_copy_buffer" where
  "lookup_image_copy_buffer t src =
     bind_res (lookup_in ''BufferId'' (buffers t) (icb_buffer src)) (\<lambda>b.
       Inr \<lparr>gcb_buffer = b, gcb_layout = icb_layout src\<rparr>)"

definition lookup_image_copy_texture ::
  "'h resource_tables \<Rightarrow> 'w image_copy_texture \<Rightarrow> response + ('w, 'h) gpu_copy_texture" where
  "lookup_image_copy_texture t src =
     bind_res (lookup_in ''TextureId'' (textures t) (ict_texture src)) (\<lambda>x.
       Inr \<lparr>gct_texture = x, gct_mip_level = ict_mip_level src, gct_origin = ict_origin src,
            gct_aspect = ict_aspect src\<rparr>)"

definition color_attachment_of ::
  "'h resource_tables \<Rightarrow> 'w color_attachment option \<Rightarrow> response + ('w, 'h) gpu_color_attachment option" where
  "color_attachment_of t maybe =
     (case maybe of
        None \<Rightarrow> Inr None
      | Some att \<Rightarrow>
          bind_res (lookup_in ''TextureViewId'' (texture_views t) (ca_view att)) (\<lambda>view.
          bind_res (case ca_resolve_target att of
                Some rt \<Rightarrow> bind_res (lookup_in ''TextureViewId'' (texture_views t) rt) (\<lambda>v. Inr (Some v))
              | None \<Rightarrow> Inr None) (\<lambda>resolve.
          Inr (Some \<lparr>gca_view = view, gca_depth_slice = ca_depth_slice att,
                     gca_resolve_target = resolve, gca_ops = ca_ops att\<rparr>))))"

definition depth_attachment_of ::
  "'h resource_tables \<Rightarrow> 'w depth_stencil_attachment option \<Rightarrow> response + ('w, 'h) gpu_depth_attachment option" where
  "depth_attachment_of t maybe =
     (case maybe of
        Some att \<Rightarrow>
          bind_res (lookup_in ''TextureViewId'' (texture_views t) (da_view att)) (\<lambda>view.
          Inr (Some \<lparr>gda_view = view, gda_depth_ops = da_depth_ops att,
                     gda_stencil_ops = da_stencil_ops att\<rparr>))
      | None \<Rightarrow> Inr None)"

text \<open>
  \<open>match size { Some(s) => b.slice(offset..offset + s), None => b.slice(offset..) }\<close>: \<open>None\<close>
  is the overflow panic of the addition.
\<close>

definition slice_of :: "bool \<Rightarrow> 'h \<Rightarrow> u64 \<Rightarrow> u64 option \<Rightarrow> 'h gpu_slice option" where
  "slice_of overflow_checks b off len =
     (case len of
        Some s \<Rightarrow>
          (case add_u64 overflow_checks off s of
             None \<Rightarrow> None
           | Some e \<Rightarrow> Some \<lparr>gsl_buffer = b, gsl_start = off, gsl_end = Some e\<rparr>)
      | None \<Rightarrow> Some \<lparr>gsl_buffer = b, gsl_start = off, gsl_end = None\<rparr>)"

subsection \<open>replay_compute_command\<close>

fun replay_compute_command ::
  "('w, 'h, 'g) server \<Rightarrow> 'h resource_tables \<Rightarrow> 'h \<Rightarrow> compute_command \<Rightarrow> ('g, response, unit) step" where
  "replay_compute_command srv t pass (CSetPipeline i) =
     andThen (lift_res (lookup_in ''ComputePipelineId'' (compute_pipelines t) i)) (\<lambda>p.
       gpu_exec (srv_device srv) (PassSetPipeline pass p))"
| "replay_compute_command srv t pass (CSetBindGroup index grp offsets) =
     andThen (lift_res (lookup_in ''BindGroupId'' (bind_groups t) grp)) (\<lambda>g.
       gpu_exec (srv_device srv) (PassSetBindGroup pass index g offsets))"
| "replay_compute_command srv t pass (CSetPushConstants off data) =
     gpu_exec (srv_device srv) (PassSetPushConstants pass off data)"
| "replay_compute_command srv t pass (CDispatchWorkgroups x y z) =
     gpu_exec (srv_device srv) (PassDispatchWorkgroups pass x y z)"
| "replay_compute_command srv t pass (CDispatchWorkgroupsIndirect buf off) =
     andThen (lift_res (lookup_in ''BufferId'' (buffers t) buf)) (\<lambda>b.
       gpu_exec (srv_device srv) (PassDispatchWorkgroupsIndirect pass b off))"

subsection \<open>replay_render_command\<close>

fun replay_render_command ::
  "('w, 'h, 'g) server \<Rightarrow> 'h resource_tables \<Rightarrow> 'h \<Rightarrow> 'w render_command \<Rightarrow> ('g, response, unit) step" where
  "replay_render_command srv t pass (RSetPipeline i) =
     andThen (lift_res (lookup_in ''RenderPipelineId'' (render_pipelines t) i)) (\<lambda>p.
       gpu_exec (srv_device srv) (PassSetPipeline pass p))"
| "replay_render_command srv t pass (RSetBindGroup index grp offsets) =
     andThen (lift_res (lookup_in ''BindGroupId'' (bind_groups t) grp)) (\<lambda>g.
       gpu_exec (srv_device srv) (PassSetBindGroup pass index g offsets))"
| "replay_render_command srv t pass (RSetVertexBuffer slot buf off len) =
     andThen (lift_res (lookup_in ''BufferId'' (buffers t) buf)) (\<lambda>b.
     andThen (lift_opt (slice_of (srv_overflow_checks srv) b off len)) (\<lambda>sl.
       gpu_exec (srv_device srv) (PassSetVertexBuffer pass slot sl)))"
| "replay_render_command srv t pass (RSetIndexBuffer buf format off len) =
     andThen (lift_res (lookup_in ''BufferId'' (buffers t) buf)) (\<lambda>b.
     andThen (lift_opt (slice_of (srv_overflow_checks srv) b off len)) (\<lambda>sl.
       gpu_exec (srv_device srv) (PassSetIndexBuffer pass sl format)))"
| "replay_render_command srv t pass (RDraw vertices instances) =
     gpu_exec (srv_device srv) (PassDraw pass vertices instances)"
| "replay_render_command srv t pass (RDrawIndexed indices base_vertex instances) =
     gpu_exec (srv_device srv) (PassDrawIndexed pass indices base_vertex instances)"

subsection \<open>replay_encoder_command\<close>

text \<open>
  \<open>let mut pass = encoder.begin_*_pass(..); body\<close>: dropping \<open>pass\<close> at the end of the scope
  ends it, on the normal path and on an early return.
\<close>

definition with_pass ::
  "('w, 'h, 'g) wgpu \<Rightarrow> ('w, 'h) create_call \<Rightarrow> ('h \<Rightarrow> ('g, response, unit) step) \<Rightarrow> ('g, response, unit) step" where
  "with_pass d begin_pass body =
     andThen (gpu_create d begin_pass) (\<lambda>pass g.
       case body pass g of
         (Ret u, g') \<Rightarrow> gpu_exec d (EndPass pass) g'
       | (Fail e, g') \<Rightarrow> andThen (gpu_exec d (EndPass pass)) (\<lambda>_. fail e) g'
       | (Panic, g') \<Rightarrow> (Panic, g'))"

fun replay_encoder_command ::
  "('w, 'h, 'g) server \<Rightarrow> 'h resource_tables \<Rightarrow> 'h \<Rightarrow> 'w encoder_command \<Rightarrow> ('g, response, unit) step" where
  "replay_encoder_command srv t encoder (CopyBufferToBuffer source source_off dest dest_off len) =
     andThen (lift_res (lookup_in ''BufferId'' (buffers t) source)) (\<lambda>src.
     andThen (lift_res (lookup_in ''BufferId'' (buffers t) dest)) (\<lambda>dst.
       gpu_exec (srv_device srv) (EncCopyBufferToBuffer encoder src source_off dst dest_off len)))"
| "replay_encoder_command srv t encoder (ClearBuffer buf off len) =
     andThen (lift_res (lookup_in ''BufferId'' (buffers t) buf)) (\<lambda>b.
       gpu_exec (srv_device srv) (EncClearBuffer encoder b off len))"
| "replay_encoder_command srv t encoder (BeginComputePass label commands) =
     with_pass (srv_device srv) (MkComputePass encoder label) (\<lambda>pass.
       for_each (replay_compute_command srv t pass) commands)"
| "replay_encoder_command srv t encoder (CopyBufferToTexture source dest copy_size) =
     andThen (lift_res (lookup_image_copy_buffer t source)) (\<lambda>src.
     andThen (lift_res (lookup_image_copy_texture t dest)) (\<lambda>dst.
       gpu_exec (srv_device srv) (EncCopyBufferToTexture encoder src dst copy_size)))"
| "replay_encoder_command srv t encoder (CopyTextureToBuffer source dest copy_size) =
     andThen (lift_res (lookup_image_copy_texture t source)) (\<lambda>src.
     andThen (lift_res (lookup_image_copy_buffer t dest)) (\<lambda>dst.
       gpu_exec (srv_device srv) (EncCopyTextureToBuffer encoder src dst copy_size)))"
| "replay_encoder_command srv t encoder (BeginRenderPass label colors depth commands) =
     andThen (lift_res (collect_res (color_attachment_of t) colors)) (\<lambda>color_atts.
     andThen (lift_res (depth_attachment_of t depth)) (\<lambda>depth_att.
       with_pass (srv_device srv) (MkRenderPass encoder label color_atts depth_att) (\<lambda>pass.
         for_each (replay_render_command srv t pass) commands)))"

subsection \<open>replay_recording and submit\<close>

definition replay_recording ::
  "('w, 'h, 'g) server \<Rightarrow> 'w recording \<Rightarrow> (('h, 'g) engine, response, 'h) step" where
  "replay_recording srv recording =
     andThen (on_gpu (gpu_create (srv_device srv) (MkCommandEncoder (rec_label recording)))) (\<lambda>encoder.
     andThen (locked (\<lambda>t. on_gpu (for_each (replay_encoder_command srv t encoder) (rec_commands recording)))) (\<lambda>_.
       on_gpu (gpu_create (srv_device srv) (FinishEncoder encoder))))"

fun build_command_buffers ::
  "('w, 'h, 'g) server \<Rightarrow> bytes list \<Rightarrow> 'h list \<Rightarrow> (('h, 'g) engine, response, 'h list) step" where
  "build_command_buffers srv [] command_buffers = ret command_buffers"
| "build_command_buffers srv (payload # recordings) command_buffers =
     (case decode_recording (srv_recordings srv) payload of
        Inl e \<Rightarrow> fail (RespError InvalidArgument (''recording decode failed: '' @ e))
      | Inr recording \<Rightarrow>
          andThen (replay_recording srv recording) (\<lambda>cb.
            build_command_buffers srv recordings (command_buffers @ [cb])))"

definition submit ::
  "('w, 'h, 'g) server \<Rightarrow> bytes list \<Rightarrow> (('h, 'g) engine, response, response) step" where
  "submit srv recordings =
     answer (andThen (build_command_buffers srv recordings []) (\<lambda>command_buffers.
       andThen (on_gpu (gpu_exec (srv_device srv) (QueueSubmit command_buffers))) (\<lambda>_. ret RespOk)))"

subsection \<open>Specification: resolve first, then issue\<close>

text \<open>
  A resolved pass command is the call to make on the pass; it is \<open>None\<close> when computing its slice
  overflows. A resolved encoder command is one call on the encoder, or a pass with its calls.
\<close>

type_synonym ('w, 'h) pass_call = "'h \<Rightarrow> ('w, 'h) exec_call option"

datatype ('w, 'h) resolved =
    Issue "'h \<Rightarrow> ('w, 'h) exec_call"
  | InPass "'h \<Rightarrow> ('w, 'h) create_call" "('w, 'h) pass_call list"

fun resolve_compute_command ::
  "'h resource_tables \<Rightarrow> compute_command \<Rightarrow> response + ('w, 'h) pass_call" where
  "resolve_compute_command t (CSetPipeline i) =
     bind_res (lookup_in ''ComputePipelineId'' (compute_pipelines t) i) (\<lambda>p.
       Inr (\<lambda>pass. Some (PassSetPipeline pass p)))"
| "resolve_compute_command t (CSetBindGroup index grp offsets) =
     bind_res (lookup_in ''BindGroupId'' (bind_groups t) grp) (\<lambda>g.
       Inr (\<lambda>pass. Some (PassSetBindGroup pass index g offsets)))"
| "resolve_compute_command t (CSetPushConstants off data) =
     Inr (\<lambda>pass. Some (PassSetPushConstants pass off data))"
| "resolve_compute_command t (CDispatchWorkgroups x y z) =
     Inr (\<lambda>pass. Some (PassDispatchWorkgroups pass x y z))"
| "resolve_compute_command t (CDispatchWorkgroupsIndirect buf off) =
     bind_res (lookup_in ''BufferId'' (buffers t) buf) (\<lambda>b.
       Inr (\<lambda>pass. Some (PassDispatchWorkgroupsIndirect pass b off)))"

fun resolve_render_command ::
  "bool \<Rightarrow> 'h resource_tables \<Rightarrow> 'w render_command \<Rightarrow> response + ('w, 'h) pass_call" where
  "resolve_render_command oc t (RSetPipeline i) =
     bind_res (lookup_in ''RenderPipelineId'' (render_pipelines t) i) (\<lambda>p.
       Inr (\<lambda>pass. Some (PassSetPipeline pass p)))"
| "resolve_render_command oc t (RSetBindGroup index grp offsets) =
     bind_res (lookup_in ''BindGroupId'' (bind_groups t) grp) (\<lambda>g.
       Inr (\<lambda>pass. Some (PassSetBindGroup pass index g offsets)))"
| "resolve_render_command oc t (RSetVertexBuffer slot buf off len) =
     bind_res (lookup_in ''BufferId'' (buffers t) buf) (\<lambda>b.
       Inr (\<lambda>pass. map_option (PassSetVertexBuffer pass slot) (slice_of oc b off len)))"
| "resolve_render_command oc t (RSetIndexBuffer buf format off len) =
     bind_res (lookup_in ''BufferId'' (buffers t) buf) (\<lambda>b.
       Inr (\<lambda>pass. map_option (\<lambda>sl. PassSetIndexBuffer pass sl format) (slice_of oc b off len)))"
| "resolve_render_command oc t (RDraw vertices instances) =
     Inr (\<lambda>pass. Some (PassDraw pass vertices instances))"
| "resolve_render_command oc t (RDrawIndexed indices base_vertex instances) =
     Inr (\<lambda>pass. Some (PassDrawIndexed pass indices base_vertex instances))"

fun resolve_encoder_command ::
  "bool \<Rightarrow> 'h resource_tables \<Rightarrow> 'w encoder_command \<Rightarrow> response + ('w, 'h) resolved" where
  "resolve_encoder_command oc t (CopyBufferToBuffer source source_off dest dest_off len) =
     bind_res (lookup_in ''BufferId'' (buffers t) source) (\<lambda>src.
     bind_res (lookup_in ''BufferId'' (buffers t) dest) (\<lambda>dst.
       Inr (Issue (\<lambda>enc. EncCopyBufferToBuffer enc src source_off dst dest_off len))))"
| "resolve_encoder_command oc t (ClearBuffer buf off len) =
     bind_res (lookup_in ''BufferId'' (buffers t) buf) (\<lambda>b.
       Inr (Issue (\<lambda>enc. EncClearBuffer enc b off len)))"
| "resolve_encoder_command oc t (BeginComputePass label commands) =
     bind_res (collect_res (resolve_compute_command t) commands) (\<lambda>calls.
       Inr (InPass (\<lambda>enc. MkComputePass enc label) calls))"
| "resolve_encoder_command oc t (CopyBufferToTexture source dest copy_size) =
     bind_res (lookup_image_copy_buffer t source) (\<lambda>src.
     bind_res (lookup_image_copy_texture t dest) (\<lambda>dst.
       Inr (Issue (\<lambda>enc. EncCopyBufferToTexture enc src dst copy_size))))"
| "resolve_encoder_command oc t (CopyTextureToBuffer source dest copy_size) =
     bind_res (lookup_image_copy_texture t source) (\<lambda>src.
     bind_res (lookup_image_copy_buffer t dest) (\<lambda>dst.
       Inr (Issue (\<lambda>enc. EncCopyTextureToBuffer enc src dst copy_size))))"
| "resolve_encoder_command oc t (BeginRenderPass label colors depth commands) =
     bind_res (collect_res (color_attachment_of t) colors) (\<lambda>color_atts.
     bind_res (depth_attachment_of t depth) (\<lambda>depth_att.
     bind_res (collect_res (resolve_render_command oc t) commands) (\<lambda>calls.
       Inr (InPass (\<lambda>enc. MkRenderPass enc label color_atts depth_att) calls))))"

definition issue_in_pass ::
  "('w, 'h, 'g) wgpu \<Rightarrow> 'h \<Rightarrow> ('w, 'h) pass_call \<Rightarrow> ('g, response, unit) step" where
  "issue_in_pass d pass call = andThen (lift_opt (call pass)) (gpu_exec d)"

fun issue_resolved ::
  "('w, 'h, 'g) wgpu \<Rightarrow> 'h \<Rightarrow> ('w, 'h) resolved \<Rightarrow> ('g, response, unit) step" where
  "issue_resolved d encoder (Issue call) = gpu_exec d (call encoder)"
| "issue_resolved d encoder (InPass begin_pass calls) =
     with_pass d (begin_pass encoder) (\<lambda>pass. for_each (issue_in_pass d pass) calls)"

subsection \<open>The references of a recording\<close>

fun compute_refs :: "compute_command \<Rightarrow> resource_id list" where
  "compute_refs (CSetPipeline i) = [RComputePipeline i]"
| "compute_refs (CSetBindGroup _ grp _) = [RBindGroup grp]"
| "compute_refs (CSetPushConstants _ _) = []"
| "compute_refs (CDispatchWorkgroups _ _ _) = []"
| "compute_refs (CDispatchWorkgroupsIndirect buf _) = [RBuffer buf]"

fun render_refs :: "'w render_command \<Rightarrow> resource_id list" where
  "render_refs (RSetPipeline i) = [RRenderPipeline i]"
| "render_refs (RSetBindGroup _ grp _) = [RBindGroup grp]"
| "render_refs (RSetVertexBuffer _ buf _ _) = [RBuffer buf]"
| "render_refs (RSetIndexBuffer buf _ _ _) = [RBuffer buf]"
| "render_refs (RDraw _ _) = []"
| "render_refs (RDrawIndexed _ _ _) = []"

definition color_refs :: "'w color_attachment option \<Rightarrow> resource_id list" where
  "color_refs maybe =
     (case maybe of
        None \<Rightarrow> []
      | Some att \<Rightarrow> RTextureView (ca_view att) #
          (case ca_resolve_target att of None \<Rightarrow> [] | Some rt \<Rightarrow> [RTextureView rt]))"

definition depth_refs :: "'w depth_stencil_attachment option \<Rightarrow> resource_id list" where
  "depth_refs maybe = (case maybe of None \<Rightarrow> [] | Some att \<Rightarrow> [RTextureView (da_view att)])"

fun encoder_refs :: "'w encoder_command \<Rightarrow> resource_id list" where
  "encoder_refs (CopyBufferToBuffer source _ dest _ _) = [RBuffer source, RBuffer dest]"
| "encoder_refs (ClearBuffer buf _ _) = [RBuffer buf]"
| "encoder_refs (BeginComputePass _ commands) = concat (map compute_refs commands)"
| "encoder_refs (CopyBufferToTexture source dest _) =
     [RBuffer (icb_buffer source), RTexture (ict_texture dest)]"
| "encoder_refs (CopyTextureToBuffer source dest _) =
     [RTexture (ict_texture source), RBuffer (icb_buffer dest)]"
| "encoder_refs (BeginRenderPass _ colors depth commands) =
     concat (map color_refs colors) @ depth_refs depth @ concat (map render_refs commands)"

definition recording_refs :: "'w recording \<Rightarrow> resource_id list" where
  "recording_refs r = concat (map encoder_refs (rec_commands r))"

definition resolve_recording ::
  "bool \<Rightarrow> 'h resource_tables \<Rightarrow> 'w recording \<Rightarrow> response + ('w, 'h) resolved list" where
  "resolve_recording oc t r = collect_res (resolve_encoder_command oc t) (rec_commands r)"

text \<open>What the server answers to a submission, from the tables and the payload alone.\<close>

definition plan_payload ::
  "('w, 'h, 'g) server \<Rightarrow> 'h resource_tables \<Rightarrow> bytes \<Rightarrow> response + 'w recording \<times> ('w, 'h) resolved list" where
  "plan_payload srv t payload =
     (case decode_recording (srv_recordings srv) payload of
        Inl e \<Rightarrow> Inl (RespError InvalidArgument (''recording decode failed: '' @ e))
      | Inr r \<Rightarrow> bind_res (resolve_recording (srv_overflow_checks srv) t r) (\<lambda>plan. Inr (r, plan)))"

definition submit_plan ::
  "('w, 'h, 'g) server \<Rightarrow> 'h resource_tables \<Rightarrow> bytes list \<Rightarrow>
     response + ('w recording \<times> ('w, 'h) resolved list) list" where
  "submit_plan srv t recordings = collect_res (plan_payload srv t) recordings"

subsection \<open>The code realises the plan\<close>

lemma andThen_lift_opt [simp]:
  "andThen (lift_opt None) f = panic"
  "andThen (lift_opt (Some a)) f = f a"
  by (simp_all add: fun_eq_iff andThen_def)

lemma realises_bind:
  assumes "\<And>a. realises (m a) (f a) run"
  shows "realises (andThen (lift_res r) m) (bind_res r f) run"
  using assms by (cases r) (simp_all add: realises_def)

lemma realises_map:
  assumes "realises m r (\<lambda>p. run (f p))"
  shows "realises m (bind_res r (\<lambda>p. Inr (f p))) run"
  using assms by (cases r) (simp_all add: realises_def)

lemma realises_run: "realises (run p) (Inr p) run"
  by (simp add: realises_def)

lemma realises_eq: "m = run p \<Longrightarrow> realises m (Inr p) run"
  by (simp add: realises_def)

lemma never_fails_gpu [simp]: "never_fails (gpu_create d c)" "never_fails (gpu_exec d x)"
  by (auto simp: never_fails_def gpu_call_defs lift_opt_def split: prod.splits option.splits)

lemma no_panic_gpu:
  assumes "never_panics d"
  shows "no_panic (gpu_create d c)" "no_panic (gpu_exec d x)"
proof -
  have "fst (gpu_create d c g) \<noteq> Panic" and "fst (gpu_exec d x g) \<noteq> Panic" for g
    using gpu_call_Ret(1) [OF assms, of c g] gpu_call_Ret(2) [OF assms, of x g] by auto
  then show "no_panic (gpu_create d c)" "no_panic (gpu_exec d x)"
    by (simp_all add: no_panic_def)
qed

lemma with_pass_eqs:
  "gpu_create d b g = (Panic, g1) \<Longrightarrow> with_pass d b body g = (Panic, g1)"
  "gpu_create d b g = (Ret pass, g1) \<Longrightarrow> body pass g1 = (Ret u, g2) \<Longrightarrow>
     with_pass d b body g = gpu_exec d (EndPass pass) g2"
  "gpu_create d b g = (Ret pass, g1) \<Longrightarrow> body pass g1 = (Fail e, g2) \<Longrightarrow>
     with_pass d b body g = andThen (gpu_exec d (EndPass pass)) (\<lambda>_. fail e) g2"
  "gpu_create d b g = (Ret pass, g1) \<Longrightarrow> body pass g1 = (Panic, g2) \<Longrightarrow>
     with_pass d b body g = (Panic, g2)"
  by (simp_all add: with_pass_def andThen_def)

lemma with_pass_cases [case_names begin_panic Ret Fail Panic]:
  obtains g1 where "gpu_create d b g = (Panic, g1)" and "with_pass d b body g = (Panic, g1)"
  | pass g1 g2 where "gpu_create d b g = (Ret pass, g1)" and "body pass g1 = (Ret (), g2)"
      and "with_pass d b body g = gpu_exec d (EndPass pass) g2"
  | pass g1 g2 e where "gpu_create d b g = (Ret pass, g1)" and "body pass g1 = (Fail e, g2)"
      and "with_pass d b body g = andThen (gpu_exec d (EndPass pass)) (\<lambda>_. fail e) g2"
  | pass g1 g2 where "gpu_create d b g = (Ret pass, g1)" and "body pass g1 = (Panic, g2)"
      and "with_pass d b body g = (Panic, g2)"
proof (cases "gpu_create d b g")
  case (Pair r g1)
  show ?thesis
  proof (cases r)
    case (Ret pass)
    obtain r2 g2 where body: "body pass g1 = (r2, g2)" by fastforce
    show ?thesis
      by (cases r2) (use Pair Ret body that(2-4) with_pass_eqs in fastforce)+
  qed (use Pair that(1) with_pass_eqs(1) gpu_call_never_Fail(1) in fastforce)+
qed

lemma fst_gpu_exec_unit: "fst (gpu_exec d x g) = Ret () \<or> fst (gpu_exec d x g) = Panic"
  by (auto simp: gpu_exec_def lift_opt_def split: prod.splits option.splits)

lemma fst_exec_fail:
  "fst (andThen (gpu_exec d x) (\<lambda>_. fail e) g) = Fail e \<or>
   fst (andThen (gpu_exec d x) (\<lambda>_. fail e) g) = Panic"
  using fst_gpu_exec_unit [of d x g] by (cases "gpu_exec d x g") (auto simp: andThen_def)

lemma with_pass_Panic_or:
  "fst (with_pass d b body g) = Panic \<or>
   (\<exists>pass g1. fst (with_pass d b body g) = fst (body pass g1))"
proof (cases rule: with_pass_cases [of d b g body])
  case (Ret pass g1 g2)
  then have "fst (with_pass d b body g) = Panic \<or> fst (with_pass d b body g) = fst (body pass g1)"
    using fst_gpu_exec_unit [of d "EndPass pass" g2] by auto
  then show ?thesis by blast
next
  case (Fail pass g1 g2 e)
  then have "fst (with_pass d b body g) = Panic \<or> fst (with_pass d b body g) = fst (body pass g1)"
    using fst_exec_fail [of d "EndPass pass" e g2] by auto
  then show ?thesis by blast
qed simp_all

lemma realises_with_pass:
  assumes "\<And>pass. realises (body pass) r (run pass)"
  shows "realises (with_pass d b body) r (\<lambda>p. with_pass d b (\<lambda>pass. run pass p))"
proof (cases r)
  case (Inl e)
  have "fst (with_pass d b body g) = Fail e \<or> fst (with_pass d b body g) = Panic" for g
    using with_pass_Panic_or [of d b body g] realises_Inl [OF assms Inl] by metis
  with Inl show ?thesis by (simp add: realises_def)
next
  case (Inr p)
  then have "body = (\<lambda>pass. run pass p)"
    using realises_Inr [OF assms Inr] by (simp add: fun_eq_iff)
  with Inr show ?thesis by (simp add: realises_def)
qed

lemma never_fails_with_pass:
  assumes "\<And>pass. never_fails (body pass)"
  shows "never_fails (with_pass d b body)"
  unfolding never_fails_def
proof (intro allI)
  fix g e
  have "fst (body pass g1) \<noteq> Fail e" for pass g1
    using assms by (simp add: never_fails_def)
  then show "fst (with_pass d b body g) \<noteq> Fail e"
    using with_pass_Panic_or [of d b body g] by (metis flow.distinct(5))
qed

lemma never_fails_issue [simp]: "never_fails (issue_in_pass d pass c)" "never_fails (issue_resolved d enc p)"
  by (auto simp: issue_in_pass_def intro!: never_fails_andThen)
    (cases p; auto simp: issue_in_pass_def intro!: never_fails_with_pass never_fails_for_each never_fails_andThen)

lemma realises_compute:
  "realises (replay_compute_command srv t pass c) (resolve_compute_command t c)
     (issue_in_pass (srv_device srv) pass)"
  by (cases c) (auto simp: issue_in_pass_def intro!: realises_bind realises_eq)

lemma realises_render:
  fixes srv :: "('w, 'h, 'g) server"
  shows "realises (replay_render_command srv t pass c)
     (resolve_render_command (srv_overflow_checks srv) t c) (issue_in_pass (srv_device srv) pass)"
proof (cases c)
  case (RSetVertexBuffer slot buf off len)
  have "andThen (lift_opt (slice_of oc b off len)) (\<lambda>sl. gpu_exec d (PassSetVertexBuffer pass slot sl))
      = issue_in_pass d pass (\<lambda>pass. map_option (PassSetVertexBuffer pass slot) (slice_of oc b off len))"
    for oc b and d :: "('w, 'h, 'g) wgpu"
    by (cases "slice_of oc b off len") (simp_all add: issue_in_pass_def)
  then show ?thesis
    by (simp add: RSetVertexBuffer) (intro realises_bind realises_eq, blast)
next
  case (RSetIndexBuffer buf format off len)
  have "andThen (lift_opt (slice_of oc b off len)) (\<lambda>sl. gpu_exec d (PassSetIndexBuffer pass sl format))
      = issue_in_pass d pass (\<lambda>pass. map_option (\<lambda>sl. PassSetIndexBuffer pass sl format) (slice_of oc b off len))"
    for oc b and d :: "('w, 'h, 'g) wgpu"
    by (cases "slice_of oc b off len") (simp_all add: issue_in_pass_def)
  then show ?thesis
    by (simp add: RSetIndexBuffer) (intro realises_bind realises_eq, blast)
qed (auto simp: issue_in_pass_def intro!: realises_bind realises_eq)

lemma realises_encoder:
  "realises (replay_encoder_command srv t enc c)
     (resolve_encoder_command (srv_overflow_checks srv) t c) (issue_resolved (srv_device srv) enc)"
proof (cases c)
  case (BeginComputePass label commands)
  then show ?thesis
    by (auto intro!: realises_map realises_with_pass realises_for_each realises_compute)
next
  case (BeginRenderPass label colors depth commands)
  then show ?thesis
    by (auto intro!: realises_bind realises_map realises_with_pass realises_for_each realises_render)
qed (auto intro!: realises_bind realises_eq)

lemma realises_commands:
  "realises (for_each (replay_encoder_command srv t enc) (rec_commands r))
     (resolve_recording (srv_overflow_checks srv) t r) (for_each (issue_resolved (srv_device srv) enc))"
  unfolding resolve_recording_def by (intro realises_for_each realises_encoder never_fails_issue)

subsection \<open>A plan exists when every reference is known\<close>

lemma ex_Inr_bind: "(\<exists>b. bind_res r f = Inr b) \<longleftrightarrow> (\<exists>a. r = Inr a \<and> (\<exists>b. f a = Inr b))"
  by (cases r) auto

lemma ex_Inr_collect: "(\<exists>ys. collect_res f xs = Inr ys) \<longleftrightarrow> (\<forall>x \<in> set xs. \<exists>y. f x = Inr y)"
  by (induction xs) (auto simp: ex_Inr_bind)

lemma ex_Inr_lookup: "(\<exists>h. lookup_in kind m i = Inr h) \<longleftrightarrow> m i \<noteq> None"
  by auto

lemmas ex_Inr = ex_Inr_bind ex_Inr_collect ex_Inr_lookup

lemma resolve_compute_ok:
  "(\<exists>k. resolve_compute_command t c = Inr k) \<longleftrightarrow> (\<forall>r \<in> set (compute_refs c). knows t r)"
  by (cases c) (auto simp: ex_Inr)

lemma resolve_render_ok:
  "(\<exists>k. resolve_render_command oc t c = Inr k) \<longleftrightarrow> (\<forall>r \<in> set (render_refs c). knows t r)"
  by (cases c) (auto simp: ex_Inr)

lemma color_attachment_ok:
  "(\<exists>a. color_attachment_of t c = Inr a) \<longleftrightarrow> (\<forall>r \<in> set (color_refs c). knows t r)"
  by (auto simp: color_attachment_of_def color_refs_def ex_Inr split: option.splits)

lemma depth_attachment_ok:
  "(\<exists>a. depth_attachment_of t c = Inr a) \<longleftrightarrow> (\<forall>r \<in> set (depth_refs c). knows t r)"
  by (auto simp: depth_attachment_of_def depth_refs_def ex_Inr split: option.splits)

lemma image_copy_ok:
  "(\<exists>a. lookup_image_copy_buffer t cb = Inr a) \<longleftrightarrow> knows t (RBuffer (icb_buffer cb))"
  "(\<exists>a. lookup_image_copy_texture t ct = Inr a) \<longleftrightarrow> knows t (RTexture (ict_texture ct))"
  by (auto simp: lookup_image_copy_buffer_def lookup_image_copy_texture_def ex_Inr)

lemma resolve_encoder_ok:
  "(\<exists>p. resolve_encoder_command oc t c = Inr p) \<longleftrightarrow> (\<forall>r \<in> set (encoder_refs c). knows t r)"
proof (cases c)
  case (CopyBufferToTexture source dest copy_size)
  then show ?thesis
    using image_copy_ok(1) [of t source] image_copy_ok(2) [of t dest] by (auto simp: ex_Inr)
next
  case (CopyTextureToBuffer source dest copy_size)
  then show ?thesis
    using image_copy_ok(1) [of t dest] image_copy_ok(2) [of t source] by (auto simp: ex_Inr)
next
  case (BeginComputePass label commands)
  then show ?thesis
    by (simp add: ex_Inr_bind ex_Inr_collect resolve_compute_ok)
next
  case (BeginRenderPass label colors depth commands)
  then have "(\<exists>p. resolve_encoder_command oc t c = Inr p) \<longleftrightarrow>
      (\<exists>cs. collect_res (color_attachment_of t) colors = Inr cs) \<and>
      (\<exists>d. depth_attachment_of t depth = Inr d) \<and>
      (\<exists>ks. collect_res (resolve_render_command oc t) commands = Inr ks)"
    by (auto simp: bind_res_eq_Inr)
  also have "\<dots> \<longleftrightarrow> (\<forall>r \<in> set (encoder_refs c). knows t r)"
    using BeginRenderPass
    by (auto simp: ex_Inr_collect color_attachment_ok depth_attachment_ok resolve_render_ok)
  finally show ?thesis .
qed (auto simp: ex_Inr)

lemma resolve_recording_ok:
  "(\<exists>ps. resolve_recording oc t r = Inr ps) \<longleftrightarrow> (\<forall>x \<in> set (recording_refs r). knows t x)"
  by (auto simp: resolve_recording_def recording_refs_def ex_Inr_collect resolve_encoder_ok)

text \<open>A submission is accepted when every payload decodes to a recording with known references.\<close>

definition submittable ::
  "('w, 'h, 'g) server \<Rightarrow> 'h resource_tables \<Rightarrow> bytes \<Rightarrow> bool" where
  "submittable srv t payload =
     (case decode_recording (srv_recordings srv) payload of
        Inl e \<Rightarrow> False
      | Inr r \<Rightarrow> list_all (knows t) (recording_refs r))"

lemma plan_payload_ok: "(\<exists>p. plan_payload srv t b = Inr p) \<longleftrightarrow> submittable srv t b"
proof (cases "decode_recording (srv_recordings srv) b")
  case (Inr r)
  then show ?thesis
    using ex_Inr_bind [of "resolve_recording (srv_overflow_checks srv) t r" "\<lambda>plan. Inr (r, plan)"]
    by (simp add: plan_payload_def submittable_def resolve_recording_ok list_all_iff)
qed (simp add: plan_payload_def submittable_def)

lemma submit_plan_ok:
  "(\<exists>p. submit_plan srv t recordings = Inr p) \<longleftrightarrow> (\<forall>b \<in> set recordings. submittable srv t b)"
  unfolding submit_plan_def ex_Inr_collect plan_payload_ok ..

subsection \<open>Absence of panics\<close>

lemma no_panic_slice [simp]: "no_panic (lift_opt (slice_of False b off len))"
  by (simp add: slice_of_def add_u64_def split: option.split)

lemma no_panic_with_pass:
  assumes "never_panics d" and "\<And>pass. no_panic (body pass)"
  shows "no_panic (with_pass d b body)"
  unfolding no_panic_def
proof
  fix g
  have gpu: "fst (gpu_create d c g) \<noteq> Panic" "fst (gpu_exec d x g) \<noteq> Panic" for c x g
    using no_panic_gpu [OF assms(1)] by (simp_all add: no_panic_def)
  have body: "fst (body pass g) \<noteq> Panic" for pass g
    using assms(2) by (simp add: no_panic_def)
  show "fst (with_pass d b body g) \<noteq> Panic"
  proof (cases rule: with_pass_cases [of d b g body])
    case (begin_panic g1)
    then show ?thesis using gpu(1) [of b g] by simp
  next
    case (Fail pass g1 g2 e)
    then show ?thesis
      using gpu(2) [of "EndPass pass" g2]
      by (cases "gpu_exec d (EndPass pass) g2") (auto simp: andThen_def split: flow.splits)
  next
    case (Panic pass g1 g2)
    then show ?thesis using body [of pass g1] by simp
  qed (use gpu(2) in simp)
qed

lemma no_panic_encoder:
  assumes "never_panics (srv_device srv)" and "\<not> srv_overflow_checks srv"
  shows "no_panic (replay_encoder_command srv t enc c)"
proof -
  have gpu: "no_panic (gpu_exec (srv_device srv) x)" for x
    using no_panic_gpu [OF assms(1)] by blast
  have "no_panic (replay_compute_command srv t pass k)" for pass k
    by (cases k) (auto intro!: no_panic_andThen gpu)
  moreover have "no_panic (replay_render_command srv t pass k)" for pass k
    by (cases k) (auto intro!: no_panic_andThen gpu simp: assms(2))
  ultimately show ?thesis
    by (cases c) (auto intro!: no_panic_andThen gpu no_panic_with_pass [OF assms(1)] no_panic_for_each)
qed

lemma no_panic_commands:
  assumes "never_panics (srv_device srv)" and "\<not> srv_overflow_checks srv"
  shows "no_panic (for_each (replay_encoder_command srv t enc) cs)"
  by (intro no_panic_for_each no_panic_encoder assms)

subsection \<open>Submission against its plan\<close>

definition issue_recording ::
  "('w, 'h, 'g) wgpu \<Rightarrow> 'w recording \<Rightarrow> ('w, 'h) resolved list \<Rightarrow> ('g, response, 'h) step" where
  "issue_recording d r plan =
     andThen (gpu_create d (MkCommandEncoder (rec_label r))) (\<lambda>enc.
     andThen (for_each (issue_resolved d enc) plan) (\<lambda>_.
       gpu_create d (FinishEncoder enc)))"

fun issue_plans ::
  "('w, 'h, 'g) wgpu \<Rightarrow> ('w recording \<times> ('w, 'h) resolved list) list \<Rightarrow> 'h list \<Rightarrow>
     ('g, response, 'h list) step" where
  "issue_plans d [] cbs = ret cbs"
| "issue_plans d ((r, plan) # ps) cbs =
     andThen (issue_recording d r plan) (\<lambda>cb. issue_plans d ps (cbs @ [cb]))"

definition issue_submission ::
  "('w, 'h, 'g) wgpu \<Rightarrow> ('w recording \<times> ('w, 'h) resolved list) list \<Rightarrow> ('g, response, response) step" where
  "issue_submission d ps =
     andThen (issue_plans d ps []) (\<lambda>cbs. andThen (gpu_exec d (QueueSubmit cbs)) (\<lambda>_. ret RespOk))"

text \<open>
  An engine step that runs \<open>m\<close> on the device and otherwise at most poisons the lock, by panicking.
\<close>

definition runs_on_gpu :: "(('h, 'g) engine, 'e, 'a) step \<Rightarrow> ('g, 'e, 'a) step \<Rightarrow> ('h, 'g) engine \<Rightarrow> bool" where
  "runs_on_gpu n m s \<longleftrightarrow>
     (\<exists>p. n s = (fst (m (eng_gpu s)), s\<lparr>eng_gpu := snd (m (eng_gpu s)), eng_poisoned := p\<rparr>)
        \<and> (fst (m (eng_gpu s)) \<noteq> Panic \<longrightarrow> p = eng_poisoned s))"

lemma runs_on_gpu_on_gpu: "runs_on_gpu (on_gpu m) m s"
  by (cases "m (eng_gpu s)") (auto simp: runs_on_gpu_def on_gpu_def intro!: exI [of _ "eng_poisoned s"])

lemma runs_on_gpu_locked:
  assumes "\<not> eng_poisoned s" and "runs_on_gpu (body (eng_tables s)) m s"
  shows "runs_on_gpu (locked body) m s"
proof (cases "m (eng_gpu s)")
  case (Pair r g)
  with assms show ?thesis
    by (cases r) (auto simp: runs_on_gpu_def locked_def)
qed

lemma runs_on_gpu_andThen:
  assumes "runs_on_gpu n m s"
    and "\<And>a g. m (eng_gpu s) = (Ret a, g) \<Longrightarrow> runs_on_gpu (n' a) (m' a) (s\<lparr>eng_gpu := g\<rparr>)"
  shows "runs_on_gpu (andThen n n') (andThen m m') s"
proof (cases "m (eng_gpu s)")
  case (Pair r g)
  show ?thesis
  proof (cases r)
    case (Ret a)
    then have "n s = (Ret a, s\<lparr>eng_gpu := g\<rparr>)"
      using assms(1) Pair by (auto simp: runs_on_gpu_def)
    moreover have "runs_on_gpu (n' a) (m' a) (s\<lparr>eng_gpu := g\<rparr>)"
      using assms(2) Pair Ret by blast
    ultimately show ?thesis
      using Pair Ret by (auto simp: runs_on_gpu_def andThen_def)
  qed (use assms(1) Pair in \<open>auto simp: runs_on_gpu_def andThen_def\<close>)
qed

lemma runs_on_gpu_fail: "runs_on_gpu (fail e) (fail e) s"
  by (auto simp: runs_on_gpu_def intro!: exI [of _ "eng_poisoned s"])

lemma runs_on_gpu_ret: "runs_on_gpu (ret a) (ret a) s"
  by (auto simp: runs_on_gpu_def intro!: exI [of _ "eng_poisoned s"])

text \<open>The submission as a step of the device alone, with the tables it sees fixed.\<close>

definition replay_with ::
  "('w, 'h, 'g) server \<Rightarrow> 'h resource_tables \<Rightarrow> 'w recording \<Rightarrow> ('g, response, 'h) step" where
  "replay_with srv t r =
     andThen (gpu_create (srv_device srv) (MkCommandEncoder (rec_label r))) (\<lambda>enc.
     andThen (for_each (replay_encoder_command srv t enc) (rec_commands r)) (\<lambda>_.
       gpu_create (srv_device srv) (FinishEncoder enc)))"

fun build_with ::
  "('w, 'h, 'g) server \<Rightarrow> 'h resource_tables \<Rightarrow> bytes list \<Rightarrow> 'h list \<Rightarrow> ('g, response, 'h list) step" where
  "build_with srv t [] cbs = ret cbs"
| "build_with srv t (payload # recordings) cbs =
     (case decode_recording (srv_recordings srv) payload of
        Inl e \<Rightarrow> fail (RespError InvalidArgument (''recording decode failed: '' @ e))
      | Inr r \<Rightarrow> andThen (replay_with srv t r) (\<lambda>cb. build_with srv t recordings (cbs @ [cb])))"

definition submit_with ::
  "('w, 'h, 'g) server \<Rightarrow> 'h resource_tables \<Rightarrow> bytes list \<Rightarrow> ('g, response, response) step" where
  "submit_with srv t recordings =
     andThen (build_with srv t recordings []) (\<lambda>cbs.
       andThen (gpu_exec (srv_device srv) (QueueSubmit cbs)) (\<lambda>_. ret RespOk))"

lemma replay_recording_on_gpu:
  "\<not> eng_poisoned s \<Longrightarrow> runs_on_gpu (replay_recording srv r) (replay_with srv (eng_tables s) r) s"
  unfolding replay_recording_def replay_with_def
  by (intro runs_on_gpu_andThen runs_on_gpu_locked runs_on_gpu_on_gpu) (simp_all add: runs_on_gpu_on_gpu)

lemma build_command_buffers_on_gpu:
  "\<not> eng_poisoned s \<Longrightarrow>
     runs_on_gpu (build_command_buffers srv recordings cbs) (build_with srv (eng_tables s) recordings cbs) s"
proof (induction recordings arbitrary: cbs s)
  case Nil
  then show ?case by (simp add: runs_on_gpu_ret del: step_simps)
next
  case (Cons payload recordings)
  have "runs_on_gpu (build_command_buffers srv recordings cbs')
      (build_with srv (eng_tables s) recordings cbs') (s\<lparr>eng_gpu := g\<rparr>)" for g cbs'
    using Cons.IH [of "s\<lparr>eng_gpu := g\<rparr>"] Cons.prems by simp
  then show ?case
    by (auto split: sum.split intro!: runs_on_gpu_andThen replay_recording_on_gpu runs_on_gpu_fail Cons.prems
        simp del: step_simps)
qed

lemma realises_after:
  assumes "never_fails m" and "\<And>a. realises (n a) r (run a)"
  shows "realises (andThen m n) r (\<lambda>p. andThen m (\<lambda>a. run a p))"
proof (cases r)
  case (Inl e)
  then show ?thesis
    using realises_Inl [OF assms(2) Inl] andThen_never_fails_stops [OF assms(1), of n e]
    by (simp add: realises_def)
next
  case (Inr p)
  then have "n = (\<lambda>a. run a p)"
    using realises_Inr [OF assms(2) Inr] by (simp add: fun_eq_iff)
  with Inr show ?thesis by (simp add: realises_def)
qed

lemma realises_before:
  assumes "realises m r run"
  shows "realises (andThen m n) r (\<lambda>p. andThen (run p) n)"
  using assms by (cases r) (simp_all add: realises_def andThen_stops)

lemma realises_replay_with:
  "realises (replay_with srv t r) (resolve_recording (srv_overflow_checks srv) t r)
     (issue_recording (srv_device srv) r)"
  unfolding replay_with_def issue_recording_def
  by (intro realises_after realises_before realises_commands never_fails_gpu)

lemma never_fails_issue_recording: "never_fails (issue_recording d r plan)"
  unfolding issue_recording_def
  by (intro never_fails_andThen never_fails_for_each never_fails_gpu never_fails_issue)

lemma realises_build_with:
  "realises (build_with srv t recordings cbs) (submit_plan srv t recordings)
     (\<lambda>ps. issue_plans (srv_device srv) ps cbs)"
proof (induction recordings arbitrary: cbs)
  case Nil
  then show ?case by (simp add: submit_plan_def realises_def del: step_simps)
next
  case (Cons payload recordings)
  show ?case
  proof (cases "decode_recording (srv_recordings srv) payload")
    case (Inl e)
    then show ?thesis by (simp add: submit_plan_def plan_payload_def realises_def)
  next
    case r: (Inr r)
    show ?thesis
    proof (cases "resolve_recording (srv_overflow_checks srv) t r")
      case (Inl e)
      then show ?thesis
        using realises_Inl [OF realises_replay_with Inl] r
        by (simp add: submit_plan_def plan_payload_def realises_def andThen_stops)
    next
      case (Inr plan)
      then have "replay_with srv t r = issue_recording (srv_device srv) r plan"
        by (rule realises_Inr [OF realises_replay_with])
      then have "realises (build_with srv t (payload # recordings) cbs) (submit_plan srv t recordings)
          (\<lambda>ps. issue_plans (srv_device srv) ((r, plan) # ps) cbs)"
        using realises_after [OF never_fails_issue_recording Cons.IH, of "srv_device srv" r plan] r by simp
      then have "realises (build_with srv t (payload # recordings) cbs)
          (bind_res (submit_plan srv t recordings) (\<lambda>ps. Inr ((r, plan) # ps)))
          (\<lambda>ps. issue_plans (srv_device srv) ps cbs)"
        by (rule realises_map [where f = "\<lambda>ps. (r, plan) # ps" and run = "\<lambda>ps. issue_plans (srv_device srv) ps cbs"])
      with Inr r show ?thesis
        by (simp add: submit_plan_def plan_payload_def)
    qed
  qed
qed

lemma never_fails_issue_plans: "never_fails (issue_plans d ps cbs)"
  by (induction d ps cbs rule: issue_plans.induct)
    (auto intro!: never_fails_andThen never_fails_issue_recording simp del: step_simps)

lemma realises_submit_with:
  "realises (submit_with srv t recordings) (submit_plan srv t recordings) (issue_submission (srv_device srv))"
  unfolding submit_with_def issue_submission_def [abs_def]
  by (intro realises_before realises_build_with)

lemma never_fails_issue_submission: "never_fails (issue_submission d ps)"
  unfolding issue_submission_def
  by (intro never_fails_andThen never_fails_issue_plans) (simp_all del: step_simps)

lemma no_panic_submit_with:
  assumes "never_panics (srv_device srv)" and "\<not> srv_overflow_checks srv"
  shows "no_panic (submit_with srv t recordings)"
proof -
  have "no_panic (build_with srv t recordings cbs)" for cbs
  proof (induction recordings arbitrary: cbs)
    case (Cons payload recordings)
    then show ?case
      by (auto simp: replay_with_def simp del: step_simps split: sum.split
          intro!: no_panic_andThen no_panic_gpu no_panic_commands assms)
  qed (simp del: step_simps)
  then show ?thesis
    unfolding submit_with_def
    by (auto simp del: step_simps intro!: no_panic_andThen no_panic_gpu assms)
qed

text \<open>The answer to a submission and the state it leaves.\<close>

lemma submit_on_gpu:
  assumes "\<not> eng_poisoned s"
  shows "\<exists>p. submit srv recordings s =
      (case submit_with srv (eng_tables s) recordings (eng_gpu s) of
         (Ret r, g) \<Rightarrow> (Ret r, s\<lparr>eng_gpu := g\<rparr>)
       | (Fail r, g) \<Rightarrow> (Ret r, s\<lparr>eng_gpu := g\<rparr>)
       | (Panic, g) \<Rightarrow> (Panic, s\<lparr>eng_gpu := g, eng_poisoned := p\<rparr>))"
proof -
  have "runs_on_gpu (andThen (build_command_buffers srv recordings []) (\<lambda>cbs.
       andThen (on_gpu (gpu_exec (srv_device srv) (QueueSubmit cbs))) (\<lambda>_. ret RespOk)))
     (submit_with srv (eng_tables s) recordings) s"
    unfolding submit_with_def
    by (intro runs_on_gpu_andThen build_command_buffers_on_gpu assms runs_on_gpu_on_gpu runs_on_gpu_ret)
  then show ?thesis
    unfolding submit_def
    by (cases "submit_with srv (eng_tables s) recordings (eng_gpu s)";
        cases "fst (submit_with srv (eng_tables s) recordings (eng_gpu s))")
      (auto simp: runs_on_gpu_def answer_def)
qed

end
