(* ===== verification/Replay_Trace.thy ===== *)
theory Replay_Trace
  imports Replay
begin

section \<open>What a submission does to the device\<close>

text \<open>
  Properties of the sequence of wgpu calls a submission makes, read off the log of a
  \<open>logged\<close> device.

  wgpu locks a command encoder while one of its passes is open, accepts pass commands only on the
  open pass and nothing on a finished encoder. \<open>phase_step\<close> is that discipline as an automaton
  over the calls; a log has a phase when it never violates it.
\<close>

subsection \<open>The discipline of encoders and passes\<close>

datatype 'h phase = Idle | Encoding 'h | PassOpen 'h 'h

fun exec_encoder :: "('w, 'h) exec_call \<Rightarrow> 'h option" where
  "exec_encoder (EncCopyBufferToBuffer e _ _ _ _ _) = Some e"
| "exec_encoder (EncClearBuffer e _ _ _) = Some e"
| "exec_encoder (EncCopyBufferToTexture e _ _ _) = Some e"
| "exec_encoder (EncCopyTextureToBuffer e _ _ _) = Some e"
| "exec_encoder _ = None"

fun exec_pass :: "('w, 'h) exec_call \<Rightarrow> 'h option" where
  "exec_pass (PassSetPipeline p _) = Some p"
| "exec_pass (PassSetBindGroup p _ _ _) = Some p"
| "exec_pass (PassSetPushConstants p _ _) = Some p"
| "exec_pass (PassDispatchWorkgroups p _ _ _) = Some p"
| "exec_pass (PassDispatchWorkgroupsIndirect p _ _) = Some p"
| "exec_pass (PassSetVertexBuffer p _ _) = Some p"
| "exec_pass (PassSetIndexBuffer p _ _) = Some p"
| "exec_pass (PassDraw p _ _) = Some p"
| "exec_pass (PassDrawIndexed p _ _ _) = Some p"
| "exec_pass (EndPass p) = Some p"
| "exec_pass _ = None"

definition begin_pass_on :: "'h phase \<Rightarrow> 'h \<Rightarrow> 'h option \<Rightarrow> 'h phase option" where
  "begin_pass_on ph e r =
     (if ph = Encoding e then Some (case r of Some p \<Rightarrow> PassOpen e p | None \<Rightarrow> ph) else None)"

fun create_phase :: "'h phase \<Rightarrow> ('w, 'h) create_call \<Rightarrow> 'h option \<Rightarrow> 'h phase option" where
  "create_phase ph (MkCommandEncoder _) r =
     (case ph of PassOpen _ _ \<Rightarrow> None | _ \<Rightarrow> Some (case r of Some e \<Rightarrow> Encoding e | None \<Rightarrow> ph))"
| "create_phase ph (MkComputePass e _) r = begin_pass_on ph e r"
| "create_phase ph (MkRenderPass e _ _ _) r = begin_pass_on ph e r"
| "create_phase ph (FinishEncoder e) r = (if ph = Encoding e then Some Idle else None)"
| "create_phase ph _ r = Some ph"

definition exec_phase :: "'h phase \<Rightarrow> ('w, 'h) exec_call \<Rightarrow> 'h phase option" where
  "exec_phase ph c =
     (case ph of
        PassOpen e p \<Rightarrow>
          (if exec_pass c = Some p then Some (if c = EndPass p then Encoding e else ph) else None)
      | Encoding e \<Rightarrow>
          (if exec_pass c = None \<and> exec_encoder c \<in> {None, Some e} then Some ph else None)
      | Idle \<Rightarrow> (if exec_pass c = None \<and> exec_encoder c = None then Some ph else None))"

fun phase_step :: "'h phase \<Rightarrow> ('w, 'h) gpu_event \<Rightarrow> 'h phase option" where
  "phase_step ph (Created c r) = create_phase ph c r"
| "phase_step ph (Executed c) = exec_phase ph c"
| "phase_step ph (MapAsync _) = Some ph"
| "phase_step ph (MappedRange _) = Some ph"

definition phase_of :: "('w, 'h) gpu_event list \<Rightarrow> 'h phase option" where
  "phase_of l = foldl (\<lambda>ph ev. Option.bind ph (\<lambda>ph. phase_step ph ev)) (Some Idle) l"

lemma phase_of_snoc [simp]: "phase_of (l @ [ev]) = Option.bind (phase_of l) (\<lambda>ph. phase_step ph ev)"
  by (simp add: phase_of_def)

lemma phase_of_Nil [simp]: "phase_of [] = Some Idle"
  by (simp add: phase_of_def)

subsection \<open>Triples of the calls of a logged device\<close>

text \<open>Predicates on the log, as predicates on the state of a logged device.\<close>

definition log_in :: "(('w, 'h) gpu_event list \<Rightarrow> bool) \<Rightarrow> 'g \<times> ('w, 'h) gpu_event list \<Rightarrow> bool" where
  "log_in P s = P (snd s)"

lemma log_in_simp [simp]: "log_in P (g, l) = P l"
  by (simp add: log_in_def)

lemma triple_logged_create:
  assumes "\<And>l h. P l \<Longrightarrow> Q h (l @ [Created c (Some h)])" and "\<And>l. P l \<Longrightarrow> X (l @ [Created c None])"
  shows "triple (log_in P) (gpu_create (logged d) c) (\<lambda>h. log_in (Q h)) F (log_in X)"
proof (rule tripleI)
  fix s r s'
  assume P: "log_in P s" and s': "gpu_create (logged d) c s = (r, s')"
  obtain g l where s: "s = (g, l)" by fastforce
  obtain h g' where "wg_create d c g = (h, g')" by fastforce
  then show "case r of Ret a \<Rightarrow> log_in (Q a) s' | Fail e \<Rightarrow> F s' | Panic \<Rightarrow> log_in X s'"
    using s' P assms by (cases h) (auto simp: s gpu_create_def logged_def lift_opt_def)
qed

lemma triple_logged_exec:
  assumes "\<And>l. P l \<Longrightarrow> Q (l @ [Executed c])" and "\<And>l. P l \<Longrightarrow> X (l @ [Executed c])"
  shows "triple (log_in P) (gpu_exec (logged d) c) (\<lambda>_. log_in Q) F (log_in X)"
proof (rule tripleI)
  fix s r s'
  assume P: "log_in P s" and s': "gpu_exec (logged d) c s = (r, s')"
  obtain g l where s: "s = (g, l)" by fastforce
  obtain u g' where "wg_exec d c g = (u, g')" by fastforce
  then show "case r of Ret a \<Rightarrow> log_in Q s' | Fail e \<Rightarrow> F s' | Panic \<Rightarrow> log_in X s'"
    using s' P assms by (cases u) (auto simp: s gpu_exec_def logged_def lift_opt_def)
qed

lemma triple_with_pass:
  assumes "triple P (gpu_create d b) B F X"
    and "\<And>p. triple (B p) (body p) (\<lambda>_. E p) (E p) X"
    and "\<And>p. triple (E p) (gpu_exec d (EndPass p)) (\<lambda>_. P) F X"
    and "\<And>s. P s \<Longrightarrow> F s"
  shows "triple P (with_pass d b body) (\<lambda>_. P) F X"
proof (rule tripleI)
  fix g r g'
  assume P: "P g" and run: "with_pass d b body g = (r, g')"
  show "case r of Ret a \<Rightarrow> P g' | Fail e \<Rightarrow> F g' | Panic \<Rightarrow> X g'"
  proof (cases rule: with_pass_cases [of d b g body])
    case (begin_panic g1)
    then show ?thesis using tripleD [OF assms(1) P] run by auto
  next
    case (Ret p g1 g2)
    have "B p g1" using tripleD [OF assms(1) P Ret(1)] by simp
    then have "E p g2" using tripleD [OF assms(2) _ Ret(2)] by simp
    then show ?thesis using tripleD [OF assms(3)] run Ret(3) by (cases r) force+
  next
    case (Fail p g1 g2 e)
    have "B p g1" using tripleD [OF assms(1) P Fail(1)] by simp
    then have "E p g2" using tripleD [OF assms(2) _ Fail(2)] by simp
    moreover have "triple (E p) (andThen (gpu_exec d (EndPass p)) (\<lambda>_. fail e)) (\<lambda>_. P) F X"
      by (intro triple_andThen [OF assms(3)] triple_fail assms(4))
    ultimately show ?thesis using tripleD run Fail(3) by (cases r) force+
  next
    case (Panic p g1 g2)
    have "B p g1" using tripleD [OF assms(1) P Panic(1)] by simp
    then show ?thesis using tripleD [OF assms(2) _ Panic(2)] run Panic(3) by auto
  qed
qed

subsection \<open>Replay keeps the discipline\<close>

definition at_phase :: "'h phase \<Rightarrow> ('w, 'h) gpu_event list \<Rightarrow> bool" where
  "at_phase ph l \<longleftrightarrow> phase_of l = Some ph"

definition between_passes :: "('w, 'h) gpu_event list \<Rightarrow> bool" where
  "between_passes l \<longleftrightarrow> (\<exists>ph. phase_of l = Some ph \<and> (\<forall>e p. ph \<noteq> PassOpen e p))"

definition legal :: "('w, 'h) gpu_event list \<Rightarrow> bool" where
  "legal l \<longleftrightarrow> phase_of l \<noteq> None"

lemmas phase_defs = at_phase_def between_passes_def legal_def exec_phase_def begin_pass_on_def

lemma triple_pass_exec:
  assumes "exec_pass c = Some p" and "c \<noteq> EndPass p"
  shows "triple (log_in (at_phase (PassOpen e p))) (gpu_exec (logged d) c)
     (\<lambda>_. log_in (at_phase (PassOpen e p))) F (log_in legal)"
  using assms by (intro triple_logged_exec) (simp_all add: phase_defs)

lemma triple_encoder_exec:
  assumes "exec_pass c = None" and "exec_encoder c = Some e"
  shows "triple (log_in (at_phase (Encoding e))) (gpu_exec (logged d) c)
     (\<lambda>_. log_in (at_phase (Encoding e))) F (log_in legal)"
  using assms by (intro triple_logged_exec) (simp_all add: phase_defs)

lemma compute_command_in_pass:
  assumes "srv_device srv = logged d"
  shows "triple (log_in (at_phase (PassOpen e p))) (replay_compute_command srv t p c)
     (\<lambda>_. log_in (at_phase (PassOpen e p))) (log_in (at_phase (PassOpen e p))) (log_in legal)"
  by (cases c) (auto simp: assms simp del: step_simps intro!: triple_lookup triple_pass_exec)

lemma render_command_in_pass:
  assumes "srv_device srv = logged d"
  shows "triple (log_in (at_phase (PassOpen e p))) (replay_render_command srv t p c)
     (\<lambda>_. log_in (at_phase (PassOpen e p))) (log_in (at_phase (PassOpen e p))) (log_in legal)"
  by (cases c) (auto simp: assms log_in_def legal_def at_phase_def simp del: step_simps
      intro!: triple_lookup triple_checked triple_pass_exec)

lemma pass_brackets:
  assumes "\<And>l r. create_phase (Encoding e) b r = begin_pass_on (Encoding e) e r"
    and "\<And>p. triple (log_in (at_phase (PassOpen e p))) (body p)
           (\<lambda>_. log_in (at_phase (PassOpen e p))) (log_in (at_phase (PassOpen e p))) (log_in legal)"
  shows "triple (log_in (at_phase (Encoding e))) (with_pass (logged d) b body)
     (\<lambda>_. log_in (at_phase (Encoding e))) (log_in (at_phase (Encoding e))) (log_in legal)"
proof (rule triple_with_pass [where B = "\<lambda>p. log_in (at_phase (PassOpen e p))"
      and E = "\<lambda>p. log_in (at_phase (PassOpen e p))"])
  show "triple (log_in (at_phase (Encoding e))) (gpu_create (logged d) b)
      (\<lambda>p. log_in (at_phase (PassOpen e p))) (log_in (at_phase (Encoding e))) (log_in legal)"
    by (rule triple_logged_create) (simp_all add: phase_defs assms(1))
  show "triple (log_in (at_phase (PassOpen e p))) (gpu_exec (logged d) (EndPass p))
      (\<lambda>_. log_in (at_phase (Encoding e))) (log_in (at_phase (Encoding e))) (log_in legal)" for p
    by (rule triple_logged_exec) (simp_all add: phase_defs)
qed (use assms(2) in auto)

lemma encoder_command_discipline:
  assumes "srv_device srv = logged d"
  shows "triple (log_in (at_phase (Encoding e))) (replay_encoder_command srv t e c)
     (\<lambda>_. log_in (at_phase (Encoding e))) (log_in (at_phase (Encoding e))) (log_in legal)"
proof (cases c)
  case (BeginComputePass label commands)
  then show ?thesis
    by (auto simp: assms simp del: step_simps
        intro!: pass_brackets triple_for_each compute_command_in_pass)
next
  case (BeginRenderPass label colors depth commands)
  then show ?thesis
    by (auto simp: assms simp del: step_simps
        intro!: triple_lookup pass_brackets triple_for_each render_command_in_pass)
qed (auto simp: assms simp del: step_simps intro!: triple_lookup triple_encoder_exec)

lemma replay_with_discipline:
  assumes "srv_device srv = logged d"
  shows "triple (log_in between_passes) (replay_with srv t r)
     (\<lambda>_. log_in between_passes) (log_in between_passes) (log_in legal)"
  unfolding replay_with_def assms
proof (rule triple_andThen [where Q = "\<lambda>e. log_in (at_phase (Encoding e))"])
  show "triple (log_in between_passes) (gpu_create (logged d) (MkCommandEncoder (rec_label r)))
      (\<lambda>e. log_in (at_phase (Encoding e))) (log_in between_passes) (log_in legal)"
    by (rule triple_logged_create) (auto simp: phase_defs split: phase.split)
  fix e
  have "triple (log_in (at_phase (Encoding e))) (for_each (replay_encoder_command srv t e) (rec_commands r))
      (\<lambda>_. log_in (at_phase (Encoding e))) (log_in between_passes) (log_in legal)"
    by (rule triple_weaken [OF triple_for_each [OF encoder_command_discipline [OF assms]]])
      (auto simp: log_in_def phase_defs)
  moreover have "triple (log_in (at_phase (Encoding e))) (gpu_create (logged d) (FinishEncoder e))
      (\<lambda>_. log_in between_passes) (log_in between_passes) (log_in legal)"
    by (rule triple_logged_create) (auto simp: phase_defs)
  ultimately show "triple (log_in (at_phase (Encoding e)))
      (andThen (for_each (replay_encoder_command srv t e) (rec_commands r))
        (\<lambda>_. gpu_create (logged d) (FinishEncoder e)))
      (\<lambda>_. log_in between_passes) (log_in between_passes) (log_in legal)"
    by (rule triple_andThen)
qed

lemma submit_with_discipline:
  assumes "srv_device srv = logged d"
  shows "triple (log_in between_passes) (submit_with srv t recordings)
     (\<lambda>_. log_in between_passes) (log_in between_passes) (log_in legal)"
proof -
  have "triple (log_in between_passes) (build_with srv t recordings cbs)
     (\<lambda>_. log_in between_passes) (log_in between_passes) (log_in legal)" for cbs
  proof (induction recordings arbitrary: cbs)
    case Nil
    then show ?case by (simp add: triple_ret del: step_simps)
  next
    case (Cons payload recordings)
    then show ?case
      by (auto simp del: step_simps split: sum.split
          intro!: triple_andThen [OF replay_with_discipline [OF assms]] triple_fail)
  qed
  moreover have "triple (log_in between_passes) (gpu_exec (logged d) (QueueSubmit cbs))
      (\<lambda>_. log_in between_passes) (log_in between_passes) (log_in legal)" for cbs
    by (rule triple_logged_exec) (auto simp: phase_defs split: phase.splits)
  ultimately show ?thesis
    unfolding submit_with_def assms
    by (intro triple_andThen triple_ret)
qed

subsection \<open>Submission is all or nothing\<close>

text \<open>The lists of command buffers a log submits, and the command buffers it finishes.\<close>

fun submitted_by :: "('w, 'h) gpu_event \<Rightarrow> 'h list list" where
  "submitted_by (Executed (QueueSubmit cbs)) = [cbs]"
| "submitted_by _ = []"

fun finished_by :: "('w, 'h) gpu_event \<Rightarrow> 'h list" where
  "finished_by (Created (FinishEncoder _) (Some h)) = [h]"
| "finished_by _ = []"

definition submitted :: "('w, 'h) gpu_event list \<Rightarrow> 'h list list" where
  "submitted l = concat (map submitted_by l)"

definition finished :: "('w, 'h) gpu_event list \<Rightarrow> 'h list" where
  "finished l = concat (map finished_by l)"

lemma submitted_snoc [simp]: "submitted (l @ [ev]) = submitted l @ submitted_by ev"
  by (simp add: submitted_def)

lemma finished_snoc [simp]: "finished (l @ [ev]) = finished l @ finished_by ev"
  by (simp add: finished_def)

definition has_done :: "'h list list \<Rightarrow> 'h list \<Rightarrow> ('w, 'h) gpu_event list \<Rightarrow> bool" where
  "has_done sub fin l \<longleftrightarrow> submitted l = sub \<and> finished l = fin"

lemma triple_exec_has_done [triple_intros]:
  assumes "submitted_by (Executed c) = []"
  shows "triple (log_in (has_done sub fin)) (gpu_exec (logged d) c)
     (\<lambda>_. log_in (has_done sub fin)) F (log_in (has_done sub fin))"
  using assms by (intro triple_logged_exec) (auto simp: has_done_def)

lemma triple_create_has_done [triple_intros]:
  assumes "\<And>h. finished_by (Created c h) = []"
  shows "triple (log_in (has_done sub fin)) (gpu_create (logged d) c)
     (\<lambda>_. log_in (has_done sub fin)) F (log_in (has_done sub fin))"
  using assms by (intro triple_logged_create) (auto simp: has_done_def)

lemma commands_has_done:
  assumes "srv_device srv = logged d"
  shows "triple (log_in (has_done sub fin)) (replay_encoder_command srv t e c)
     (\<lambda>_. log_in (has_done sub fin)) (log_in (has_done sub fin)) (log_in (has_done sub fin))"
proof -
  have "triple (log_in (has_done sub fin)) (replay_compute_command srv t p k)
      (\<lambda>_. log_in (has_done sub fin)) (log_in (has_done sub fin)) (log_in (has_done sub fin))" for p k
    by (cases k) (auto simp: assms simp del: step_simps intro!: triple_lookup triple_checked triple_exec_has_done)
  moreover have "triple (log_in (has_done sub fin)) (replay_render_command srv t p k)
      (\<lambda>_. log_in (has_done sub fin)) (log_in (has_done sub fin)) (log_in (has_done sub fin))" for p k
    by (cases k) (auto simp: assms simp del: step_simps intro!: triple_lookup triple_checked triple_exec_has_done)
  ultimately show ?thesis
    by (cases c)
      (auto simp: assms simp del: step_simps intro!: triple_lookup triple_checked triple_for_each
          triple_exec_has_done triple_create_has_done triple_with_pass
        [where B = "\<lambda>_. log_in (has_done sub fin)" and E = "\<lambda>_. log_in (has_done sub fin)"])
qed

lemma replay_with_has_done:
  assumes "srv_device srv = logged d"
  shows "triple (log_in (has_done sub fin)) (replay_with srv t r)
     (\<lambda>h. log_in (has_done sub (fin @ [h]))) (log_in (\<lambda>l. submitted l = sub)) (\<lambda>_. True)"
  unfolding replay_with_def assms
proof (rule triple_andThen [where Q = "\<lambda>_. log_in (has_done sub fin)"])
  show "triple (log_in (has_done sub fin)) (gpu_create (logged d) (MkCommandEncoder (rec_label r)))
      (\<lambda>_. log_in (has_done sub fin)) (log_in (\<lambda>l. submitted l = sub)) (\<lambda>_. True)"
    by (rule triple_weaken [OF triple_create_has_done]) auto
  fix e
  have "triple (log_in (has_done sub fin)) (for_each (replay_encoder_command srv t e) (rec_commands r))
      (\<lambda>_. log_in (has_done sub fin)) (log_in (\<lambda>l. submitted l = sub)) (\<lambda>_. True)"
    by (rule triple_weaken [OF triple_for_each [OF commands_has_done [OF assms]]])
      (auto simp: log_in_def has_done_def)
  moreover have "triple (log_in (has_done sub fin)) (gpu_create (logged d) (FinishEncoder e))
      (\<lambda>h. log_in (has_done sub (fin @ [h]))) (log_in (\<lambda>l. submitted l = sub)) (log_in (\<lambda>_. True))"
    by (rule triple_logged_create) (simp_all add: has_done_def)
  then have "triple (log_in (has_done sub fin)) (gpu_create (logged d) (FinishEncoder e))
      (\<lambda>h. log_in (has_done sub (fin @ [h]))) (log_in (\<lambda>l. submitted l = sub)) (\<lambda>_. True)"
    by (rule triple_weaken) auto
  ultimately show "triple (log_in (has_done sub fin))
      (andThen (for_each (replay_encoder_command srv t e) (rec_commands r))
        (\<lambda>_. gpu_create (logged d) (FinishEncoder e)))
      (\<lambda>h. log_in (has_done sub (fin @ [h]))) (log_in (\<lambda>l. submitted l = sub)) (\<lambda>_. True)"
    by (rule triple_andThen)
qed

definition built :: "'h list list \<Rightarrow> 'h list \<Rightarrow> 'h list \<Rightarrow> nat \<Rightarrow> 'h list \<Rightarrow> ('w, 'h) gpu_event list \<Rightarrow> bool" where
  "built sub fin cbs n cbs' l \<longleftrightarrow>
     (\<exists>new. cbs' = cbs @ new \<and> length new = n \<and> has_done sub (fin @ new) l)"

lemma built_Suc:
  assumes "built sub (fin @ [h]) (cbs @ [h]) n cbs' l"
  shows "built sub fin cbs (Suc n) cbs' l"
proof -
  from assms obtain new where "cbs' = cbs @ (h # new)" and "length (h # new) = Suc n"
    and "has_done sub (fin @ (h # new)) l"
    by (auto simp: built_def)
  then show ?thesis
    unfolding built_def by blast
qed

lemma build_with_has_done:
  assumes "srv_device srv = logged d"
  shows "triple (log_in (has_done sub fin)) (build_with srv t recordings cbs)
     (\<lambda>cbs'. log_in (built sub fin cbs (length recordings) cbs'))
     (log_in (\<lambda>l. submitted l = sub)) (\<lambda>_. True)"
proof (induction recordings arbitrary: cbs fin)
  case Nil
  then show ?case
    by (simp del: step_simps) (rule triple_ret, simp add: log_in_def built_def)
next
  case (Cons payload recordings)
  show ?case
  proof (cases "decode_recording (srv_recordings srv) payload")
    case (Inl e)
    then show ?thesis
      by (simp del: step_simps) (rule triple_fail, simp add: log_in_def has_done_def)
  next
    case (Inr r)
    have "triple (log_in (has_done sub (fin @ [h]))) (build_with srv t recordings (cbs @ [h]))
       (\<lambda>cbs'. log_in (built sub fin cbs (length (payload # recordings)) cbs'))
       (log_in (\<lambda>l. submitted l = sub)) (\<lambda>_. True)" for h
    proof (rule triple_weaken [OF Cons.IH [of "fin @ [h]" "cbs @ [h]"]])
      fix cbs' and s :: "'c \<times> ('a, 'b) gpu_event list"
      assume "log_in (built sub (fin @ [h]) (cbs @ [h]) (length recordings) cbs') s"
      then show "log_in (built sub fin cbs (length (payload # recordings)) cbs') s"
        by (simp add: log_in_def built_Suc)
    qed auto
    with Inr show ?thesis
      by (auto simp del: step_simps intro!: triple_andThen [OF replay_with_has_done [OF assms]])
  qed
qed

lemma submit_with_has_done:
  assumes "srv_device srv = logged d"
  shows "triple (log_in (has_done sub fin)) (submit_with srv t recordings)
     (\<lambda>r. log_in (\<lambda>l. r = RespOk \<and> (\<exists>cbs. length cbs = length recordings \<and> has_done (sub @ [cbs]) (fin @ cbs) l)))
     (log_in (\<lambda>l. submitted l = sub)) (\<lambda>_. True)"
  unfolding submit_with_def assms
proof (rule triple_andThen [OF build_with_has_done [OF assms]])
  fix cbs
  let ?Q = "\<lambda>l. \<exists>cbs. length cbs = length recordings \<and> has_done (sub @ [cbs]) (fin @ cbs) l"
  have "triple (log_in (built sub fin [] (length recordings) cbs))
      (gpu_exec (logged d) (QueueSubmit cbs)) (\<lambda>_. log_in ?Q)
      (log_in (\<lambda>l. submitted l = sub)) (log_in (\<lambda>_. True))"
    by (rule triple_logged_exec) (auto simp: built_def has_done_def)
  then have "triple (log_in (built sub fin [] (length recordings) cbs))
      (gpu_exec (logged d) (QueueSubmit cbs)) (\<lambda>_. log_in ?Q)
      (log_in (\<lambda>l. submitted l = sub)) (\<lambda>_. True)"
    by (rule triple_weaken) auto
  then show "triple (log_in (built sub fin [] (length recordings) cbs))
      (andThen (gpu_exec (logged d) (QueueSubmit cbs)) (\<lambda>_. ret RespOk))
      (\<lambda>r. log_in (\<lambda>l. r = RespOk \<and> ?Q l)) (log_in (\<lambda>l. submitted l = sub)) (\<lambda>_. True)"
    by (rule triple_andThen) (rule triple_ret, simp add: log_in_def)
qed

subsection \<open>Refusals are errors\<close>

definition refuses :: "response + 'a \<Rightarrow> bool" where
  "refuses r \<longleftrightarrow> (\<forall>e. r = Inl e \<longrightarrow> (\<exists>code message. e = RespError code message))"

lemma refuses_bind: "refuses r \<Longrightarrow> (\<And>a. refuses (f a)) \<Longrightarrow> refuses (bind_res r f)"
  by (cases r) (auto simp: refuses_def)

lemma refuses_collect: "(\<And>x. refuses (f x)) \<Longrightarrow> refuses (collect_res f xs)"
  by (induction xs) (auto intro!: refuses_bind simp: refuses_def [of "Inr _"])

lemma refuses_pure: "refuses (Inr a)" "refuses (lookup_in kind m i)"
  by (auto simp: refuses_def lookup_in_eq_Inl unknown_resource_def)

lemmas refuses_intros = refuses_bind refuses_collect refuses_pure

lemma submit_plan_refuses: "refuses (submit_plan srv t recordings)"
proof -
  have "refuses (resolve_compute_command t c)" for c
    by (cases c) (auto intro!: refuses_intros)
  moreover have "refuses (resolve_render_command oc t c)" for oc c
    by (cases c) (auto intro!: refuses_intros)
  moreover have "refuses (color_attachment_of t a)" for a
    by (auto simp: color_attachment_of_def split: option.split intro!: refuses_intros)
  moreover have "refuses (depth_attachment_of t a)" for a
    by (auto simp: depth_attachment_of_def split: option.split intro!: refuses_intros)
  moreover have "refuses (lookup_image_copy_buffer t b)" "refuses (lookup_image_copy_texture t x)" for b x
    by (auto simp: lookup_image_copy_buffer_def lookup_image_copy_texture_def intro!: refuses_intros)
  ultimately have "refuses (resolve_encoder_command oc t c)" for oc c
    by (cases c) (auto intro!: refuses_intros)
  then have "refuses (plan_payload srv t b)" for b
    by (auto simp: plan_payload_def resolve_recording_def refuses_def [of "Inl _"] split: sum.split
        intro!: refuses_intros)
  then show ?thesis
    unfolding submit_plan_def by (intro refuses_collect)
qed

lemma issue_submission_Ret:
  assumes "issue_submission d ps g = (q, g')" and "q \<noteq> Panic"
  shows "q = Ret RespOk"
proof (cases q)
  case (Ret a)
  then show ?thesis using assms(1) by (auto simp: issue_submission_def andThen_eq_Ret)
next
  case (Fail e)
  then show ?thesis
    using assms(1) never_fails_issue_submission [of d ps] by (auto simp: never_fails_def) (metis fst_conv)
qed (use assms(2) in simp)

subsection \<open>Properties\<close>

text \<open>The server, recording and state the witnesses use.\<close>

definition copy_recording :: "nat recording" where
  "copy_recording =
     \<lparr>rec_label = None,
      rec_commands =
        [CopyBufferToBuffer (Id 1) 0 (Id 2) 0 16,
         BeginComputePass None [CSetPipeline (Id 1), CDispatchWorkgroups 4 1 1]]\<rparr>"

definition demo_server :: "(nat, nat, 'g) wgpu \<Rightarrow> bool \<Rightarrow> nat recording \<Rightarrow> (nat, nat, 'g) server" where
  "demo_server d oc r =
     \<lparr>srv_device = d, srv_recordings = table_bincode [(r, [1])], srv_overflow_checks = oc\<rparr>"

definition demo_engine :: "'g \<Rightarrow> (nat, 'g) engine" where
  "demo_engine g =
     \<lparr>eng_gpu = g,
      eng_tables = empty_tables\<lparr>buffers := [Id 1 \<mapsto> 10, Id 2 \<mapsto> 20], compute_pipelines := [Id 1 \<mapsto> 30]\<rparr>,
      eng_poisoned = False\<rparr>"

lemma demo_submittable:
  "submittable (demo_server d oc copy_recording) (eng_tables (demo_engine g)) [1]"
  by (simp add: submittable_def demo_server_def demo_engine_def copy_recording_def
      decode_recording_def table_bincode_def recording_refs_def)

lemma demo_server_simps [simp]:
  "srv_device (demo_server d oc r) = d" "srv_overflow_checks (demo_server d oc r) = oc"
  by (simp_all add: demo_server_def)

lemmas demo_eval =
  submit_def answer_def demo_server_def demo_engine_def copy_recording_def decode_recording_def
  table_bincode_def replay_recording_def andThen_def on_gpu_def locked_def gpu_call_defs
  good_device_def counting_device_def logged_def with_pass_def

text \<open>C6: the answer to a submission. On a device that does not panic, in a build without overflow
  checks, a submission returns; it leaves the tables and the lock as they were; its answer is
  \<open>Ok\<close> exactly when every payload decodes to a recording whose references are all in the tables,
  and otherwise it is the error of the first payload, command and reference, in the order of the
  recordings, that does not decode or is unknown.\<close>

theorem submit_answer:
  assumes "\<not> eng_poisoned s" and "never_panics (srv_device srv)" and "\<not> srv_overflow_checks srv"
  shows "\<exists>g. submit srv recordings s =
      (Ret (case submit_plan srv (eng_tables s) recordings of Inl e \<Rightarrow> e | Inr _ \<Rightarrow> RespOk), s\<lparr>eng_gpu := g\<rparr>)
    \<and> ((\<exists>ps. submit_plan srv (eng_tables s) recordings = Inr ps) \<longleftrightarrow>
        (\<forall>b \<in> set recordings. submittable srv (eng_tables s) b))"
proof -
  obtain r g where run: "submit_with srv (eng_tables s) recordings (eng_gpu s) = (r, g)" by fastforce
  have np: "r \<noteq> Panic"
    using no_panic_submit_with [OF assms(2,3), of "eng_tables s" recordings] run
    by (auto simp: no_panic_def) (metis fst_conv)
  have "submit srv recordings s =
      (Ret (case submit_plan srv (eng_tables s) recordings of Inl e \<Rightarrow> e | Inr _ \<Rightarrow> RespOk), s\<lparr>eng_gpu := g\<rparr>)"
  proof (cases "submit_plan srv (eng_tables s) recordings")
    case (Inl e)
    then have "r = Fail e"
      using realises_Inl [OF realises_submit_with Inl, of "eng_gpu s"] run np by simp
    with Inl show ?thesis
      using submit_on_gpu [OF assms(1), of srv recordings] run by simp
  next
    case (Inr ps)
    then have "issue_submission (srv_device srv) ps (eng_gpu s) = (r, g)"
      using realises_Inr [OF realises_submit_with Inr] run by simp
    then have "r = Ret RespOk"
      using np by (rule issue_submission_Ret)
    with Inr show ?thesis
      using submit_on_gpu [OF assms(1), of srv recordings] run by simp
  qed
  then show ?thesis
    using submit_plan_ok [of srv "eng_tables s" recordings] by blast
qed

theorem submit_answer_witness:
  "fst (submit (demo_server good_device False copy_recording) [[1], [1]] (demo_engine (0 :: nat))) = Ret RespOk"
proof -
  let ?srv = "demo_server good_device False copy_recording"
  have "\<exists>ps. submit_plan ?srv (eng_tables (demo_engine 0)) [[1], [1]] = Inr ps"
    by (simp only: submit_plan_ok) (simp add: demo_submittable)
  then show ?thesis
    using submit_answer [of "demo_engine 0" ?srv "[[1], [1]]"]
    by (auto simp: demo_engine_def)
qed

text \<open>C2: replay equals its plan. When every reference resolves, the code, which looks each
  reference up only when it reaches the command, makes exactly the calls of the program that was
  resolved beforehand (encoder, commands and passes, finish, for each recording in order, then one
  queue submission), with the same outcome. This holds on every device, also when it panics.\<close>

theorem submit_replays_plan:
  assumes "\<not> eng_poisoned s" and "submit_plan srv (eng_tables s) recordings = Inr ps"
    and "submit srv recordings s = (r, s')"
  shows "issue_submission (srv_device srv) ps (eng_gpu s) = (r, eng_gpu s')"
proof -
  have plan: "submit_with srv (eng_tables s) recordings = issue_submission (srv_device srv) ps"
    by (rule realises_Inr [OF realises_submit_with assms(2)])
  obtain q g where run: "issue_submission (srv_device srv) ps (eng_gpu s) = (q, g)" by fastforce
  have "q \<noteq> Fail e" for e
    using never_fails_issue_submission [of "srv_device srv" ps] run
    by (auto simp: never_fails_def) (metis fst_conv)
  then show ?thesis
    using submit_on_gpu [OF assms(1), of srv recordings] assms(3) run plan
    by (cases q) auto
qed

theorem submit_replays_plan_witness:
  "\<exists>ps g. submit_plan (demo_server good_device True copy_recording) (eng_tables (demo_engine (0 :: nat))) [[1]] = Inr ps
     \<and> issue_submission good_device ps 0 = (Ret RespOk, g) \<and> length ps = 1"
proof -
  let ?srv = "demo_server good_device True copy_recording"
  let ?s = "demo_engine (0 :: nat)"
  obtain ps where ps: "submit_plan ?srv (eng_tables ?s) [[1]] = Inr ps"
    using submit_plan_ok [of ?srv "eng_tables ?s" "[[1]]"] by (auto simp: demo_submittable)
  obtain r s' where run: "submit ?srv [[1]] ?s = (r, s')" by fastforce
  have "issue_submission good_device ps 0 = (r, eng_gpu s')"
    using submit_replays_plan [of ?s ?srv "[[1]]" ps r s'] ps run
    by (simp add: demo_engine_def demo_server_def)
  moreover have "r = Ret RespOk"
    using run
    by (auto simp: demo_eval)
  moreover have "length ps = 1"
    using ps by (auto simp: submit_plan_def bind_res_eq_Inr)
  ultimately show ?thesis using ps by auto
qed

text \<open>C4: the encoder discipline. From a log that keeps wgpu's rules on encoders and passes with no
  pass open, a submission, whatever its payloads and whatever the tables hold, keeps them: every
  command goes to the encoder or the pass that is open, nothing to the encoder while a pass is open,
  and every pass is ended, also when a reference inside it is unknown. Only a panic can leave a pass
  open.\<close>

theorem submit_discipline:
  assumes "\<not> eng_poisoned s" and "srv_device srv = logged d" and "between_passes (snd (eng_gpu s))"
    and "submit srv recordings s = (r, s')"
  shows "legal (snd (eng_gpu s')) \<and> (r \<noteq> Panic \<longrightarrow> between_passes (snd (eng_gpu s')))"
proof -
  obtain q g where run: "submit_with srv (eng_tables s) recordings (eng_gpu s) = (q, g)"
    by (rule prod.exhaust)
  have start: "log_in between_passes (eng_gpu s)"
    using assms(3) by (simp add: log_in_def)
  have "case q of Ret a \<Rightarrow> log_in between_passes g | Fail e \<Rightarrow> log_in between_passes g | Panic \<Rightarrow> log_in legal g"
    using tripleD [OF submit_with_discipline [OF assms(2)] start run] .
  then show ?thesis
    using submit_on_gpu [OF assms(1), of srv recordings] assms(4) run
    by (cases q) (auto simp: log_in_def between_passes_def legal_def)
qed

text \<open>C5: all or nothing. A submission answered with an error has submitted nothing to the queue; one
  answered \<open>Ok\<close> has made exactly one queue submission, of one command buffer per recording, the
  ones it finished, in order.\<close>

theorem submit_all_or_nothing:
  assumes "\<not> eng_poisoned s" and "srv_device srv = logged d"
    and "submit srv recordings s = (Ret resp, s')"
  shows "(resp \<noteq> RespOk \<longrightarrow> submitted (snd (eng_gpu s')) = submitted (snd (eng_gpu s)))
    \<and> (resp = RespOk \<longrightarrow> (\<exists>cbs. length cbs = length recordings
          \<and> submitted (snd (eng_gpu s')) = submitted (snd (eng_gpu s)) @ [cbs]
          \<and> finished (snd (eng_gpu s')) = finished (snd (eng_gpu s)) @ cbs))"
proof -
  obtain q g where run: "submit_with srv (eng_tables s) recordings (eng_gpu s) = (q, g)"
    by (rule prod.exhaust)
  have start: "log_in (has_done (submitted (snd (eng_gpu s))) (finished (snd (eng_gpu s)))) (eng_gpu s)"
    by (simp add: log_in_def has_done_def)
  note post = tripleD [OF submit_with_has_done [OF assms(2)] start run]
  show ?thesis
  proof (cases q)
    case (Ret a)
    then show ?thesis
      using submit_on_gpu [OF assms(1), of srv recordings] assms(3) run post
      by (auto simp: log_in_def has_done_def)
  next
    case (Fail e)
    have "submit_plan srv (eng_tables s) recordings = Inl e"
      using run Fail by (auto intro: realises_FailD [OF realises_submit_with never_fails_issue_submission])
    then have "e \<noteq> RespOk"
      using submit_plan_refuses [of srv "eng_tables s" recordings] by (auto simp: refuses_def)
    with Fail show ?thesis
      using submit_on_gpu [OF assms(1), of srv recordings] assms(3) run post
      by (auto simp: log_in_def)
  next
    case Panic
    then show ?thesis
      using submit_on_gpu [OF assms(1), of srv recordings] assms(3) run by auto
  qed
qed

text \<open>A submission whose second payload does not decode, on a logged device.\<close>

definition half_bad :: "(response, response) flow \<times> (nat, nat \<times> (nat, nat) gpu_event list) engine" where
  "half_bad = submit (demo_server (logged good_device) False copy_recording) [[1], [2]] (demo_engine (0, []))"

lemma half_bad_answer:
  "half_bad = (Ret (RespError InvalidArgument ''recording decode failed: unexpected end''), snd half_bad)"
  unfolding half_bad_def by (simp add: demo_eval)

theorem submit_discipline_witness:
  "between_passes (snd (eng_gpu (snd half_bad)))"
  using submit_discipline [OF _ _ _ half_bad_answer [unfolded half_bad_def], of good_device]
  by (simp add: half_bad_def demo_engine_def between_passes_def)

theorem submit_all_or_nothing_witness:
  "submitted (snd (eng_gpu (snd half_bad))) = []"
  using submit_all_or_nothing [OF _ _ half_bad_answer [unfolded half_bad_def], of good_device]
  by (simp add: half_bad_def demo_engine_def submitted_def)

end
