(* ===== verification/Engine.thy ===== *)
theory Engine
  imports Replay_Trace
begin

section \<open>The replay engine\<close>

text \<open>
  \<open>server/engine.rs\<close>: one definition per method of \<open>Engine\<close>, composed by \<open>handle\<close>
  and \<open>dispatch\<close> as in the code. A method takes the lock where the code does: resources that
  name no other resource are created before the lock is taken for the insertion; the others are
  created while the lock that resolved their references is held, and a second lock inserts them.

  The adapter and device of \<open>Engine::new\<close> are the parameter \<open>srv_device\<close>. Polling the device
  until the map callback fires is part of the call \<open>gpu_map_async\<close>.
\<close>

subsection \<open>Two ways of creating\<close>

text \<open>\<open>let h = self.device.create_*(..); self.tables.lock().unwrap().<field>.insert(id, h); Ok\<close>.\<close>

definition create_unlocked ::
  "('w, 'h, 'g) server \<Rightarrow> ('w, 'h) create_call \<Rightarrow> ('h, 'k) field_update \<Rightarrow> 'k id \<Rightarrow>
     (('h, 'g) engine, response, response) step" where
  "create_unlocked srv call upd i =
     andThen (on_gpu (gpu_create (srv_device srv) call)) (\<lambda>h.
     andThen (store upd i h) (\<lambda>_. ret RespOk))"

text \<open>
  \<open>let tables = self.tables.lock().unwrap(); <resolve>; let h = self.device.create_*(..);
  drop(tables); self.tables.lock().unwrap().<field>.insert(id, h); Ok\<close>.
\<close>

definition create_locked ::
  "('w, 'h, 'g) server \<Rightarrow> ('h resource_tables \<Rightarrow> response + ('w, 'h) create_call) \<Rightarrow>
     ('h, 'k) field_update \<Rightarrow> 'k id \<Rightarrow> (('h, 'g) engine, response, response) step" where
  "create_locked srv resolve upd i =
     andThen (locked (\<lambda>t. andThen (lift_res (resolve t)) (\<lambda>call.
       on_gpu (gpu_create (srv_device srv) call)))) (\<lambda>h.
     andThen (store upd i h) (\<lambda>_. ret RespOk))"

subsection \<open>Resources that name no other resource\<close>

definition create_buffer ::
  "('w, 'h, 'g) server \<Rightarrow> buffer_id \<Rightarrow> buffer_descriptor \<Rightarrow> (('h, 'g) engine, response, response) step" where
  "create_buffer srv i desc = create_unlocked srv (MkBuffer desc) buffers_update i"

definition create_shader_module ::
  "('w, 'h, 'g) server \<Rightarrow> shader_module_id \<Rightarrow> 'w shader_module_descriptor \<Rightarrow>
     (('h, 'g) engine, response, response) step" where
  "create_shader_module srv i desc =
     (case sm_source desc of
        Wgsl src \<Rightarrow>
          create_unlocked srv (MkShaderModule (sm_label desc) src) shader_modules_update i
      | SpirV _ \<Rightarrow>
          ret (RespError InvalidArgument ''only WGSL shader sources are supported in v1'')
      | Glsl _ _ _ \<Rightarrow>
          ret (RespError InvalidArgument ''only WGSL shader sources are supported in v1''))"

definition create_bind_group_layout ::
  "('w, 'h, 'g) server \<Rightarrow> bind_group_layout_id \<Rightarrow> 'w bind_group_layout_descriptor \<Rightarrow>
     (('h, 'g) engine, response, response) step" where
  "create_bind_group_layout srv i desc =
     create_unlocked srv (MkBindGroupLayout desc) bind_group_layouts_update i"

definition create_texture ::
  "('w, 'h, 'g) server \<Rightarrow> texture_id \<Rightarrow> 'w texture_descriptor \<Rightarrow>
     (('h, 'g) engine, response, response) step" where
  "create_texture srv i desc = create_unlocked srv (MkTexture desc) textures_update i"

definition create_sampler ::
  "('w, 'h, 'g) server \<Rightarrow> sampler_id \<Rightarrow> 'w sampler_descriptor \<Rightarrow>
     (('h, 'g) engine, response, response) step" where
  "create_sampler srv i desc = create_unlocked srv (MkSampler desc) samplers_update i"

subsection \<open>create_texture_view\<close>

definition texture_view_call ::
  "texture_id \<Rightarrow> 'w texture_view_descriptor \<Rightarrow> 'h resource_tables \<Rightarrow> response + ('w, 'h) create_call" where
  "texture_view_call texture desc t =
     bind_res (lookup_in ''TextureId'' (textures t) texture) (\<lambda>tex. Inr (MkTextureView tex desc))"

definition create_texture_view ::
  "('w, 'h, 'g) server \<Rightarrow> texture_view_id \<Rightarrow> texture_id \<Rightarrow> 'w texture_view_descriptor \<Rightarrow>
     (('h, 'g) engine, response, response) step" where
  "create_texture_view srv i texture desc =
     create_locked srv (texture_view_call texture desc) texture_views_update i"

subsection \<open>create_bind_group\<close>

definition bind_group_entry_of ::
  "'h resource_tables \<Rightarrow> bind_group_entry \<Rightarrow> response + u32 \<times> 'h gpu_binding" where
  "bind_group_entry_of t e =
     bind_res
       (case bge_resource e of
          BRBuffer buf off sz \<Rightarrow>
            bind_res (lookup_in ''BufferId'' (buffers t) buf) (\<lambda>b. Inr (GBuffer b off sz))
        | BRSampler i \<Rightarrow>
            bind_res (lookup_in ''SamplerId'' (samplers t) i) (\<lambda>s. Inr (GSampler s))
        | BRTextureView i \<Rightarrow>
            bind_res (lookup_in ''TextureViewId'' (texture_views t) i) (\<lambda>v. Inr (GTextureView v))
        | other \<Rightarrow>
            Inl (RespError InvalidArgument
              (''BindingResource variant not yet supported: '' @ debug_binding_resource other)))
       (\<lambda>resource. Inr (bge_binding e, resource))"

definition bind_group_call ::
  "bind_group_descriptor \<Rightarrow> 'h resource_tables \<Rightarrow> response + ('w, 'h) create_call" where
  "bind_group_call desc t =
     bind_res (lookup_in ''BindGroupLayoutId'' (bind_group_layouts t) (bg_layout desc)) (\<lambda>layout.
     bind_res (collect_res (bind_group_entry_of t) (bg_entries desc)) (\<lambda>entries.
       Inr (MkBindGroup \<lparr>gbg_label = bg_label desc, gbg_layout = layout, gbg_entries = entries\<rparr>)))"

definition create_bind_group ::
  "('w, 'h, 'g) server \<Rightarrow> bind_group_id \<Rightarrow> bind_group_descriptor \<Rightarrow>
     (('h, 'g) engine, response, response) step" where
  "create_bind_group srv i desc = create_locked srv (bind_group_call desc) bind_groups_update i"

subsection \<open>create_pipeline_layout\<close>

definition pipeline_layout_call ::
  "'w pipeline_layout_descriptor \<Rightarrow> 'h resource_tables \<Rightarrow> response + ('w, 'h) create_call" where
  "pipeline_layout_call desc t =
     bind_res (collect_res (lookup_in ''BindGroupLayoutId'' (bind_group_layouts t))
         (pl_bind_group_layouts desc)) (\<lambda>bgls.
       Inr (MkPipelineLayout \<lparr>gpl_label = pl_label desc, gpl_bind_group_layouts = bgls,
         gpl_push_constant_ranges = pl_push_constant_ranges desc\<rparr>))"

definition create_pipeline_layout ::
  "('w, 'h, 'g) server \<Rightarrow> pipeline_layout_id \<Rightarrow> 'w pipeline_layout_descriptor \<Rightarrow>
     (('h, 'g) engine, response, response) step" where
  "create_pipeline_layout srv i desc =
     create_locked srv (pipeline_layout_call desc) pipeline_layouts_update i"

subsection \<open>create_compute_pipeline\<close>

definition optional_layout ::
  "'h resource_tables \<Rightarrow> pipeline_layout_id option \<Rightarrow> response + 'h option" where
  "optional_layout t layout =
     (case layout of
        Some l \<Rightarrow> bind_res (lookup_in ''PipelineLayoutId'' (pipeline_layouts t) l) (\<lambda>pl. Inr (Some pl))
      | None \<Rightarrow> Inr None)"

definition compute_pipeline_call ::
  "'w compute_pipeline_descriptor \<Rightarrow> 'h resource_tables \<Rightarrow> response + ('w, 'h) create_call" where
  "compute_pipeline_call desc t =
     bind_res (lookup_in ''ShaderModuleId'' (shader_modules t) (cp_module desc)) (\<lambda>module.
     bind_res (optional_layout t (cp_layout desc)) (\<lambda>layout.
       Inr (MkComputePipeline \<lparr>gcp_label = cp_label desc, gcp_layout = layout, gcp_module = module,
         gcp_entry_point = cp_entry_point desc, gcp_constants = []\<rparr>)))"

definition create_compute_pipeline ::
  "('w, 'h, 'g) server \<Rightarrow> compute_pipeline_id \<Rightarrow> 'w compute_pipeline_descriptor \<Rightarrow>
     (('h, 'g) engine, response, response) step" where
  "create_compute_pipeline srv i desc =
     create_locked srv (compute_pipeline_call desc) compute_pipelines_update i"

subsection \<open>create_render_pipeline\<close>

text \<open>\<open>multiview.and_then(NonZeroU32::new)\<close>.\<close>

definition non_zero :: "u32 option \<Rightarrow> u32 option" where
  "non_zero m = (case m of Some n \<Rightarrow> if n = 0 then None else Some n | None \<Rightarrow> None)"

definition fragment_module ::
  "'h resource_tables \<Rightarrow> 'w fragment_state option \<Rightarrow> response + 'h option" where
  "fragment_module t fragment =
     (case fragment of
        Some f \<Rightarrow> bind_res (lookup_in ''fragment ShaderModuleId'' (shader_modules t) (fs_module f)) (\<lambda>m. Inr (Some m))
      | None \<Rightarrow> Inr None)"

definition fragment_of ::
  "'w fragment_state option \<Rightarrow> 'h option \<Rightarrow> ('w, 'h) gpu_fragment_state option" where
  "fragment_of fragment module =
     (case (fragment, module) of
        (Some f, Some m) \<Rightarrow> Some \<lparr>gfs_module = m, gfs_entry_point = fs_entry_point f,
          gfs_constants = [], gfs_targets = fs_targets f\<rparr>
      | _ \<Rightarrow> None)"

definition render_pipeline_call ::
  "'w render_pipeline_descriptor \<Rightarrow> 'h resource_tables \<Rightarrow> response + ('w, 'h) create_call" where
  "render_pipeline_call desc t =
     bind_res (optional_layout t (rp_layout desc)) (\<lambda>layout.
     bind_res (lookup_in ''vertex ShaderModuleId'' (shader_modules t) (vs_module (rp_vertex desc))) (\<lambda>vertex_module.
     bind_res (fragment_module t (rp_fragment desc)) (\<lambda>fragment_module.
       Inr (MkRenderPipeline
         \<lparr>grp_label = rp_label desc,
          grp_layout = layout,
          grp_vertex = \<lparr>gvs_module = vertex_module, gvs_entry_point = vs_entry_point (rp_vertex desc),
            gvs_constants = [], gvs_buffers = vs_buffers (rp_vertex desc)\<rparr>,
          grp_primitive = rp_primitive desc,
          grp_depth_stencil = rp_depth_stencil desc,
          grp_multisample = rp_multisample desc,
          grp_fragment = fragment_of (rp_fragment desc) fragment_module,
          grp_multiview = non_zero (rp_multiview desc)\<rparr>))))"

definition create_render_pipeline ::
  "('w, 'h, 'g) server \<Rightarrow> render_pipeline_id \<Rightarrow> 'w render_pipeline_descriptor \<Rightarrow>
     (('h, 'g) engine, response, response) step" where
  "create_render_pipeline srv i desc =
     create_locked srv (render_pipeline_call desc) render_pipelines_update i"

subsection \<open>Bind group layouts derived from a pipeline\<close>

text \<open>One lock covers the lookup, the call and the insertion.\<close>

definition derive_render_bind_group_layout ::
  "('w, 'h, 'g) server \<Rightarrow> render_pipeline_id \<Rightarrow> u32 \<Rightarrow> bind_group_layout_id \<Rightarrow>
     (('h, 'g) engine, response, response) step" where
  "derive_render_bind_group_layout srv pipeline index i =
     locked (\<lambda>t.
       andThen (lift_res (lookup_in ''RenderPipelineId'' (render_pipelines t) pipeline)) (\<lambda>rp.
       andThen (on_gpu (gpu_create (srv_device srv) (GetBindGroupLayout rp index))) (\<lambda>bgl.
       andThen (put_tables (insert_in bind_group_layouts_update i bgl t)) (\<lambda>_. ret RespOk))))"

definition derive_compute_bind_group_layout ::
  "('w, 'h, 'g) server \<Rightarrow> compute_pipeline_id \<Rightarrow> u32 \<Rightarrow> bind_group_layout_id \<Rightarrow>
     (('h, 'g) engine, response, response) step" where
  "derive_compute_bind_group_layout srv pipeline index i =
     locked (\<lambda>t.
       andThen (lift_res (lookup_in ''ComputePipelineId'' (compute_pipelines t) pipeline)) (\<lambda>cp.
       andThen (on_gpu (gpu_create (srv_device srv) (GetBindGroupLayout cp index))) (\<lambda>bgl.
       andThen (put_tables (insert_in bind_group_layouts_update i bgl t)) (\<lambda>_. ret RespOk))))"

subsection \<open>Writes, readback, destruction\<close>

definition with_buffer ::
  "buffer_id \<Rightarrow> ('h \<Rightarrow> (('h, 'g) engine, response, 'r) step) \<Rightarrow> (('h, 'g) engine, response, 'r) step" where
  "with_buffer i f = locked (\<lambda>t. andThen (lift_res (lookup_in ''BufferId'' (buffers t) i)) f)"

definition write_buffer ::
  "('w, 'h, 'g) server \<Rightarrow> buffer_id \<Rightarrow> u64 \<Rightarrow> bytes \<Rightarrow> (('h, 'g) engine, response, response) step" where
  "write_buffer srv i off data =
     andThen (with_buffer i (\<lambda>b. on_gpu (gpu_exec (srv_device srv) (QueueWriteBuffer b off data)))) (\<lambda>_.
     andThen (on_gpu (gpu_exec (srv_device srv) (QueueSubmit []))) (\<lambda>_. ret RespOk))"

definition write_texture ::
  "('w, 'h, 'g) server \<Rightarrow> texture_id \<Rightarrow> u32 \<Rightarrow> 'w \<Rightarrow> 'w \<Rightarrow> bytes \<Rightarrow> 'w \<Rightarrow> 'w \<Rightarrow>
     (('h, 'g) engine, response, response) step" where
  "write_texture srv texture mip_level origin aspect data data_layout extent =
     locked (\<lambda>t.
       andThen (lift_res (lookup_in ''TextureId'' (textures t) texture)) (\<lambda>tex.
       andThen (on_gpu (gpu_exec (srv_device srv) (QueueWriteTexture
           \<lparr>gct_texture = tex, gct_mip_level = mip_level, gct_origin = origin, gct_aspect = aspect\<rparr>
           data data_layout extent))) (\<lambda>_.
       andThen (on_gpu (gpu_exec (srv_device srv) (QueueSubmit []))) (\<lambda>_. ret RespOk))))"

definition read_buffer ::
  "('w, 'h, 'g) server \<Rightarrow> buffer_id \<Rightarrow> u64 \<Rightarrow> u64 \<Rightarrow> (('h, 'g) engine, response, response) step" where
  "read_buffer srv i off len =
     andThen (locked (\<lambda>t. lift_res (lookup_in ''BufferId'' (buffers t) i))) (\<lambda>buf.
     andThen (lift_opt (slice_of (srv_overflow_checks srv) buf off (Some len))) (\<lambda>slice.
     andThen (on_gpu (gpu_map_async (srv_device srv) slice)) (\<lambda>map_result.
       case map_result of
         MapOk \<Rightarrow>
           andThen (lift_opt (slice_of (srv_overflow_checks srv) buf off (Some len))) (\<lambda>slice.
           andThen (on_gpu (gpu_mapped_range (srv_device srv) slice)) (\<lambda>view.
           andThen (on_gpu (gpu_exec (srv_device srv) (UnmapBuffer buf))) (\<lambda>_.
             ret (BufferData view))))
       | MapErr e \<Rightarrow> ret (RespError Internal (''buffer map_async failed: '' @ e))
       | MapDropped \<Rightarrow> ret (RespError Internal ''map callback channel dropped''))))"

text \<open>Only a buffer is removed; every other resource is acknowledged.\<close>

definition destroy :: "resource_id \<Rightarrow> (('h, 'g) engine, response, response) step" where
  "destroy r =
     (case r of
        RBuffer i \<Rightarrow>
          andThen (locked (\<lambda>t. put_tables (remove_in buffers_update i t))) (\<lambda>_. ret RespOk)
      | _ \<Rightarrow> ret RespOk)"

definition hello :: "u32 \<Rightarrow> response" where
  "hello protocol_version =
     (if protocol_version \<noteq> PROTOCOL_VERSION then
        RespError ProtocolVersionMismatch
          (''client v'' @ show_u32 protocol_version @ '', server v'' @ show_u32 PROTOCOL_VERSION)
      else HelloAck PROTOCOL_VERSION)"

subsection \<open>handle and dispatch\<close>

fun handle_action ::
  "('w, 'h, 'g) server \<Rightarrow> 'w action \<Rightarrow> (('h, 'g) engine, response, response) step" where
  "handle_action srv (Hello protocol_version) = ret (hello protocol_version)"
| "handle_action srv RequestAdapter = ret RespOk"
| "handle_action srv (RequestDevice _) = ret RespOk"
| "handle_action srv (CreateBuffer i desc) = create_buffer srv i desc"
| "handle_action srv (Destroy r) = destroy r"
| "handle_action srv (WriteBuffer i off data) = write_buffer srv i off data"
| "handle_action srv (WriteTexture texture mip_level origin aspect data data_layout extent) =
     write_texture srv texture mip_level origin aspect data data_layout extent"
| "handle_action srv (MapBufferForRead i off len) = read_buffer srv i off len"
| "handle_action srv (DeriveRenderPipelineBindGroupLayout pipeline index i) =
     derive_render_bind_group_layout srv pipeline index i"
| "handle_action srv (DeriveComputePipelineBindGroupLayout pipeline index i) =
     derive_compute_bind_group_layout srv pipeline index i"
| "handle_action srv (CreateShaderModule i desc) = create_shader_module srv i desc"
| "handle_action srv (CreateBindGroupLayout i desc) = create_bind_group_layout srv i desc"
| "handle_action srv (CreateBindGroup i desc) = create_bind_group srv i desc"
| "handle_action srv (CreatePipelineLayout i desc) = create_pipeline_layout srv i desc"
| "handle_action srv (CreateComputePipeline i desc) = create_compute_pipeline srv i desc"
| "handle_action srv (Submit recordings) = submit srv recordings"
| "handle_action srv (CreateTexture i desc) = create_texture srv i desc"
| "handle_action srv (CreateTextureView i texture desc) = create_texture_view srv i texture desc"
| "handle_action srv (CreateSampler i desc) = create_sampler srv i desc"
| "handle_action srv (CreateRenderPipeline i desc) = create_render_pipeline srv i desc"
| "handle_action srv (CreateCommandEncoder _ _) = ret RespOk"

text \<open>
  Every branch of \<open>handle\<close> is \<open>Some\<close> of a response; the response of a branch that leaves early
  is the one it leaves with.
\<close>

definition handle ::
  "('w, 'h, 'g) server \<Rightarrow> 'w action \<Rightarrow> (('h, 'g) engine, response, response option) step" where
  "handle srv act = andThen (answer (handle_action srv act)) (\<lambda>r. ret (Some r))"

definition dispatch ::
  "('w, 'h, 'g) server \<Rightarrow> 'w frame \<Rightarrow> (('h, 'g) engine, response, response_frame option) step" where
  "dispatch srv f =
     andThen (handle srv (fr_action f)) (\<lambda>response.
       ret (case (fr_request_id f, response) of
              (Some rid, Some resp) \<Rightarrow> Some \<lparr>rf_request_id = rid, rf_response = resp\<rparr>
            | (None, _) \<Rightarrow> None
            | (Some _, None) \<Rightarrow> None))"

end
