(* ===== verification/Engine_Spec.thy ===== *)
theory Engine_Spec
  imports Engine
begin

section \<open>What the engine promises\<close>

text \<open>
  The abstract state of the engine is the set of resources it knows. An action either fails and
  changes nothing, or adds the resource it creates, or removes the buffer it destroys
  (\<open>after\<close>); it is accepted when it is one the server supports and every resource it names is
  known (\<open>acceptable\<close>). The properties at the end say that the engine refines this.
\<close>

subsection \<open>The specification\<close>

definition is_error :: "response \<Rightarrow> bool" where
  "is_error r = (case r of RespError _ _ \<Rightarrow> True | _ \<Rightarrow> False)"

fun creates :: "'w action \<Rightarrow> resource_id option" where
  "creates (CreateBuffer i _) = Some (RBuffer i)"
| "creates (CreateTexture i _) = Some (RTexture i)"
| "creates (CreateTextureView i _ _) = Some (RTextureView i)"
| "creates (CreateSampler i _) = Some (RSampler i)"
| "creates (CreateShaderModule i _) = Some (RShaderModule i)"
| "creates (CreateBindGroupLayout i _) = Some (RBindGroupLayout i)"
| "creates (CreateBindGroup i _) = Some (RBindGroup i)"
| "creates (CreatePipelineLayout i _) = Some (RPipelineLayout i)"
| "creates (CreateRenderPipeline i _) = Some (RRenderPipeline i)"
| "creates (CreateComputePipeline i _) = Some (RComputePipeline i)"
| "creates (DeriveRenderPipelineBindGroupLayout _ _ i) = Some (RBindGroupLayout i)"
| "creates (DeriveComputePipelineBindGroupLayout _ _ i) = Some (RBindGroupLayout i)"
| "creates _ = None"

fun destroys :: "'w action \<Rightarrow> resource_id option" where
  "destroys (Destroy (RBuffer i)) = Some (RBuffer i)"
| "destroys _ = None"

definition after :: "'w action \<Rightarrow> resource_id set \<Rightarrow> resource_id set" where
  "after act K = (K - set_option (destroys act)) \<union> set_option (creates act)"

fun binding_refs :: "binding_resource \<Rightarrow> resource_id list" where
  "binding_refs (BRBuffer i _ _) = [RBuffer i]"
| "binding_refs (BRSampler i) = [RSampler i]"
| "binding_refs (BRTextureView i) = [RTextureView i]"
| "binding_refs _ = []"

fun binding_supported :: "binding_resource \<Rightarrow> bool" where
  "binding_supported (BRBuffer _ _ _) = True"
| "binding_supported (BRSampler _) = True"
| "binding_supported (BRTextureView _) = True"
| "binding_supported _ = False"

definition layout_refs :: "pipeline_layout_id option \<Rightarrow> resource_id list" where
  "layout_refs l = (case l of None \<Rightarrow> [] | Some i \<Rightarrow> [RPipelineLayout i])"

fun action_refs :: "'w action \<Rightarrow> resource_id list" where
  "action_refs (CreateTextureView _ texture _) = [RTexture texture]"
| "action_refs (CreateBindGroup _ desc) =
     RBindGroupLayout (bg_layout desc) # concat (map (\<lambda>e. binding_refs (bge_resource e)) (bg_entries desc))"
| "action_refs (CreatePipelineLayout _ desc) = map RBindGroupLayout (pl_bind_group_layouts desc)"
| "action_refs (CreateComputePipeline _ desc) =
     RShaderModule (cp_module desc) # layout_refs (cp_layout desc)"
| "action_refs (CreateRenderPipeline _ desc) =
     layout_refs (rp_layout desc) @ [RShaderModule (vs_module (rp_vertex desc))]
     @ (case rp_fragment desc of None \<Rightarrow> [] | Some f \<Rightarrow> [RShaderModule (fs_module f)])"
| "action_refs (WriteBuffer i _ _) = [RBuffer i]"
| "action_refs (WriteTexture i _ _ _ _ _ _) = [RTexture i]"
| "action_refs (MapBufferForRead i _ _) = [RBuffer i]"
| "action_refs (DeriveRenderPipelineBindGroupLayout i _ _) = [RRenderPipeline i]"
| "action_refs (DeriveComputePipelineBindGroupLayout i _ _) = [RComputePipeline i]"
| "action_refs _ = []"

fun supported :: "'w action \<Rightarrow> bool" where
  "supported (Hello v) = (v = PROTOCOL_VERSION)"
| "supported (CreateShaderModule _ desc) = (case sm_source desc of Wgsl _ \<Rightarrow> True | _ \<Rightarrow> False)"
| "supported (CreateBindGroup _ desc) = list_all (\<lambda>e. binding_supported (bge_resource e)) (bg_entries desc)"
| "supported _ = True"

definition acceptable :: "('w, 'h, 'g) server \<Rightarrow> 'h resource_tables \<Rightarrow> 'w action \<Rightarrow> bool" where
  "acceptable srv t act \<longleftrightarrow> supported act \<and> list_all (knows t) (action_refs act)
     \<and> (case act of Submit recordings \<Rightarrow> list_all (submittable srv t) recordings | _ \<Rightarrow> True)"

definition known :: "('h, 'g) engine \<Rightarrow> resource_id set" where
  "known s = {r. knows (eng_tables s) r}"

text \<open>A device whose maps all succeed.\<close>

definition maps_succeed :: "('w, 'h, 'g) wgpu \<Rightarrow> bool" where
  "maps_succeed d \<longleftrightarrow> (\<forall>sl g. fst (wg_map_async d sl g) \<in> {None, Some MapOk})"

lemma is_error_simps [simp]:
  "is_error (RespError c m)" "\<not> is_error RespOk" "\<not> is_error (HelloAck v)"
  "\<not> is_error (BufferData b)" "\<not> is_error (SubmissionComplete n)" "is_error (unknown_resource k i)"
  by (simp_all add: is_error_def unknown_resource_def)

subsection \<open>The resolvers accept exactly known references\<close>

lemma ex_Inr_case_pure [simp]: "(\<exists>b. Inr a = Inr b)" "\<not> (\<exists>b. Inl e = Inr b)"
  by simp_all

lemma texture_view_call_ok: "(\<exists>c. texture_view_call tex desc t = Inr c) \<longleftrightarrow> knows t (RTexture tex)"
  by (simp add: texture_view_call_def ex_Inr)

lemma bind_group_entry_ok:
  "(\<exists>x. bind_group_entry_of t e = Inr x) \<longleftrightarrow>
     binding_supported (bge_resource e) \<and> list_all (knows t) (binding_refs (bge_resource e))"
  by (cases "bge_resource e") (auto simp: bind_group_entry_of_def bind_res_eq_Inr)

lemma bind_group_call_ok:
  "(\<exists>c. bind_group_call desc t = Inr c) \<longleftrightarrow>
     acceptable srv t (CreateBindGroup i desc)"
proof -
  have "(\<exists>c. bind_group_call desc t = Inr c) \<longleftrightarrow>
      (\<exists>l. lookup_in ''BindGroupLayoutId'' (bind_group_layouts t) (bg_layout desc) = Inr l) \<and>
      (\<exists>es. collect_res (bind_group_entry_of t) (bg_entries desc) = Inr es)"
    by (auto simp: bind_group_call_def bind_res_eq_Inr)
  also have "\<dots> \<longleftrightarrow> acceptable srv t (CreateBindGroup i desc)"
    unfolding ex_Inr_collect ex_Inr_lookup bind_group_entry_ok
    by (auto simp: acceptable_def list_all_iff)
  finally show ?thesis .
qed

lemma pipeline_layout_call_ok:
  "(\<exists>c. pipeline_layout_call desc t = Inr c) \<longleftrightarrow>
     list_all (knows t) (map RBindGroupLayout (pl_bind_group_layouts desc))"
proof -
  have "(\<exists>c. pipeline_layout_call desc t = Inr c) \<longleftrightarrow>
      (\<exists>ls. collect_res (lookup_in ''BindGroupLayoutId'' (bind_group_layouts t)) (pl_bind_group_layouts desc) = Inr ls)"
    by (auto simp: pipeline_layout_call_def bind_res_eq_Inr)
  then show ?thesis
    by (simp only: ex_Inr_collect ex_Inr_lookup) (simp add: list_all_iff)
qed

lemma optional_layout_ok: "(\<exists>l. optional_layout t l' = Inr l) \<longleftrightarrow> list_all (knows t) (layout_refs l')"
  by (cases l') (auto simp: optional_layout_def layout_refs_def bind_res_eq_Inr)

lemma compute_pipeline_call_ok:
  "(\<exists>c. compute_pipeline_call desc t = Inr c) \<longleftrightarrow>
     list_all (knows t) (RShaderModule (cp_module desc) # layout_refs (cp_layout desc))"
proof -
  have "(\<exists>c. compute_pipeline_call desc t = Inr c) \<longleftrightarrow>
      (\<exists>m. lookup_in ''ShaderModuleId'' (shader_modules t) (cp_module desc) = Inr m) \<and>
      (\<exists>l. optional_layout t (cp_layout desc) = Inr l)"
    by (auto simp: compute_pipeline_call_def bind_res_eq_Inr)
  then show ?thesis
    by (simp only: ex_Inr_lookup optional_layout_ok) simp
qed

lemma fragment_module_ok:
  "(\<exists>m. fragment_module t f = Inr m) \<longleftrightarrow>
     (case f of None \<Rightarrow> True | Some f \<Rightarrow> knows t (RShaderModule (fs_module f)))"
  by (cases f) (auto simp: fragment_module_def bind_res_eq_Inr)

lemma render_pipeline_call_ok:
  "(\<exists>c. render_pipeline_call desc t = Inr c) \<longleftrightarrow>
     acceptable srv t (CreateRenderPipeline i desc)"
proof -
  have "(\<exists>c. render_pipeline_call desc t = Inr c) \<longleftrightarrow>
      (\<exists>l. optional_layout t (rp_layout desc) = Inr l) \<and>
      (\<exists>m. lookup_in ''vertex ShaderModuleId'' (shader_modules t) (vs_module (rp_vertex desc)) = Inr m) \<and>
      (\<exists>m. fragment_module t (rp_fragment desc) = Inr m)"
    by (auto simp: render_pipeline_call_def bind_res_eq_Inr)
  then show ?thesis
    by (simp only: ex_Inr_lookup optional_layout_ok fragment_module_ok)
      (auto simp: acceptable_def split: option.splits)
qed

subsection \<open>Effects on the tables\<close>

definition has_tables :: "'h resource_tables \<Rightarrow> ('h, 'g) engine \<Rightarrow> bool" where
  "has_tables t s \<longleftrightarrow> eng_tables s = t"

lemma triple_on_gpu:
  assumes "never_fails m"
  shows "triple (has_tables t) (on_gpu m) (\<lambda>_. has_tables t) F (has_tables t)"
proof (rule tripleI)
  fix s r s'
  assume t: "has_tables t s" and run: "on_gpu m s = (r, s')"
  obtain g where m: "m (eng_gpu s) = (r, g)" and s': "s' = s\<lparr>eng_gpu := g\<rparr>"
    using run by (rule on_gpu_cases)
  have "r \<noteq> Fail e" for e
    using assms m by (auto simp: never_fails_def) (metis fst_conv)
  then show "case r of Ret a \<Rightarrow> has_tables t s' | Fail e \<Rightarrow> F s' | Panic \<Rightarrow> has_tables t s'"
    using t s' by (cases r) (auto simp: has_tables_def)
qed

lemma triple_locked:
  assumes "triple (has_tables t) (body t) Q F (has_tables t)"
  shows "triple (has_tables t) (locked body) Q F (has_tables t)"
proof (rule tripleI)
  fix s r s'
  assume t: "has_tables t s" and run: "locked body s = (r, s')"
  from run show "case r of Ret a \<Rightarrow> Q a s' | Fail e \<Rightarrow> F s' | Panic \<Rightarrow> has_tables t s'"
  proof (cases rule: locked_cases)
    case (Panic s'')
    then show ?thesis
      using tripleD [OF assms t, of Panic s''] t by (simp add: has_tables_def)
  next
    case body
    then show ?thesis
      using tripleD [OF assms t, of r s'] t by (simp add: has_tables_def)
  qed (use t in simp)
qed

lemma triple_put_tables:
  "triple P (put_tables t) (\<lambda>_. has_tables t) F X"
  by (simp add: triple_def has_tables_def)

lemma triple_store:
  "triple (has_tables t) (store upd i h) (\<lambda>_. has_tables (insert_in upd i h t)) F (has_tables t)"
  unfolding store_def by (intro triple_locked triple_put_tables)

text \<open>The tables after an answer: changed as specified, or not at all after an error.\<close>

definition tables_after :: "'w action \<Rightarrow> 'h resource_tables \<Rightarrow> response \<Rightarrow> ('h, 'g) engine \<Rightarrow> bool" where
  "tables_after act t r s \<longleftrightarrow>
     (if is_error r then eng_tables s = t
      else known s = after act {x. knows t x})"

lemma tables_after_same:
  "creates act = None \<Longrightarrow> destroys act = None \<Longrightarrow> has_tables t s \<Longrightarrow> tables_after act t r s"
  by (auto simp: tables_after_def has_tables_def known_def after_def)

lemma tables_after_error: "is_error r \<Longrightarrow> has_tables t s \<Longrightarrow> tables_after act t r s"
  by (simp add: tables_after_def has_tables_def)

abbreviation effect :: "'w action \<Rightarrow> 'h resource_tables \<Rightarrow> (('h, 'g) engine, response, response) step \<Rightarrow> bool" where
  "effect act t m \<equiv> triple (has_tables t) m (tables_after act t) (has_tables t) (has_tables t)"

lemma effect_store_ok:
  assumes "creates act = Some r" and "destroys act = None"
    and "\<And>x h. knows (insert_in upd i h t) x \<longleftrightarrow> x = r \<or> knows t x"
  shows "effect act t (andThen (store upd i h) (\<lambda>_. ret RespOk))"
  using assms
  by (intro triple_andThen [OF triple_store] triple_ret)
    (auto simp: tables_after_def has_tables_def known_def after_def)

lemma effect_create_unlocked:
  assumes "creates act = Some r" and "destroys act = None"
    and "\<And>x h. knows (insert_in upd i h t) x \<longleftrightarrow> x = r \<or> knows t x"
  shows "effect act t (create_unlocked srv c upd i)"
  unfolding create_unlocked_def
  by (rule triple_andThen [OF triple_on_gpu [OF never_fails_gpu(1)]])
    (rule effect_store_ok [OF assms])

lemma effect_create_locked:
  assumes "creates act = Some r" and "destroys act = None"
    and "\<And>x h. knows (insert_in upd i h t) x \<longleftrightarrow> x = r \<or> knows t x"
  shows "effect act t (create_locked srv resolve upd i)"
  unfolding create_locked_def
proof (rule triple_andThen [where Q = "\<lambda>_. has_tables t"])
  show "triple (has_tables t) (locked (\<lambda>t. andThen (lift_res (resolve t))
      (\<lambda>call. on_gpu (gpu_create (srv_device srv) call)))) (\<lambda>_. has_tables t) (has_tables t) (has_tables t)"
    by (intro triple_locked triple_lookup triple_on_gpu never_fails_gpu)
qed (rule effect_store_ok [OF assms])

lemmas create_defs =
  create_buffer_def create_texture_def create_sampler_def create_bind_group_layout_def
  create_texture_view_def create_bind_group_def create_pipeline_layout_def
  create_compute_pipeline_def create_render_pipeline_def

lemma never_fails_map [simp]: "never_fails (gpu_map_async d sl)" "never_fails (gpu_mapped_range d sl)"
  by (auto simp: never_fails_def gpu_call_defs lift_opt_def split: prod.splits option.splits)

lemma effect_derive:
  assumes "creates act = Some (RBindGroupLayout i)" and "destroys act = None"
  shows "effect act t (locked (\<lambda>t. andThen (lift_res (look t)) (\<lambda>p.
       andThen (on_gpu (gpu_create d (c p))) (\<lambda>bgl.
       andThen (put_tables (insert_in bind_group_layouts_update i bgl t)) (\<lambda>_. ret RespOk)))))"
  by (intro triple_locked triple_lookup triple_andThen [OF triple_on_gpu]
      triple_andThen [OF triple_put_tables] triple_ret never_fails_gpu)
    (auto simp: tables_after_def has_tables_def known_def after_def assms)

lemma triple_answer:
  "triple P m (\<lambda>_. R) R X \<Longrightarrow> triple P (answer m) (\<lambda>_. R) F X"
  unfolding triple_def answer_def by (force split: prod.splits flow.splits)

lemma triple_locked_gpu:
  "triple (has_tables t) (locked (\<lambda>t. on_gpu (m t))) (\<lambda>_. has_tables t) (has_tables t) (has_tables t)"
  by (intro triple_locked) (auto simp: triple_def has_tables_def on_gpu_def split: prod.splits flow.splits)

lemma triple_locked_lookup:
  "triple (has_tables t) (locked (\<lambda>t. lift_res (look t))) (\<lambda>_. has_tables t) (has_tables t) (has_tables t)"
  by (rule triple_locked) (auto simp: triple_def lift_res_def split: sum.split)

lemma submit_tables: "triple (has_tables t) (submit srv recordings) (\<lambda>_. has_tables t) F (has_tables t)"
proof -
  have replay: "triple (has_tables t) (replay_recording srv r) (\<lambda>_. has_tables t) (has_tables t) (has_tables t)" for r
    unfolding replay_recording_def
    by (rule triple_andThen [OF triple_on_gpu [OF never_fails_gpu(1)]
          triple_andThen [OF triple_locked_gpu triple_on_gpu]])
      (rule never_fails_gpu)
  have "triple (has_tables t) (build_command_buffers srv recordings cbs)
      (\<lambda>_. has_tables t) (has_tables t) (has_tables t)" for cbs
  proof (induction recordings arbitrary: cbs)
    case Nil
    then show ?case by (simp add: triple_ret del: step_simps)
  next
    case (Cons payload recordings)
    then show ?case
      by (auto simp del: step_simps split: sum.split intro!: triple_andThen [OF replay] triple_fail)
  qed
  then show ?thesis
    unfolding submit_def
    by (intro triple_answer triple_andThen [OF _ triple_andThen [OF triple_on_gpu triple_ret]] never_fails_gpu)
qed

lemma effect_read:
  fixes srv :: "('w, 'h, 'g) server"
  shows "effect (MapBufferForRead i off len :: 'w action) t (read_buffer srv i off len)"
proof -
  let ?act = "MapBufferForRead i off len :: 'w action"
  have finish: "effect ?act t (case m of MapOk \<Rightarrow> andThen (lift_opt sl) (\<lambda>slice.
           andThen (on_gpu (gpu_mapped_range d slice)) (\<lambda>view.
           andThen (on_gpu (gpu_exec d (UnmapBuffer buf))) (\<lambda>_. ret (BufferData view))))
       | MapErr e \<Rightarrow> ret (RespError Internal (''buffer map_async failed: '' @ e))
       | MapDropped \<Rightarrow> ret (RespError Internal ''map callback channel dropped''))"
    for m sl buf and d :: "('w, 'h, 'g) wgpu"
  proof -
    have "effect ?act t (andThen (on_gpu (gpu_mapped_range d slice)) (\<lambda>view.
        andThen (on_gpu (gpu_exec d (UnmapBuffer buf))) (\<lambda>_. ret (BufferData view))))" for slice
      by (rule triple_andThen [OF triple_on_gpu [OF never_fails_map(2)] triple_andThen [OF triple_on_gpu triple_ret]])
        (auto intro: tables_after_same)
    then show ?thesis
      by (cases m) (auto simp del: step_simps intro!: triple_checked triple_ret tables_after_same)
  qed
  show ?thesis
    unfolding read_buffer_def
    by (rule triple_andThen [OF triple_locked_lookup triple_checked [OF triple_andThen [OF triple_on_gpu [OF never_fails_map(1)] finish]]])
qed

lemma effect_write_buffer: "effect (WriteBuffer i off data) t (write_buffer srv i off data)"
proof -
  have "triple (has_tables t) (with_buffer i (\<lambda>b. on_gpu (gpu_exec d (QueueWriteBuffer b off data))))
      (\<lambda>_. has_tables t) (has_tables t) (has_tables t)" for d
    unfolding with_buffer_def by (intro triple_locked triple_lookup triple_on_gpu never_fails_gpu)
  then show ?thesis
    unfolding write_buffer_def
    by (rule triple_andThen [OF _ triple_andThen [OF triple_on_gpu triple_ret]])
      (auto intro: tables_after_same)
qed

lemma effect_write_texture:
  "effect (WriteTexture x m org a data l e) t (write_texture srv x m org a data l e)"
  unfolding write_texture_def
  by (intro triple_locked triple_lookup
      triple_andThen [OF triple_on_gpu triple_andThen [OF triple_on_gpu triple_ret]] never_fails_gpu)
    (auto intro: tables_after_same)

lemma effect_destroy: "effect (Destroy r) t (destroy r)"
proof (cases r)
  case (RBuffer i)
  have "effect (Destroy (RBuffer i)) t
      (andThen (locked (\<lambda>t. put_tables (remove_in buffers_update i t))) (\<lambda>_. ret RespOk))"
    by (rule triple_andThen [OF triple_locked [OF triple_put_tables] triple_ret])
      (auto simp: tables_after_def has_tables_def known_def after_def)
  with RBuffer show ?thesis by (simp add: destroy_def del: step_simps)
qed (auto simp: destroy_def simp del: step_simps intro!: triple_ret tables_after_same)

lemma effect_shader_module:
  "effect (CreateShaderModule i desc) t (create_shader_module srv i desc)"
proof (cases "sm_source desc")
  case (Wgsl src)
  then show ?thesis
    by (auto simp: create_shader_module_def simp del: step_simps intro!: effect_create_unlocked)
qed (auto simp: create_shader_module_def simp del: step_simps intro!: triple_ret tables_after_error)

lemma handle_action_effect: "effect act t (handle_action srv act)"
proof (cases act)
  case (DeriveRenderPipelineBindGroupLayout p n i)
  then show ?thesis
    by (simp add: derive_render_bind_group_layout_def effect_derive del: step_simps)
next
  case (DeriveComputePipelineBindGroupLayout p n i)
  then show ?thesis
    by (simp add: derive_compute_bind_group_layout_def effect_derive del: step_simps)
next
  case (Submit recordings)
  have "effect (Submit recordings) t (submit srv recordings)"
    by (rule triple_weaken [OF submit_tables]) (auto intro: tables_after_same)
  with Submit show ?thesis by simp
qed (auto simp: create_defs simp del: step_simps
    intro!: effect_create_unlocked effect_create_locked effect_read effect_write_buffer
      effect_write_texture effect_destroy effect_shader_module triple_ret tables_after_same)

subsection \<open>Early exits carry errors\<close>

definition errors_only :: "('s, response, 'a) step \<Rightarrow> bool" where
  "errors_only m \<longleftrightarrow> (\<forall>s e. fst (m s) = Fail e \<longrightarrow> is_error e)"

lemma refuses_is_error: "refuses r \<Longrightarrow> r = Inl e \<Longrightarrow> is_error e"
  by (auto simp: refuses_def)

lemma errors_only_pure [simp]: "errors_only (ret a)" "errors_only (lift_opt x)" "errors_only (put_tables t)"
  by (auto simp: errors_only_def lift_opt_def split: option.splits)

lemma errors_only_lift_res: "refuses r \<Longrightarrow> errors_only (lift_res r)"
  by (auto simp: errors_only_def lift_res_def refuses_is_error split: sum.splits)

lemma errors_only_never_fails: "never_fails m \<Longrightarrow> errors_only m"
  by (simp add: errors_only_def never_fails_def)

lemma errors_only_on_gpu: "never_fails m \<Longrightarrow> errors_only (on_gpu m)"
  unfolding errors_only_def never_fails_def by (auto simp: on_gpu_def split: prod.splits) (metis fst_conv)

lemma errors_only_andThen:
  "errors_only m \<Longrightarrow> (\<And>a. errors_only (f a)) \<Longrightarrow> errors_only (andThen m f)"
  unfolding errors_only_def andThen_def by (auto split: prod.splits flow.splits) (metis fst_conv)+

lemma errors_only_locked:
  assumes "\<And>t. errors_only (body t)"
  shows "errors_only (locked body)"
  unfolding errors_only_def
proof (intro allI impI)
  fix s e
  assume fail: "fst (locked body s) = Fail e"
  obtain r s' where run: "locked body s = (r, s')" by (rule prod.exhaust)
  then show "is_error e"
  proof (cases rule: locked_cases)
    case body
    then show ?thesis using assms fail run unfolding errors_only_def by (metis fst_conv)
  qed (use fail run in auto)
qed

lemma errors_only_answer: "errors_only (answer m)"
  by (auto simp: errors_only_def answer_def split: prod.splits flow.splits)

lemmas errors_only_intros =
  errors_only_pure errors_only_andThen errors_only_locked errors_only_lift_res errors_only_on_gpu
  never_fails_gpu never_fails_map refuses_intros

lemma refuses_calls:
  "refuses (texture_view_call x tv t)" "refuses (bind_group_call bg t)" "refuses (pipeline_layout_call pl t)"
  "refuses (compute_pipeline_call cp t)" "refuses (render_pipeline_call rp t)"
proof -
  have "refuses (bind_group_entry_of t e)" for e
    by (auto simp: bind_group_entry_of_def refuses_def [of "Inl _"] split: binding_resource.split
        intro!: refuses_intros)
  moreover have "refuses (optional_layout t l)" for l
    by (auto simp: optional_layout_def split: option.split intro!: refuses_intros)
  moreover have "refuses (fragment_module t f)" for f :: "'f fragment_state option"
    by (auto simp: fragment_module_def split: option.split intro!: refuses_intros)
  ultimately show "refuses (texture_view_call x tv t)" "refuses (bind_group_call bg t)"
    "refuses (pipeline_layout_call pl t)" "refuses (compute_pipeline_call cp t)"
    "refuses (render_pipeline_call rp t)"
    unfolding texture_view_call_def bind_group_call_def pipeline_layout_call_def
      compute_pipeline_call_def render_pipeline_call_def
    by (auto intro!: refuses_intros)
qed

lemma errors_only_create:
  "errors_only (create_unlocked srv c upd i)"
  "(\<And>t. refuses (resolve t)) \<Longrightarrow> errors_only (create_locked srv resolve upd i)"
  by (auto simp: create_unlocked_def create_locked_def store_def simp del: step_simps intro!: errors_only_intros)

lemma handle_action_errors_only: "errors_only (handle_action srv act)"
proof (cases act)
  case (CreateShaderModule i desc)
  then show ?thesis
    by (auto simp: create_shader_module_def simp del: step_simps split: shader_source.split
        intro!: errors_only_create)
next
  case (Destroy r)
  then show ?thesis
    by (auto simp: destroy_def simp del: step_simps split: resource_id.split intro!: errors_only_intros)
next
  case (MapBufferForRead i off len)
  then show ?thesis
    by (auto simp: read_buffer_def simp del: step_simps split: map_result.split intro!: errors_only_intros)
qed (auto simp: create_defs write_buffer_def with_buffer_def write_texture_def submit_def
    derive_render_bind_group_layout_def derive_compute_bind_group_layout_def simp del: step_simps
    intro!: errors_only_create errors_only_intros refuses_calls errors_only_answer)

subsection \<open>Acceptance\<close>

text \<open>The tables are \<open>t\<close> and the lock is sound.\<close>

definition ready :: "'h resource_tables \<Rightarrow> ('h, 'g) engine \<Rightarrow> bool" where
  "ready t s \<longleftrightarrow> eng_tables s = t \<and> \<not> eng_poisoned s"

definition sound_lock :: "('h, 'g) engine \<Rightarrow> bool" where
  "sound_lock s \<longleftrightarrow> \<not> eng_poisoned s"

abbreviation never :: "'s \<Rightarrow> bool" where
  "never \<equiv> \<lambda>_. False"

lemma ready_on_gpu:
  assumes "never_fails m" and "no_panic m"
  shows "triple (ready t) (on_gpu m) (\<lambda>_. ready t) F never"
proof (rule tripleI)
  fix s r s'
  assume t: "ready t s" and run: "on_gpu m s = (r, s')"
  obtain g where m: "m (eng_gpu s) = (r, g)" and s': "s' = s\<lparr>eng_gpu := g\<rparr>"
    using run by (rule on_gpu_cases)
  have "fst (m (eng_gpu s)) \<noteq> Fail e" and "fst (m (eng_gpu s)) \<noteq> Panic" for e
    using assms by (simp_all add: never_fails_def no_panic_def)
  then show "case r of Ret a \<Rightarrow> ready t s' | Fail e \<Rightarrow> F s' | Panic \<Rightarrow> False"
    using t s' m by (cases r) (auto simp: ready_def)
qed

lemma ready_locked:
  assumes "triple (ready t) (body t) Q F never"
  shows "triple (ready t) (locked body) Q F never"
proof (rule tripleI)
  fix s r s'
  assume t: "ready t s" and run: "locked body s = (r, s')"
  from run show "case r of Ret a \<Rightarrow> Q a s' | Fail e \<Rightarrow> F s' | Panic \<Rightarrow> False"
  proof (cases rule: locked_cases)
    case (Panic s'')
    then show ?thesis
      using tripleD [OF assms t, of Panic s''] t by (simp add: ready_def)
  next
    case body
    then show ?thesis
      using tripleD [OF assms t, of r s'] t by (simp add: ready_def)
  qed (use t in \<open>simp add: ready_def\<close>)
qed

lemma ready_put_tables: "triple (ready t) (put_tables t') (\<lambda>_. sound_lock) F never"
  by (simp add: triple_def ready_def sound_lock_def)

lemma ready_store: "triple (ready t) (store upd i h) (\<lambda>_. sound_lock) F never"
  unfolding store_def by (intro ready_locked ready_put_tables)

text \<open>A lookup splits into the accepted and the refused case.\<close>

lemma triple_decide:
  assumes "\<And>a. r = Inr a \<Longrightarrow> triple P (f a) Q F X" and "\<And>e s. r = Inl e \<Longrightarrow> P s \<Longrightarrow> F s"
  shows "triple P (andThen (lift_res r) f) Q F X"
  using assms by (cases r) (auto simp: triple_def andThen_def)

text \<open>The answer is an error exactly when \<open>A\<close> fails, and the lock stays sound.\<close>

definition answers :: "bool \<Rightarrow> 'h resource_tables \<Rightarrow> (('h, 'g) engine, response, response) step \<Rightarrow> bool" where
  "answers A t m \<longleftrightarrow>
     triple (ready t) m (\<lambda>r s. (is_error r \<longleftrightarrow> \<not> A) \<and> sound_lock s) (\<lambda>s. \<not> A \<and> sound_lock s) never"

lemma no_panic_map:
  assumes "never_panics d"
  shows "no_panic (gpu_map_async d sl)" "no_panic (gpu_mapped_range d sl)"
  using gpu_call_Ret(3,4) [OF assms] unfolding no_panic_def by (metis flow.distinct(3) fst_conv)+

lemma ready_create:
  "never_panics d \<Longrightarrow> triple (ready t) (on_gpu (gpu_create d c)) (\<lambda>_. ready t) F never"
  by (intro ready_on_gpu never_fails_gpu no_panic_gpu)

lemma ready_exec:
  "never_panics d \<Longrightarrow> triple (ready t) (on_gpu (gpu_exec d x)) (\<lambda>_. ready t) F never"
  by (intro ready_on_gpu never_fails_gpu no_panic_gpu)

lemma answers_store:
  "answers True t (andThen (store upd i h) (\<lambda>_. ret RespOk))"
  unfolding answers_def
  by (rule triple_andThen [OF ready_store triple_ret]) simp

lemma answers_create_unlocked:
  assumes good: "never_panics (srv_device srv)"
  shows "answers True t (create_unlocked srv c upd i)"
  unfolding create_unlocked_def answers_def
  by (rule triple_andThen [OF ready_create [OF good]]) (rule answers_store [unfolded answers_def])

lemma answers_create_locked:
  assumes good: "never_panics (srv_device srv)"
    and A: "A \<longleftrightarrow> (\<exists>c. resolve t = Inr c)"
  shows "answers A t (create_locked srv resolve upd i)"
  unfolding create_locked_def answers_def
proof (rule triple_andThen [where Q = "\<lambda>_ s. A \<and> ready t s"])
  show "triple (ready t) (locked (\<lambda>t. andThen (lift_res (resolve t)) (\<lambda>call. on_gpu (gpu_create (srv_device srv) call))))
      (\<lambda>_ s. A \<and> ready t s) (\<lambda>s. \<not> A \<and> sound_lock s) never"
  proof (intro ready_locked triple_decide)
    fix c assume "resolve t = Inr c"
    then show "triple (ready t) (on_gpu (gpu_create (srv_device srv) c)) (\<lambda>_ s. A \<and> ready t s) (\<lambda>s. \<not> A \<and> sound_lock s) never"
      using A by (intro triple_weaken [OF ready_create [OF good]]) auto
  qed (use A in \<open>auto simp: ready_def sound_lock_def\<close>)
  show "triple (\<lambda>s. A \<and> ready t s) (andThen (store upd i h) (\<lambda>_. ret RespOk))
      (\<lambda>r s. (is_error r \<longleftrightarrow> \<not> A) \<and> sound_lock s) (\<lambda>s. \<not> A \<and> sound_lock s) never" for h
    using answers_store [of t upd i h] by (cases A) (auto simp: triple_def answers_def)
qed

lemma answers_derive:
  assumes good: "never_panics (srv_device srv)"
  shows "answers (\<exists>p. look t = Inr p) t (locked (\<lambda>t. andThen (lift_res (look t)) (\<lambda>p.
       andThen (on_gpu (gpu_create (srv_device srv) (c p))) (\<lambda>bgl.
       andThen (put_tables (insert_in upd i bgl t)) (\<lambda>_. ret RespOk)))))"
  unfolding answers_def
proof (intro ready_locked triple_decide)
  fix p assume "look t = Inr p"
  then show "triple (ready t) (andThen (on_gpu (gpu_create (srv_device srv) (c p))) (\<lambda>bgl.
       andThen (put_tables (insert_in upd i bgl t)) (\<lambda>_. ret RespOk)))
     (\<lambda>r s. (is_error r \<longleftrightarrow> \<not> (\<exists>p. look t = Inr p)) \<and> sound_lock s)
     (\<lambda>s. \<not> (\<exists>p. look t = Inr p) \<and> sound_lock s) never"
    by (intro triple_andThen [OF ready_create [OF good]]
        triple_andThen [OF ready_put_tables] triple_ret) auto
qed (auto simp: ready_def sound_lock_def)

lemma answers_write_buffer:
  assumes good: "never_panics (srv_device srv)"
  shows "answers (knows t (RBuffer i)) t (write_buffer srv i off data)"
  unfolding write_buffer_def with_buffer_def answers_def
proof (rule triple_andThen [where Q = "\<lambda>_ s. knows t (RBuffer i) \<and> ready t s"])
  show "triple (ready t) (locked (\<lambda>t. andThen (lift_res (lookup_in ''BufferId'' (buffers t) i))
        (\<lambda>b. on_gpu (gpu_exec (srv_device srv) (QueueWriteBuffer b off data)))))
      (\<lambda>_ s. knows t (RBuffer i) \<and> ready t s) (\<lambda>s. \<not> knows t (RBuffer i) \<and> sound_lock s) never"
    by (intro ready_locked triple_decide triple_weaken [OF ready_exec [OF good]])
      (auto simp: ready_def sound_lock_def lookup_in_eq_Inl)
  have "triple (ready t) (andThen (on_gpu (gpu_exec (srv_device srv) (QueueSubmit []))) (\<lambda>_. ret RespOk))
      (\<lambda>r s. (is_error r \<longleftrightarrow> False) \<and> sound_lock s) never never"
    by (rule triple_andThen [OF ready_exec [OF good] triple_ret])
      (simp add: ready_def sound_lock_def)
  then show "triple (\<lambda>s. knows t (RBuffer i) \<and> ready t s)
      (andThen (on_gpu (gpu_exec (srv_device srv) (QueueSubmit []))) (\<lambda>_. ret RespOk))
      (\<lambda>r s. (is_error r \<longleftrightarrow> \<not> knows t (RBuffer i)) \<and> sound_lock s)
      (\<lambda>s. \<not> knows t (RBuffer i) \<and> sound_lock s) never"
    by (auto simp: triple_def split: prod.splits flow.splits)
qed

lemma answers_write_texture:
  assumes good: "never_panics (srv_device srv)"
  shows "answers (knows t (RTexture x)) t (write_texture srv x m org a data l e)"
  unfolding write_texture_def answers_def
  by (intro ready_locked triple_decide
      triple_andThen [OF ready_exec [OF good]
        triple_andThen [OF ready_exec [OF good] triple_ret]])
    (auto simp: ready_def sound_lock_def lookup_in_eq_Inl)

lemma ready_map:
  assumes "never_panics d" and "maps_succeed d"
  shows "triple (ready t) (on_gpu (gpu_map_async d sl)) (\<lambda>m s. m = MapOk \<and> ready t s) F never"
proof (rule tripleI)
  fix s r s'
  assume t: "ready t s" and run: "on_gpu (gpu_map_async d sl) s = (r, s')"
  obtain x g where w: "wg_map_async d sl (eng_gpu s) = (x, g)" by (rule prod.exhaust)
  have "fst (wg_map_async d sl (eng_gpu s)) \<noteq> None"
    and "fst (wg_map_async d sl (eng_gpu s)) \<in> {None, Some MapOk}"
    using assms unfolding never_panics_def maps_succeed_def by blast+
  then have "x = Some MapOk" using w by auto
  then show "case r of Ret m \<Rightarrow> m = MapOk \<and> ready t s' | Fail e \<Rightarrow> F s' | Panic \<Rightarrow> never s'"
    using run t w by (auto simp: on_gpu_def gpu_map_async_def ready_def)
qed

lemma answers_read_buffer:
  fixes srv :: "('w, 'h, 'g) server"
  assumes good: "never_panics (srv_device srv)" and "maps_succeed (srv_device srv)"
    and "\<not> srv_overflow_checks srv"
  shows "answers (knows t (RBuffer i)) t (read_buffer srv i off len)"
proof (cases "buffers t i")
  case None
  have "triple (ready t) (locked (\<lambda>t. lift_res (lookup_in ''BufferId'' (buffers t) i)))
      (\<lambda>_. never) (\<lambda>s. \<not> knows t (RBuffer i) \<and> sound_lock s) never"
    by (rule ready_locked) (simp add: triple_def None ready_def sound_lock_def)
  then show ?thesis
    unfolding read_buffer_def answers_def by (rule triple_andThen) (simp add: triple_def)
next
  case (Some b)
  have look: "triple (ready t) (locked (\<lambda>t. lift_res (lookup_in ''BufferId'' (buffers t) i)))
      (\<lambda>_. ready t) (\<lambda>s. \<not> knows t (RBuffer i) \<and> sound_lock s) never"
    by (rule ready_locked) (simp add: triple_def Some ready_def)
  let ?d = "srv_device srv"
  have view: "triple (ready t) (andThen (on_gpu (gpu_mapped_range ?d sl)) (\<lambda>view.
      andThen (on_gpu (gpu_exec ?d (UnmapBuffer buf))) (\<lambda>_. ret (BufferData view))))
      (\<lambda>r s. (is_error r \<longleftrightarrow> \<not> knows t (RBuffer i)) \<and> sound_lock s) F never" for sl buf F
    by (rule triple_andThen [OF ready_on_gpu [OF never_fails_map(2) no_panic_map(2) [OF good]]
          triple_andThen [OF ready_exec [OF good] triple_ret]])
      (simp add: Some ready_def sound_lock_def)
  have slice: "triple P (andThen (lift_opt (slice_of (srv_overflow_checks srv) buf off (Some len))) f) Q F X"
    if "\<And>sl. triple P (f sl) Q F X" for P f Q F X and buf :: 'h
    using assms(3) that by (simp add: slice_of_def add_u64_def)
  have finish: "triple (\<lambda>s. m = MapOk \<and> ready t s) (case m of
        MapOk \<Rightarrow> andThen (lift_opt (slice_of (srv_overflow_checks srv) buf off (Some len))) (\<lambda>slice.
           andThen (on_gpu (gpu_mapped_range ?d slice)) (\<lambda>view.
           andThen (on_gpu (gpu_exec ?d (UnmapBuffer buf))) (\<lambda>_. ret (BufferData view))))
      | MapErr e \<Rightarrow> ret (RespError Internal (''buffer map_async failed: '' @ e))
      | MapDropped \<Rightarrow> ret (RespError Internal ''map callback channel dropped''))
      (\<lambda>r s. (is_error r \<longleftrightarrow> \<not> knows t (RBuffer i)) \<and> sound_lock s) F never" for m buf F
  proof (cases m)
    case MapOk
    then show ?thesis
      by (simp only: simp_thms map_result.case) (rule slice [OF view])
  qed (simp_all add: triple_def)
  show ?thesis
    unfolding read_buffer_def answers_def
    by (rule triple_andThen [OF look slice [OF triple_andThen [OF ready_map [OF good assms(2)] finish]]])
qed

lemma answers_submit:
  assumes "never_panics (srv_device srv)" and "\<not> srv_overflow_checks srv"
  shows "answers (list_all (submittable srv t) recordings) t (submit srv recordings)"
  unfolding answers_def
proof (rule tripleI)
  fix s r s'
  assume t: "ready t s" and run: "submit srv recordings s = (r, s')"
  let ?p = "submit_plan srv t recordings"
  obtain q g where q: "submit_with srv (eng_tables s) recordings (eng_gpu s) = (q, g)" by (rule prod.exhaust)
  have np: "q \<noteq> Panic"
    using no_panic_submit_with [OF assms, of "eng_tables s" recordings] q
    by (auto simp: no_panic_def) (metis fst_conv)
  have plan: "(\<exists>p. ?p = Inr p) \<longleftrightarrow> list_all (submittable srv t) recordings"
    by (simp add: submit_plan_ok list_all_iff)
  show "case r of Ret a \<Rightarrow> (is_error a \<longleftrightarrow> \<not> list_all (submittable srv t) recordings) \<and> sound_lock s'
      | Fail e \<Rightarrow> \<not> list_all (submittable srv t) recordings \<and> sound_lock s' | Panic \<Rightarrow> never s'"
  proof (cases ?p)
    case (Inl e)
    then have "q = Fail e"
      using realises_Inl [OF realises_submit_with, of srv "eng_tables s" recordings e "eng_gpu s"] t q np
      by (simp add: ready_def)
    moreover have "is_error e"
      using submit_plan_refuses Inl by (rule refuses_is_error)
    ultimately show ?thesis
      using submit_on_gpu [of s srv recordings] run q t plan Inl by (auto simp: ready_def sound_lock_def)
  next
    case (Inr ps)
    then have "q = Ret RespOk"
      using realises_Inr [OF realises_submit_with, of srv "eng_tables s" recordings ps] t q np
      by (auto simp: ready_def intro: issue_submission_Ret)
    then show ?thesis
      using submit_on_gpu [of s srv recordings] run q t plan Inr by (auto simp: ready_def sound_lock_def)
  qed
qed

text \<open>Actions that answer without looking at anything.\<close>

lemma answers_ret: "(is_error r \<longleftrightarrow> \<not> A) \<Longrightarrow> answers A t (ret r)"
  unfolding answers_def by (rule triple_ret) (simp add: ready_def sound_lock_def)

lemma answers_destroy: "answers True t (destroy r)"
proof (cases r)
  case (RBuffer i)
  have "answers True t (andThen (locked (\<lambda>t. put_tables (remove_in buffers_update i t))) (\<lambda>_. ret RespOk))"
    unfolding answers_def by (rule triple_andThen [OF ready_locked [OF ready_put_tables] triple_ret]) simp
  with RBuffer show ?thesis by (simp add: destroy_def del: step_simps)
qed (simp_all add: destroy_def answers_ret del: step_simps)

lemma answers_shader_module:
  assumes "never_panics (srv_device srv)"
  shows "answers (supported (CreateShaderModule i desc)) t (create_shader_module srv i desc)"
  by (cases "sm_source desc")
    (simp_all add: create_shader_module_def answers_create_unlocked [OF assms] answers_ret del: step_simps)

lemma derive_refs:
  "(\<exists>p. lookup_in k (render_pipelines t) i = Inr p) \<longleftrightarrow> knows t (RRenderPipeline i)"
  "(\<exists>p. lookup_in k (compute_pipelines t) j = Inr p) \<longleftrightarrow> knows t (RComputePipeline j)"
  by auto

lemma handle_action_answers:
  assumes good: "never_panics (srv_device srv)" and "maps_succeed (srv_device srv)"
    and "\<not> srv_overflow_checks srv"
  shows "answers (acceptable srv t act) t (handle_action srv act)"
proof (cases act)
  case (CreateBindGroup i desc)
  then show ?thesis
    by (simp only: handle_action.simps create_bind_group_def, intro answers_create_locked [OF good])
      (rule bind_group_call_ok [symmetric])
next
  case (CreateRenderPipeline i desc)
  then show ?thesis
    by (simp only: handle_action.simps create_render_pipeline_def, intro answers_create_locked [OF good])
      (rule render_pipeline_call_ok [symmetric])
next
  case (CreateComputePipeline i desc)
  then show ?thesis
    by (simp only: handle_action.simps create_compute_pipeline_def, intro answers_create_locked [OF good])
      (unfold compute_pipeline_call_ok, simp add: acceptable_def)
next
  case (CreatePipelineLayout i desc)
  then show ?thesis
    by (simp only: handle_action.simps create_pipeline_layout_def, intro answers_create_locked [OF good])
      (unfold pipeline_layout_call_ok, simp add: acceptable_def)
next
  case (CreateTextureView i x desc)
  then show ?thesis
    by (simp only: handle_action.simps create_texture_view_def, intro answers_create_locked [OF good])
      (unfold texture_view_call_ok, simp add: acceptable_def)
next
  case (DeriveRenderPipelineBindGroupLayout p n i)
  then show ?thesis
    using answers_derive [OF good, of "\<lambda>t. lookup_in ''RenderPipelineId'' (render_pipelines t) p" t
        "\<lambda>rp. GetBindGroupLayout rp n" bind_group_layouts_update i]
    unfolding derive_refs by (simp add: derive_render_bind_group_layout_def acceptable_def del: step_simps)
next
  case (DeriveComputePipelineBindGroupLayout p n i)
  then show ?thesis
    using answers_derive [OF good, of "\<lambda>t. lookup_in ''ComputePipelineId'' (compute_pipelines t) p" t
        "\<lambda>rp. GetBindGroupLayout rp n" bind_group_layouts_update i]
    unfolding derive_refs by (simp add: derive_compute_bind_group_layout_def acceptable_def del: step_simps)
next
  case (WriteBuffer i off data)
  then show ?thesis
    using answers_write_buffer [OF good, of t i off data] by (simp add: acceptable_def)
next
  case (WriteTexture x m org a data l e)
  then show ?thesis
    using answers_write_texture [OF good, of t x m org a data l e] by (simp add: acceptable_def)
next
  case (MapBufferForRead i off len)
  then show ?thesis
    using answers_read_buffer [OF assms, of t i off len] by (simp add: acceptable_def)
next
  case (Submit recordings)
  then show ?thesis
    using answers_submit [OF good assms(3), of t recordings] by (simp add: acceptable_def)
next
  case (CreateShaderModule i desc)
  then show ?thesis
    using answers_shader_module [OF good, of i desc t] by (simp add: acceptable_def)
next
  case (Hello v)
  then show ?thesis
    by (simp add: hello_def acceptable_def answers_ret del: step_simps)
qed (simp_all add: create_defs acceptable_def answers_destroy answers_create_unlocked [OF good] answers_ret
    del: step_simps)

end
