(* ===== verification/Engine_Properties.thy ===== *)
theory Engine_Properties
  imports Engine_Spec
begin

section \<open>Properties of the engine\<close>

text \<open>
  The theorems about \<open>Engine::handle\<close> and \<open>Engine::dispatch\<close>, from the triples of
  \<open>Engine_Spec\<close>.
\<close>

subsection \<open>A run of actions\<close>

text \<open>The actions of a stream, handled one after the other until one panics, with their answers.\<close>

fun handle_all ::
  "('w, 'h, 'g) server \<Rightarrow> 'w action list \<Rightarrow> ('h, 'g) engine \<Rightarrow> response list \<times> ('h, 'g) engine" where
  "handle_all srv [] s = ([], s)"
| "handle_all srv (act # acts) s =
     (case handle srv act s of
        (Ret (Some r), s') \<Rightarrow> (case handle_all srv acts s' of (rs, s'') \<Rightarrow> (r # rs, s''))
      | (_, s') \<Rightarrow> ([], s'))"

text \<open>The abstract run: an error changes nothing.\<close>

definition abstract_step :: "'w action \<Rightarrow> response \<Rightarrow> resource_id set \<Rightarrow> resource_id set" where
  "abstract_step act r K = (if is_error r then K else after act K)"

definition abstract_run :: "('w action \<times> response) list \<Rightarrow> resource_id set \<Rightarrow> resource_id set" where
  "abstract_run = fold (\<lambda>(act, r). abstract_step act r)"

lemma handle_cases [consumes 1, case_names Ret Panic]:
  assumes "handle srv act s = (out, s')"
  obtains r where "out = Ret (Some r)" and "answer (handle_action srv act) s = (Ret r, s')"
  | "out = Panic" and "answer (handle_action srv act) s = (Panic, s')"
  using assms by (auto simp: handle_def answer_def andThen_def split: prod.splits flow.splits)

lemma handle_action_outcome:
  assumes "answer (handle_action srv act) s = (out, s')"
  shows "case out of
      Ret r \<Rightarrow> (if is_error r then eng_tables s' = eng_tables s else known s' = after act (known s))
    | Fail e \<Rightarrow> False
    | Panic \<Rightarrow> eng_tables s' = eng_tables s"
proof -
  have t: "has_tables (eng_tables s) s" by (simp add: has_tables_def)
  note effect = tripleD [OF handle_action_effect [where act = act and t = "eng_tables s" and srv = srv] t]
  show ?thesis
    using assms
  proof (cases rule: answer_cases)
    case (Ret r)
    then show ?thesis using effect [OF Ret(1)] by (simp add: tables_after_def known_def split: if_splits)
  next
    case (Fail r)
    have "is_error r"
      using handle_action_errors_only [of srv act] Fail(1) unfolding errors_only_def by (metis fst_conv)
    then show ?thesis using effect [OF Fail(1)] Fail(2) by (simp add: has_tables_def)
  next
    case Panic
    then show ?thesis using effect [OF Panic(1)] by (simp add: has_tables_def)
  qed
qed

subsection \<open>Refinement\<close>

lemma handle_outcome:
  assumes "handle srv act s = (out, s')"
  shows "case out of
      Ret (Some r) \<Rightarrow> (if is_error r then eng_tables s' = eng_tables s else known s' = after act (known s))
    | Ret None \<Rightarrow> False
    | Fail e \<Rightarrow> False
    | Panic \<Rightarrow> eng_tables s' = eng_tables s"
  using assms
proof (cases rule: handle_cases)
  case (Ret r)
  then show ?thesis using handle_action_outcome [OF Ret(2)] by simp
next
  case Panic
  then show ?thesis using handle_action_outcome [OF Panic(2)] by simp
qed

text \<open>C1: the engine refines its specification. Handling any action, on any device, ends in a
  response or a panic. After an error response or a panic the tables are exactly what they were;
  after any other response the resources known are the ones the action leaves: the one it creates is
  added, the buffer it destroys is removed, and nothing else changes.\<close>

theorem handle_refines:
  assumes "handle srv act s = (out, s')"
  shows "case out of
      Ret (Some r) \<Rightarrow> (if is_error r then eng_tables s' = eng_tables s else known s' = after act (known s))
    | Ret None \<Rightarrow> False
    | Fail e \<Rightarrow> False
    | Panic \<Rightarrow> eng_tables s' = eng_tables s"
  by (rule handle_outcome [OF assms])

definition demo_buffer :: buffer_descriptor where
  "demo_buffer = \<lparr>bd_label = None, bd_size = 64, bd_usage = 12, bd_mapped_at_creation = False\<rparr>"

theorem handle_refines_witness:
  "known (snd (handle (demo_server good_device False copy_recording)
      (CreateBuffer (Id 7) demo_buffer) (demo_engine 0)))
   = known (demo_engine (0 :: nat)) \<union> {RBuffer (Id 7)}"
proof -
  let ?srv = "demo_server good_device False copy_recording"
  obtain out s' where run: "handle ?srv (CreateBuffer (Id 7) demo_buffer) (demo_engine 0) = (out, s')"
    by (rule prod.exhaust)
  then have "out = Ret (Some RespOk)"
    by (auto simp: handle_def create_buffer_def create_unlocked_def store_def demo_eval)
  then show ?thesis
    using handle_refines [OF run] run by (simp add: after_def)
qed

text \<open>Refinement of runs. Over any sequence of actions, the resources known at the end are those
  the abstract run gives from the answers alone.\<close>

theorem handle_all_refines:
  assumes "handle_all srv acts s = (rs, s')"
  shows "known s' = abstract_run (zip acts rs) (known s)"
  using assms
proof (induction acts arbitrary: s rs s')
  case Nil
  then show ?case by (simp add: abstract_run_def)
next
  case (Cons act acts)
  obtain out s1 where run: "handle srv act s = (out, s1)" by (rule prod.exhaust)
  note step = handle_outcome [OF run]
  from run show ?case
  proof (cases rule: handle_cases)
    case (Ret r)
    obtain rs1 s2 where rest: "handle_all srv acts s1 = (rs1, s2)" by (rule prod.exhaust)
    have "known s1 = abstract_step act r (known s)"
      using step Ret by (auto simp: abstract_step_def known_def)
    then show ?thesis
      using Cons.IH [OF rest] Cons.prems run rest Ret by (auto simp: abstract_run_def)
  next
    case Panic
    then show ?thesis
      using Cons.prems run step by (auto simp: abstract_run_def known_def)
  qed
qed

theorem handle_all_refines_witness:
  "known (snd (handle_all (demo_server good_device False copy_recording)
      [CreateBuffer (Id 7) demo_buffer, Destroy (RBuffer (Id 1)), WriteBuffer (Id 1) 0 [1]] (demo_engine 0)))
   = (known (demo_engine (0 :: nat)) \<union> {RBuffer (Id 7)}) - {RBuffer (Id 1)}"
proof -
  let ?srv = "demo_server good_device False copy_recording"
  let ?acts = "[CreateBuffer (Id 7) demo_buffer, Destroy (RBuffer (Id 1)), WriteBuffer (Id 1) 0 [1]] :: nat action list"
  obtain rs s' where run: "handle_all ?srv ?acts (demo_engine 0) = (rs, s')" by (rule prod.exhaust)
  then have "rs = [RespOk, RespOk, unknown_resource ''BufferId'' 1]"
    by (auto simp: handle_def create_buffer_def create_unlocked_def store_def destroy_def
        write_buffer_def with_buffer_def remove_in_def insert_in_def demo_eval)
  then show ?thesis
    using handle_all_refines [OF run] run
    by (auto simp: abstract_run_def abstract_step_def after_def)
qed

subsection \<open>Acceptance\<close>

lemma handle_acceptance:
  assumes "\<not> eng_poisoned s" and "never_panics (srv_device srv)" and "maps_succeed (srv_device srv)"
    and "\<not> srv_overflow_checks srv"
  shows "\<exists>r s'. handle srv act s = (Ret (Some r), s') \<and> \<not> eng_poisoned s'
    \<and> (is_error r \<longleftrightarrow> \<not> acceptable srv (eng_tables s) act)"
proof -
  obtain out s' where run: "handle_action srv act s = (out, s')" by (rule prod.exhaust)
  have "ready (eng_tables s) s" using assms(1) by (simp add: ready_def)
  from tripleD [OF handle_action_answers [OF assms(2-4), unfolded answers_def] this run]
  have post: "case out of
      Ret r \<Rightarrow> (is_error r \<longleftrightarrow> \<not> acceptable srv (eng_tables s) act) \<and> sound_lock s'
    | Fail e \<Rightarrow> \<not> acceptable srv (eng_tables s) act \<and> sound_lock s'
    | Panic \<Rightarrow> never s'" .
  show ?thesis
  proof (cases out)
    case (Ret r)
    then show ?thesis
      using run post by (auto simp: handle_def answer_def andThen_def sound_lock_def)
  next
    case (Fail e)
    then have "is_error e"
      using handle_action_errors_only [of srv act] run unfolding errors_only_def by (metis fst_conv)
    with Fail show ?thesis
      using run post by (auto simp: handle_def answer_def andThen_def sound_lock_def)
  qed (use post in simp)
qed

text \<open>C3: which requests are answered with an error. On a device that does not panic and whose maps
  succeed, in a build without overflow checks, with the lock not poisoned, every action is answered,
  the lock stays sound, and the answer is an error exactly when the action is unsupported (a wrong
  protocol version, a shader that is not WGSL, an array binding), names a resource that is not in the
  tables, or submits a payload that does not decode or names one.\<close>

theorem handle_accepts:
  assumes "\<not> eng_poisoned s" and "never_panics (srv_device srv)" and "maps_succeed (srv_device srv)"
    and "\<not> srv_overflow_checks srv"
  shows "\<exists>r s'. handle srv act s = (Ret (Some r), s') \<and> \<not> eng_poisoned s'
    \<and> (is_error r \<longleftrightarrow> \<not> acceptable srv (eng_tables s) act)"
  using handle_acceptance [OF assms] .

lemma maps_succeed_good_device [simp]: "maps_succeed good_device"
  by (simp add: maps_succeed_def good_device_def counting_device_def)

theorem handle_accepts_witness:
  "\<exists>r s'. handle (demo_server good_device False copy_recording) (Submit [[1]]) (demo_engine (0 :: nat)) = (Ret (Some r), s')
     \<and> \<not> is_error r"
proof -
  let ?srv = "demo_server good_device False copy_recording"
  have "acceptable ?srv (eng_tables (demo_engine (0 :: nat))) (Submit [[1]])"
    by (simp add: acceptable_def demo_submittable)
  then show ?thesis
    using handle_accepts [of "demo_engine 0" ?srv "Submit [[1]]"] by (auto simp: demo_engine_def)
qed

subsection \<open>A poisoned lock\<close>

text \<open>Whether an action gets to the lock.\<close>

definition decodes :: "('w, 'h, 'g) server \<Rightarrow> bytes \<Rightarrow> bool" where
  "decodes srv payload = (case decode_recording (srv_recordings srv) payload of Inl _ \<Rightarrow> False | Inr _ \<Rightarrow> True)"

fun needs_lock :: "('w, 'h, 'g) server \<Rightarrow> 'w action \<Rightarrow> bool" where
  "needs_lock srv (Hello _) = False"
| "needs_lock srv RequestAdapter = False"
| "needs_lock srv (RequestDevice _) = False"
| "needs_lock srv (CreateCommandEncoder _ _) = False"
| "needs_lock srv (Destroy r) = (case r of RBuffer _ \<Rightarrow> True | _ \<Rightarrow> False)"
| "needs_lock srv (CreateShaderModule _ desc) = (case sm_source desc of Wgsl _ \<Rightarrow> True | _ \<Rightarrow> False)"
| "needs_lock srv (Submit recordings) = (case recordings of [] \<Rightarrow> False | payload # _ \<Rightarrow> decodes srv payload)"
| "needs_lock srv _ = True"

text \<open>\<open>stuck A m\<close>: from a poisoned lock, \<open>m\<close> leaves it poisoned, and panics if \<open>A\<close>.\<close>

definition stuck :: "bool \<Rightarrow> (('h, 'g) engine, response, 'a) step \<Rightarrow> bool" where
  "stuck A m \<longleftrightarrow> triple eng_poisoned m (\<lambda>_ s. \<not> A \<and> eng_poisoned s) (\<lambda>s. \<not> A \<and> eng_poisoned s) eng_poisoned"

lemma stuck_locked: "stuck A (locked body)"
  by (simp add: stuck_def triple_def)

lemma triple_poisoned_on_gpu:
  fixes m :: "('g, response, 'a) step" and F :: "('h, 'g) engine \<Rightarrow> bool"
  assumes "never_fails m"
  shows "triple eng_poisoned (on_gpu m) (\<lambda>_. eng_poisoned) F eng_poisoned"
proof (rule tripleI)
  fix s s' :: "('h, 'g) engine" and r
  assume "eng_poisoned s" and "on_gpu m s = (r, s')"
  moreover have "\<forall>e. fst (m (eng_gpu s)) \<noteq> Fail e"
    using assms by (simp add: never_fails_def)
  ultimately show "case r of Ret a \<Rightarrow> eng_poisoned s' | Fail e \<Rightarrow> F s' | Panic \<Rightarrow> eng_poisoned s'"
    by (cases r) (auto elim!: on_gpu_cases)
qed

lemma stuck_on_gpu: "never_fails m \<Longrightarrow> stuck False (on_gpu m)"
  by (simp add: stuck_def triple_poisoned_on_gpu)

lemma stuck_pure: "stuck False (ret a)" "stuck False (fail e)" "stuck False (lift_opt x)"
  by (simp_all add: stuck_def triple_def lift_opt_def split: option.split)

lemma stuck_first:
  assumes "stuck A m" and "\<And>a. stuck False (f a)"
  shows "stuck A (andThen m f)"
  unfolding stuck_def
proof (rule triple_andThen [OF assms(1) [unfolded stuck_def]])
  show "triple (\<lambda>s. \<not> A \<and> eng_poisoned s) (f a) (\<lambda>_ s. \<not> A \<and> eng_poisoned s)
      (\<lambda>s. \<not> A \<and> eng_poisoned s) eng_poisoned" for a
    using assms(2) [of a] by (cases A) (simp_all add: stuck_def triple_def [of "\<lambda>_. False"])
qed

lemma stuck_after_gpu:
  assumes "never_fails m" and "\<And>a. stuck A (f a)"
  shows "stuck A (andThen (on_gpu m) f)"
  unfolding stuck_def
  by (rule triple_andThen [OF triple_poisoned_on_gpu [OF assms(1)] assms(2) [unfolded stuck_def]])

lemma stuck_answer: "stuck A m \<Longrightarrow> stuck A (answer m)"
  unfolding stuck_def by (rule triple_answer)

lemma stuck_store: "stuck A (store upd i h)"
  unfolding store_def by (rule stuck_locked)

lemma stuck_create: "stuck A (create_unlocked srv c upd i)" "stuck A (create_locked srv resolve upd i)"
proof -
  show "stuck A (create_unlocked srv c upd i)"
    unfolding create_unlocked_def
    by (rule stuck_after_gpu [OF never_fails_gpu(1) stuck_first [OF stuck_store stuck_pure(1)]])
  show "stuck A (create_locked srv resolve upd i)"
    unfolding create_locked_def
    by (rule stuck_first [OF stuck_locked stuck_first [OF stuck_store stuck_pure(1)]])
qed

lemma stuck_replay: "stuck A (replay_recording srv r)"
  unfolding replay_recording_def
  by (rule stuck_after_gpu [OF never_fails_gpu(1) stuck_first [OF stuck_locked stuck_on_gpu]]) (rule never_fails_gpu)

lemma stuck_submit: "stuck (needs_lock srv (Submit recordings)) (submit srv recordings)"
proof -
  have loop: "stuck False (build_command_buffers srv rs cbs)" for rs cbs
  proof (induction rs arbitrary: cbs)
    case (Cons payload rs)
    then show ?case
      by (auto simp del: step_simps split: sum.split intro!: stuck_first [OF stuck_replay] stuck_pure)
  qed (simp add: stuck_pure del: step_simps)
  have "stuck (needs_lock srv (Submit recordings)) (build_command_buffers srv recordings [])"
    by (cases recordings)
      (auto simp: decodes_def simp del: step_simps split: sum.split
        intro!: stuck_first [OF stuck_replay] loop stuck_pure)
  then show ?thesis
    unfolding submit_def
    by (intro stuck_answer stuck_first [OF _ stuck_first [OF stuck_on_gpu stuck_pure(1)]] never_fails_gpu)
qed

lemma stuck_read: "stuck A (read_buffer srv i off len)"
  unfolding read_buffer_def
  by (rule stuck_first [OF stuck_locked], rule stuck_first [OF stuck_pure(3)],
      rule stuck_first [OF stuck_on_gpu [OF never_fails_map(1)]])
    (auto split: map_result.split simp del: step_simps
      intro!: stuck_pure stuck_first [OF stuck_pure(3)] stuck_first [OF stuck_on_gpu] never_fails_map never_fails_gpu)

lemma stuck_handle_action: "stuck (needs_lock srv act) (handle_action srv act)"
proof (cases act)
  case (Submit recordings)
  then show ?thesis using stuck_submit [of srv recordings] by simp
next
  case (Destroy r)
  then show ?thesis
    by (cases r) (auto simp: destroy_def simp del: step_simps intro!: stuck_pure stuck_first [OF stuck_locked])
next
  case (CreateShaderModule i desc)
  then show ?thesis
    by (cases "sm_source desc")
      (auto simp: create_shader_module_def simp del: step_simps intro!: stuck_pure stuck_create)
qed (auto simp: create_defs write_buffer_def with_buffer_def write_texture_def
    derive_render_bind_group_layout_def derive_compute_bind_group_layout_def simp del: step_simps
    intro!: stuck_create stuck_locked stuck_read stuck_pure stuck_first [OF stuck_locked] stuck_first [OF stuck_on_gpu]
      never_fails_gpu)

text \<open>A poisoned lock is for ever, and for everyone. Once a panic has poisoned the table lock it
  stays poisoned whatever is handled next, on any device, and every action that gets to the lock
  panics: no client can create, write, read or submit any more.\<close>

theorem poisoned_for_ever:
  assumes "eng_poisoned s" and "handle srv act s = (out, s')"
  shows "eng_poisoned s' \<and> (needs_lock srv act \<longrightarrow> out = Panic)"
proof -
  note step = tripleD [OF stuck_answer [OF stuck_handle_action [of srv act], unfolded stuck_def] assms(1)]
  from assms(2) show ?thesis
  proof (cases rule: handle_cases)
    case (Ret r)
    then show ?thesis using step [OF Ret(2)] by simp
  next
    case Panic
    then show ?thesis using step [OF Panic(2)] by simp
  qed
qed

theorem poisoned_for_ever_witness:
  "fst (handle (demo_server good_device False copy_recording) (Submit [[1]])
     ((demo_engine (0 :: nat))\<lparr>eng_poisoned := True\<rparr>)) = Panic"
proof -
  let ?srv = "demo_server good_device False copy_recording"
  let ?s = "(demo_engine (0 :: nat))\<lparr>eng_poisoned := True\<rparr>"
  obtain out s' where run: "handle ?srv (Submit [[1]]) ?s = (out, s')" by (rule prod.exhaust)
  have "needs_lock ?srv (Submit [[1]])"
    by (simp add: decodes_def demo_server_def decode_recording_def table_bincode_def)
  then show ?thesis
    using poisoned_for_ever [OF _ run] run by simp
qed

text \<open>C20: one draw command can poison the server. In a build with overflow checks, a submission whose
  recording sets a vertex buffer the server knows with an offset and size that overflow \<open>u64\<close>
  panics under the lock, which is poisoned from then on.\<close>

theorem slice_overflow_poisons:
  assumes "\<not> eng_poisoned s" and "never_panics (srv_device srv)" and "srv_overflow_checks srv"
    and "decode_recording (srv_recordings srv) payload =
      Inr \<lparr>rec_label = l, rec_commands = [BeginRenderPass pl [] None [RSetVertexBuffer slot i off (Some n)]]\<rparr>"
    and "buffers (eng_tables s) i = Some b" and "2 ^ 64 \<le> unat off + unat n"
  shows "\<exists>s'. handle srv (Submit (payload # recordings)) s = (Panic, s') \<and> eng_poisoned s'"
proof -
  let ?d = "srv_device srv"
  obtain enc g1 where enc: "gpu_create ?d (MkCommandEncoder l) (eng_gpu s) = (Ret enc, g1)"
    using gpu_call_Ret(1) [OF assms(2)] by blast
  obtain pass g2 where pass: "gpu_create ?d (MkRenderPass enc pl [] None) g1 = (Ret pass, g2)"
    using gpu_call_Ret(1) [OF assms(2)] by blast
  have "slice_of True b off (Some n) = None"
    using assms(6) by (simp add: slice_of_def add_u64_def)
  then have "for_each (replay_render_command srv (eng_tables s) pass) [RSetVertexBuffer slot i off (Some n)] g2
      = (Panic, g2)"
    using assms(3,5) by (simp add: andThen_def)
  then have "with_pass ?d (MkRenderPass enc pl [] None)
      (\<lambda>pass. for_each (replay_render_command srv (eng_tables s) pass) [RSetVertexBuffer slot i off (Some n)]) g1
      = (Panic, g2)"
    by (rule with_pass_eqs(4) [OF pass])
  then show ?thesis
    using assms(1,4) enc
    by (simp add: handle_def submit_def answer_def andThen_def replay_recording_def on_gpu_def locked_def
        depth_attachment_of_def)
qed

definition overflow_recording :: "nat recording" where
  "overflow_recording =
     \<lparr>rec_label = None,
      rec_commands = [BeginRenderPass None [] None [RSetVertexBuffer 0 (Id 1) (- 1) (Some 1)]]\<rparr>"

theorem slice_overflow_poisons_witness:
  "\<exists>s'. handle (demo_server good_device True overflow_recording) (Submit [[1]]) (demo_engine (0 :: nat)) = (Panic, s')
     \<and> eng_poisoned s'"
proof (rule slice_overflow_poisons [where i = "Id 1" and b = 10 and off = "- 1" and n = 1])
  show "2 ^ 64 \<le> unat (- 1 :: u64) + unat (1 :: u64)"
    by (simp add: unsigned_minus_1_eq_mask mask_eq_exp_minus_1)
qed (simp_all add: demo_engine_def demo_server_def decode_recording_def table_bincode_def overflow_recording_def)

subsection \<open>What the device sees of the other actions\<close>

lemma fragment_without_constants:
  "fragment_module t (map_option (\<lambda>f. f\<lparr>fs_constants := []\<rparr>) f) = fragment_module t f"
  "fragment_of (map_option (\<lambda>f. f\<lparr>fs_constants := []\<rparr>) f) m = fragment_of f m"
  by (cases f; simp add: fragment_module_def fragment_of_def split: option.split)+

lemma pipeline_calls_without_constants:
  "compute_pipeline_call (desc\<lparr>cp_constants := []\<rparr>) = compute_pipeline_call desc"
  "render_pipeline_call (rdesc\<lparr>rp_vertex := (rp_vertex rdesc)\<lparr>vs_constants := []\<rparr>,
      rp_fragment := map_option (\<lambda>f. f\<lparr>fs_constants := []\<rparr>) (rp_fragment rdesc)\<rparr>) = render_pipeline_call rdesc"
  by (simp_all add: fun_eq_iff compute_pipeline_call_def render_pipeline_call_def fragment_without_constants)

text \<open>Pipeline-overridable constants never reach the device. The engine handles a pipeline
  description as it handles the same description with its lists of constants emptied: same calls,
  same answer, same state.\<close>

theorem pipeline_constants_dropped:
  "handle srv (CreateComputePipeline i desc) s =
     handle srv (CreateComputePipeline i (desc\<lparr>cp_constants := []\<rparr>)) s
   \<and> handle srv (CreateRenderPipeline j rdesc) s =
     handle srv (CreateRenderPipeline j (rdesc\<lparr>
        rp_vertex := (rp_vertex rdesc)\<lparr>vs_constants := []\<rparr>,
        rp_fragment := map_option (\<lambda>f. f\<lparr>fs_constants := []\<rparr>) (rp_fragment rdesc)\<rparr>)) s"
  by (simp add: handle_def create_compute_pipeline_def create_render_pipeline_def
      pipeline_calls_without_constants)

text \<open>Only buffers are ever freed. Along any run of actions, whatever it destroys, every resource
  other than a buffer that the server knows at the start is still known at the end.\<close>

theorem only_buffers_are_freed:
  assumes "r \<in> known s" and "\<And>i. r \<noteq> RBuffer i"
  shows "r \<in> known (snd (handle_all srv acts s))"
  using assms(1)
proof (induction acts arbitrary: s)
  case (Cons act acts)
  obtain out s1 where run: "handle srv act s = (out, s1)" by (rule prod.exhaust)
  note step = handle_outcome [OF run]
  from run show ?case
  proof (cases rule: handle_cases)
    case (Ret resp)
    have "destroys act \<noteq> Some r"
      using assms(2) by (cases act rule: destroys.cases) auto
    then have "r \<in> known s1"
      using step Ret Cons.prems by (auto simp: known_def after_def split: if_splits)
    then show ?thesis
      using Cons.IH [of s1] run Ret by (auto split: prod.split)
  next
    case Panic
    then show ?thesis using step run Cons.prems by (simp add: known_def)
  qed
qed simp

theorem only_buffers_are_freed_witness:
  "RComputePipeline (Id 1) \<in> known (snd (handle_all (demo_server good_device False copy_recording)
      [Destroy (RComputePipeline (Id 1))] (demo_engine (0 :: nat))))"
  by (rule only_buffers_are_freed) (simp_all add: known_def demo_engine_def)

text \<open>A write is flushed. A \<open>WriteBuffer\<close> or \<open>WriteTexture\<close> that is answered \<open>Ok\<close> has made
  exactly two calls, the queue write to the handle the id stands for and an empty submission, so that
  the data is visible to a map that follows; one that is answered with an error has made none.\<close>

theorem writes_are_flushed:
  assumes "srv_device srv = logged d" and "eng_gpu s = (g, l)"
  shows "(handle srv (WriteBuffer i off data) s = (Ret (Some r), s') \<longrightarrow>
      snd (eng_gpu s') = l @ (case buffers (eng_tables s) i of None \<Rightarrow> [] | Some b \<Rightarrow>
          [Executed (QueueWriteBuffer b off data), Executed (QueueSubmit [])]))
    \<and> (handle srv (WriteTexture x mip org aspect data layout extent) s = (Ret (Some r), s') \<longrightarrow>
      snd (eng_gpu s') = l @ (case textures (eng_tables s) x of None \<Rightarrow> [] | Some h \<Rightarrow>
          [Executed (QueueWriteTexture \<lparr>gct_texture = h, gct_mip_level = mip, gct_origin = org,
             gct_aspect = aspect\<rparr> data layout extent), Executed (QueueSubmit [])]))"
proof -
  have exec: "gpu_exec (logged d) c (g, l) = (fst (gpu_exec d c g), (snd (gpu_exec d c g), l @ [Executed c]))"
    for c g l
    by (auto simp: gpu_exec_def logged_def lift_opt_def split: prod.splits option.splits)
  show ?thesis
    using assms
    by (auto simp: handle_def write_buffer_def with_buffer_def write_texture_def answer_def andThen_def
        on_gpu_def locked_def exec lift_res_def split: prod.splits flow.splits option.splits if_splits sum.splits)
qed

theorem writes_are_flushed_witness:
  "\<exists>s'. handle (demo_server (logged good_device) False copy_recording) (WriteBuffer (Id 1) 4 [9]) (demo_engine (0, []))
       = (Ret (Some RespOk), s')
     \<and> snd (eng_gpu s') = [Executed (QueueWriteBuffer 10 4 [9]), Executed (QueueSubmit [])]"
proof -
  let ?srv = "demo_server (logged good_device) False copy_recording"
  obtain out s' where run: "handle ?srv (WriteBuffer (Id 1) 4 [9]) (demo_engine (0, [])) = (out, s')"
    by (rule prod.exhaust)
  then have out: "out = Ret (Some RespOk)"
    by (auto simp: handle_def write_buffer_def with_buffer_def demo_eval)
  have "eng_gpu (demo_engine (0 :: nat, [])) = (0, [])" by (simp add: demo_engine_def)
  from writes_are_flushed [OF _ this, of ?srv good_device "Id 1" 4 "[9]" RespOk s'] run out
  show ?thesis
    by (simp add: demo_engine_def)
qed

text \<open>Readback. A \<open>MapBufferForRead\<close> that delivers bytes has mapped exactly the range
  \<open>offset .. offset + size\<close> of the buffer the id stands for, read that same range and unmapped the
  buffer, in this order and with nothing in between; one that fails has not touched the mapping of
  any buffer beyond the attempt.\<close>

theorem readback_calls:
  assumes "srv_device srv = logged d" and "eng_gpu s = (g, l)"
    and "handle srv (MapBufferForRead i off len) s = (Ret (Some r), s')"
  shows "(\<forall>data. r = BufferData data \<longrightarrow>
      (\<exists>b sl. buffers (eng_tables s) i = Some b \<and> slice_of (srv_overflow_checks srv) b off (Some len) = Some sl
        \<and> snd (eng_gpu s') = l @ [MapAsync sl, MappedRange sl, Executed (UnmapBuffer b)]))
    \<and> (is_error r \<longrightarrow> (\<exists>attempt. snd (eng_gpu s') = l @ attempt \<and> length attempt \<le> 1
        \<and> (\<forall>ev \<in> set attempt. \<exists>sl. ev = MapAsync sl)))"
proof -
  have calls:
    "gpu_exec (logged d) c (g, l) = (fst (gpu_exec d c g), (snd (gpu_exec d c g), l @ [Executed c]))"
    "gpu_map_async (logged d) sl (g, l) = (fst (gpu_map_async d sl g), (snd (gpu_map_async d sl g), l @ [MapAsync sl]))"
    "gpu_mapped_range (logged d) sl (g, l) =
       (fst (gpu_mapped_range d sl g), (snd (gpu_mapped_range d sl g), l @ [MappedRange sl]))"
    for c sl g l
    by (auto simp: gpu_call_defs logged_def lift_opt_def split: prod.splits option.splits)
  show ?thesis
    using assms
    by (auto simp: handle_def read_buffer_def answer_def andThen_def on_gpu_def locked_def calls lift_res_def
        lift_opt_def lookup_in_eq_Inl unknown_resource_def
        split: prod.splits flow.splits option.splits if_splits sum.splits map_result.splits)
qed

theorem readback_calls_witness:
  "\<exists>data s'. handle (demo_server (logged good_device) False copy_recording) (MapBufferForRead (Id 2) 8 4) (demo_engine (0, []))
       = (Ret (Some (BufferData data)), s')
     \<and> (\<exists>b sl. snd (eng_gpu s') = [MapAsync sl, MappedRange sl, Executed (UnmapBuffer b)])"
proof -
  let ?srv = "demo_server (logged good_device) False copy_recording"
  obtain out s' where run: "handle ?srv (MapBufferForRead (Id 2) 8 4) (demo_engine (0, [])) = (out, s')"
    by (rule prod.exhaust)
  then obtain data where out: "out = Ret (Some (BufferData data))"
    by (auto simp: handle_def read_buffer_def slice_of_def add_u64_def demo_eval)
  have "eng_gpu (demo_engine (0 :: nat, [])) = (0, [])" by (simp add: demo_engine_def)
  from readback_calls [OF _ this run [unfolded out], of good_device] run out
  show ?thesis by auto
qed

lemma dispatch_outcome:
  assumes "dispatch srv f s = (out, s')"
  shows "(\<exists>r. handle srv (fr_action f) s = (Ret (Some r), s')
      \<and> out = Ret (map_option (\<lambda>rid. \<lparr>rf_request_id = rid, rf_response = r\<rparr>) (fr_request_id f)))
    \<or> (handle srv (fr_action f) s = (Panic, s') \<and> out = Panic)"
proof -
  obtain h s1 where run: "handle srv (fr_action f) s = (h, s1)" by (rule prod.exhaust)
  then show ?thesis
  proof (cases rule: handle_cases)
    case (Ret r)
    then show ?thesis
      using assms run by (auto simp: dispatch_def andThen_def split: option.splits)
  next
    case Panic
    then show ?thesis
      using assms run by (auto simp: dispatch_def andThen_def)
  qed
qed

lemma dispatch_reply_id:
  assumes "dispatch srv f s = (Ret reply, s')"
  shows "map_option rf_request_id reply = fr_request_id f"
  using dispatch_outcome [OF assms] by (cases "fr_request_id f") auto

text \<open>Correlation. Dispatching a frame handles its action exactly once; a frame with a request id
  is answered, with that id and the handler's response, and a frame without one is not.\<close>

theorem dispatch_correlates:
  assumes "dispatch srv f s = (out, s')"
  shows "(\<exists>r. handle srv (fr_action f) s = (Ret (Some r), s')
      \<and> out = Ret (map_option (\<lambda>rid. \<lparr>rf_request_id = rid, rf_response = r\<rparr>) (fr_request_id f)))
    \<or> (handle srv (fr_action f) s = (Panic, s') \<and> out = Panic)"
  by (rule dispatch_outcome [OF assms])

theorem dispatch_correlates_witness:
  "fst (dispatch (demo_server good_device False copy_recording)
      \<lparr>fr_request_id = Some (RequestId 5), fr_action = Hello 2\<rparr> (demo_engine (0 :: nat)))
   = Ret (Some \<lparr>rf_request_id = RequestId 5,
       rf_response = RespError ProtocolVersionMismatch ''client v2, server v1''\<rparr>)"
proof -
  let ?srv = "demo_server good_device False copy_recording"
  let ?f = "\<lparr>fr_request_id = Some (RequestId 5), fr_action = Hello 2 :: nat action\<rparr>"
  obtain out s' where run: "dispatch ?srv ?f (demo_engine (0 :: nat)) = (out, s')" by (rule prod.exhaust)
  have "handle ?srv (Hello 2) (demo_engine 0) =
      (Ret (Some (RespError ProtocolVersionMismatch ''client v2, server v1'')), demo_engine 0)"
    by (simp add: handle_def answer_def andThen_def hello_def PROTOCOL_VERSION_def show_nat.simps digit_char_def char_of_def bit_Suc_0_iff)
  with dispatch_correlates [OF run] run show ?thesis by auto
qed

end
