(* ===== verification/Handler.thy ===== *)
theory Handler
  imports Engine_Properties "HOL-Library.Sublist"
begin

section \<open>The connection handler\<close>

text \<open>
  \<open>server/handler.rs\<close>. A receive stream is the bytes that arrive on it before it ends. The send
  stream is a parameter, \<open>write_all\<close> and \<open>flush\<close> as functions of its state that say whether
  they succeeded. One iteration of the loop of \<open>handle_stream\<close> is \<open>stream_step\<close>; the loop
  runs until it returns.

  \<open>run_connection\<close> spawns one task per accepted stream. Its tasks share the engine and are
  scheduled in any order: \<open>server_step\<close> is the step relation, one iteration of one task at a
  time. What happens between two locks of one \<open>dispatch\<close> is the subject of \<open>Interleaving\<close>.
\<close>

subsection \<open>handle_stream\<close>

record 'o writer =
  wr_write_all :: "bytes \<Rightarrow> 'o \<Rightarrow> bool \<times> 'o"
  wr_flush :: "'o \<Rightarrow> bool \<times> 'o"

record ('w, 'h, 'g, 'o) stream_env =
  se_server :: "('w, 'h, 'g) server"
  se_frames :: "'w frame bincode"
  se_responses :: "response_frame bincode"
  se_writer :: "'o writer"

text \<open>How a stream's task ends: \<open>Ok(())\<close>, \<open>?\<close> on a codec or a send error, or a panic.\<close>

datatype stream_end = Finished | CodecFailed codec_error | SendFailed | TaskPanicked

record 'o stream =
  st_input :: bytes
  st_output :: 'o
  st_end :: "stream_end option"

definition send_bytes :: "'o writer \<Rightarrow> bytes \<Rightarrow> 'o \<Rightarrow> bool \<times> 'o" where
  "send_bytes w b out =
     (case wr_write_all w b out of
        (True, out') \<Rightarrow> wr_flush w out'
      | (False, out') \<Rightarrow> (False, out'))"

definition stream_step ::
  "('w, 'h, 'g, 'o) stream_env \<Rightarrow> ('h, 'g) engine \<times> 'o stream \<Rightarrow> ('h, 'g) engine \<times> 'o stream" where
  "stream_step env = (\<lambda>(s, str).
     case read_frame (st_input str) of
       None \<Rightarrow> (s, str\<lparr>st_end := Some Finished\<rparr>)
     | Some (msg, rest) \<Rightarrow>
         (case decode_frame (se_frames env) msg of
            Inl e \<Rightarrow> (s, str\<lparr>st_input := rest, st_end := Some (CodecFailed e)\<rparr>)
          | Inr (frame, _) \<Rightarrow>
              (case dispatch (se_server env) frame s of
                 (Ret (Some response), s') \<Rightarrow>
                   (case encode_frame (se_responses env) response of
                      Inl e \<Rightarrow> (s', str\<lparr>st_input := rest, st_end := Some (CodecFailed e)\<rparr>)
                    | Inr bs \<Rightarrow>
                        (case send_bytes (se_writer env) bs (st_output str) of
                           (True, out) \<Rightarrow> (s', str\<lparr>st_input := rest, st_output := out\<rparr>)
                         | (False, out) \<Rightarrow>
                             (s', str\<lparr>st_input := rest, st_output := out, st_end := Some SendFailed\<rparr>)))
               | (Ret None, s') \<Rightarrow> (s', str\<lparr>st_input := rest\<rparr>)
               | (_, s') \<Rightarrow> (s', str\<lparr>st_input := rest, st_end := Some TaskPanicked\<rparr>))))"

lemma stream_step_progress:
  assumes "stream_step env (s, str) = (s', str')"
  shows "st_end str' \<noteq> None \<or> length (st_input str') < length (st_input str)"
  using assms
  by (auto simp: stream_step_def split: option.splits prod.splits sum.splits flow.splits if_splits bool.splits
      dest!: read_frame_shorter)

function handle_stream ::
  "('w, 'h, 'g, 'o) stream_env \<Rightarrow> ('h, 'g) engine \<times> 'o stream \<Rightarrow> ('h, 'g) engine \<times> 'o stream" where
  "handle_stream env (s, str) =
     (if st_end str \<noteq> None then (s, str) else handle_stream env (stream_step env (s, str)))"
  by pat_completeness auto
termination
proof (relation "measure (\<lambda>(env, s, str). (if st_end str = None then Suc (length (st_input str)) else 0))")
  fix env s and str :: "'d stream"
  assume "\<not> st_end str \<noteq> None"
  then show "((env, stream_step env (s, str)), env, s, str)
      \<in> measure (\<lambda>(env, s, str). (if st_end str = None then Suc (length (st_input str)) else 0))"
    using stream_step_progress [of env s str] by (cases "stream_step env (s, str)") auto
qed simp

declare handle_stream.simps [simp del]

definition open_stream :: "bytes \<Rightarrow> 'o \<Rightarrow> 'o stream" where
  "open_stream input out = \<lparr>st_input = input, st_output = out, st_end = None\<rparr>"

subsection \<open>Serving a list of frames\<close>

text \<open>
  The specification of a stream: dispatch the frames one after the other, and collect the
  responses. It gives up, with \<open>None\<close>, on the first panic.
\<close>

fun serve ::
  "('w, 'h, 'g) server \<Rightarrow> 'w frame list \<Rightarrow> ('h, 'g) engine \<Rightarrow> (response_frame list \<times> ('h, 'g) engine) option" where
  "serve srv [] s = Some ([], s)"
| "serve srv (f # fs) s =
     (case dispatch srv f s of
        (Ret reply, s') \<Rightarrow>
          map_option (\<lambda>(rs, s''). ((case reply of None \<Rightarrow> rs | Some r \<Rightarrow> r # rs), s'')) (serve srv fs s')
      | _ \<Rightarrow> None)"

text \<open>A writer that keeps what it is given.\<close>

definition buffer_writer :: "bytes writer" where
  "buffer_writer = \<lparr>wr_write_all = (\<lambda>b out. (True, out @ b)), wr_flush = (\<lambda>out. (True, out))\<rparr>"

lemma send_bytes_buffer [simp]: "send_bytes buffer_writer b out = (True, out @ b)"
  by (simp add: send_bytes_def buffer_writer_def)

lemma handle_stream_end: "st_end str \<noteq> None \<Longrightarrow> handle_stream env (s, str) = (s, str)"
  by (simp add: handle_stream.simps)

lemma handle_stream_step: "st_end str = None \<Longrightarrow> handle_stream env (s, str) = handle_stream env (stream_step env (s, str))"
  by (simp add: handle_stream.simps)

lemma stream_step_frame:
  assumes "bincode_ok (se_frames env)" and "encode_frame (se_frames env) f = Inr b"
    and "st_input str = b @ rest" and "dispatch (se_server env) f s = (Ret reply, s')"
    and "se_writer env = buffer_writer"
    and "\<And>r. reply = Some r \<Longrightarrow> encode_frame (se_responses env) r = Inr (rb r)"
  shows "stream_step env (s, str) =
    (s', str\<lparr>st_input := rest, st_output := st_output str @ (case reply of None \<Rightarrow> [] | Some r \<Rightarrow> rb r)\<rparr>)"
proof -
  obtain body where body: "prefix_fits body" and b: "b = put_frame body"
    using encode_frame_prefix_fits [OF assms(2)] by blast
  have "read_frame (st_input str) = Some (b, rest)"
    using read_frame_put [OF body] by (simp add: assms(3) b)
  moreover have "decode_frame (se_frames env) b = Inr (f, length b)"
    using decode_encoded_frame [OF assms(1,2), of "[]"] by simp
  ultimately show ?thesis
    using assms(4-6) by (cases reply) (simp_all add: stream_step_def)
qed

lemma stream_step_finish:
  "read_frame (st_input str) = None \<Longrightarrow> stream_step env (s, str) = (s, str\<lparr>st_end := Some Finished\<rparr>)"
  by (simp add: stream_step_def)

lemma handle_stream_serves:
  assumes "bincode_ok (se_frames env)" and "se_writer env = buffer_writer" and "read_frame tail = None"
  shows "list_all2 (\<lambda>f b. encode_frame (se_frames env) f = Inr b) fs bs \<Longrightarrow>
    serve (se_server env) fs s = Some (rs, s') \<Longrightarrow>
    list_all2 (\<lambda>r b. encode_frame (se_responses env) r = Inr b) rs rbs \<Longrightarrow>
    handle_stream env (s, open_stream (concat bs @ tail) out) =
      (s', \<lparr>st_input = tail, st_output = out @ concat rbs, st_end = Some Finished\<rparr>)"
proof (induction fs arbitrary: bs s rs rbs out)
  case Nil
  then show ?case
    using assms(3)
    by (simp add: handle_stream_step stream_step_finish open_stream_def handle_stream_end)
next
  case (Cons f fs)
  from Cons.prems(1) obtain b bs' where bs: "bs = b # bs'" and b: "encode_frame (se_frames env) f = Inr b"
    and bs': "list_all2 (\<lambda>f b. encode_frame (se_frames env) f = Inr b) fs bs'"
    by (auto simp: list_all2_Cons1)
  from Cons.prems(2) obtain reply s1 rs1 where d: "dispatch (se_server env) f s = (Ret reply, s1)"
    and rest: "serve (se_server env) fs s1 = Some (rs1, s')"
    and rs: "rs = (case reply of None \<Rightarrow> rs1 | Some r \<Rightarrow> r # rs1)"
    by (auto split: prod.splits flow.splits)
  obtain rb rbs1 where rb: "\<And>r. reply = Some r \<Longrightarrow> encode_frame (se_responses env) r = Inr rb"
    and rbs1: "list_all2 (\<lambda>r b. encode_frame (se_responses env) r = Inr b) rs1 rbs1"
    and rbs: "concat rbs = (case reply of None \<Rightarrow> [] | Some _ \<Rightarrow> rb) @ concat rbs1"
  proof (cases reply)
    case None
    then show ?thesis using that [of undefined rbs] Cons.prems(3) rs by simp
  next
    case (Some r)
    then show ?thesis
      using Cons.prems(3) rs that by (auto simp: list_all2_Cons1)
  qed
  have "handle_stream env (s, open_stream (concat bs @ tail) out)
      = handle_stream env (stream_step env (s, open_stream (concat bs @ tail) out))"
    by (rule handle_stream_step) (simp add: open_stream_def)
  also have "stream_step env (s, open_stream (concat bs @ tail) out)
      = (s1, open_stream (concat bs' @ tail) (out @ (case reply of None \<Rightarrow> [] | Some _ \<Rightarrow> rb)))"
    using stream_step_frame [OF assms(1) b _ d assms(2), of "open_stream (concat bs @ tail) out" "concat bs' @ tail" "\<lambda>_. rb"]
      rb by (simp add: open_stream_def bs)
  finally show ?case
    using Cons.IH [OF bs' rest rbs1] rbs by simp
qed

lemma serve_ids:
  "serve srv fs s = Some (rs, s') \<Longrightarrow> map rf_request_id rs = List.map_filter fr_request_id fs"
proof (induction fs arbitrary: s rs)
  case Nil
  then show ?case by (simp add: map_filter_simps)
next
  case (Cons f fs)
  from Cons.prems obtain reply s1 rs1 where d: "dispatch srv f s = (Ret reply, s1)"
    and rest: "serve srv fs s1 = Some (rs1, s')"
    and rs: "rs = (case reply of None \<Rightarrow> rs1 | Some r \<Rightarrow> r # rs1)"
    by (auto split: prod.splits flow.splits)
  have "fr_request_id f = map_option rf_request_id reply"
    using dispatch_reply_id [OF d] by simp
  with Cons.IH [OF rest] rs show ?case
    by (auto simp: map_filter_simps split: option.splits)
qed

subsection \<open>run_connection: streams of a server, interleaved\<close>

type_synonym ('h, 'g, 'o) server_state = "('h, 'g) engine \<times> 'o stream list"

inductive server_step ::
  "('w, 'h, 'g, 'o) stream_env \<Rightarrow> 'o \<Rightarrow> ('h, 'g, 'o) server_state \<Rightarrow> ('h, 'g, 'o) server_state \<Rightarrow> bool"
  for env fresh where
  accept: "server_step env fresh (s, strs) (s, strs @ [open_stream input fresh])"
| iterate: "i < length strs \<Longrightarrow> st_end (strs ! i) = None \<Longrightarrow> stream_step env (s, strs ! i) = (s', str') \<Longrightarrow>
    server_step env fresh (s, strs) (s', strs[i := str'])"

text \<open>
  The same runs, with the inputs the streams were opened with: \<open>ins ! i\<close> is what arrives on stream
  \<open>i\<close> before it ends.
\<close>

inductive server_run ::
  "('w, 'h, 'g, 'o) stream_env \<Rightarrow> 'o \<Rightarrow> ('h, 'g) engine \<Rightarrow> bytes list \<Rightarrow> ('h, 'g, 'o) server_state \<Rightarrow> bool"
  for env fresh s0 where
  started: "server_run env fresh s0 [] (s0, [])"
| accepted: "server_run env fresh s0 ins (s, strs) \<Longrightarrow>
    server_run env fresh s0 (ins @ [input]) (s, strs @ [open_stream input fresh])"
| iterated: "server_run env fresh s0 ins (s, strs) \<Longrightarrow>
    i < length strs \<Longrightarrow> st_end (strs ! i) = None \<Longrightarrow> stream_step env (s, strs ! i) = (s', str') \<Longrightarrow>
    server_run env fresh s0 ins (s', strs[i := str'])"

lemma server_run_steps: "server_run env fresh s0 ins st \<Longrightarrow> (server_step env fresh)\<^sup>*\<^sup>* (s0, []) st"
  by (induction rule: server_run.induct)
    (auto intro: rtranclp.rtrancl_into_rtrancl server_step.intros)

lemma steps_server_run: "(server_step env fresh)\<^sup>*\<^sup>* (s0, []) st \<Longrightarrow> \<exists>ins. server_run env fresh s0 ins st"
proof (induction rule: rtranclp_induct)
  case base
  then show ?case by (blast intro: started)
next
  case (step st st')
  from step.hyps(2) step.IH show ?case
    by (cases rule: server_step.cases) (blast intro: accepted iterated)+
qed







subsection \<open>Properties\<close>

text \<open>A stream environment for the witnesses: one request, one response.\<close>

definition hello_frame :: "nat frame" where
  "hello_frame = \<lparr>fr_request_id = Some (RequestId 1), fr_action = Hello 1\<rparr>"

definition ack_frame :: response_frame where
  "ack_frame = \<lparr>rf_request_id = RequestId 1, rf_response = HelloAck 1\<rparr>"

definition demo_env :: "(nat, nat, nat, bytes) stream_env" where
  "demo_env =
     \<lparr>se_server = demo_server good_device False copy_recording,
      se_frames = table_bincode [(hello_frame, [7])],
      se_responses = table_bincode [(ack_frame, [8])],
      se_writer = buffer_writer\<rparr>"

lemma demo_env_simps:
  "se_server demo_env = demo_server good_device False copy_recording" "se_writer demo_env = buffer_writer"
  "encode_frame (se_frames demo_env) hello_frame = Inr [0, 0, 0, 1, 7]"
  "encode_frame (se_responses demo_env) ack_frame = Inr [0, 0, 0, 1, 8]"
  "bincode_ok (se_frames demo_env)"
  "dispatch (demo_server good_device False copy_recording) hello_frame (demo_engine 0) = (Ret (Some ack_frame), demo_engine (0 :: nat))"
  by (auto simp: demo_env_def encode_frame_def table_bincode_def MAX_FRAME_BYTES_def u32_to_be_bytes_def
      dispatch_def handle_def hello_frame_def ack_frame_def hello_def PROTOCOL_VERSION_def andThen_def answer_def
      intro!: table_bincode_ok [unfolded table_bincode_def])

text \<open>C22: a stream is served in order. On a stream that carries encoded frames back to back, and then
  ends or breaks off inside a frame, whose dispatch does not panic and whose responses fit in a frame,
  the handler dispatches every frame in order, writes exactly the encoded responses, in the order of
  the requests and each with the request's id, and finishes without an error.\<close>

theorem stream_serves_in_order:
  assumes "bincode_ok (se_frames env)" and "se_writer env = buffer_writer" and "read_frame tail = None"
    and "list_all2 (\<lambda>f b. encode_frame (se_frames env) f = Inr b) fs bs"
    and "serve (se_server env) fs s = Some (rs, s')"
    and "list_all2 (\<lambda>r b. encode_frame (se_responses env) r = Inr b) rs rbs"
  shows "handle_stream env (s, open_stream (concat bs @ tail) out) =
      (s', \<lparr>st_input = tail, st_output = out @ concat rbs, st_end = Some Finished\<rparr>)
    \<and> map rf_request_id rs = List.map_filter fr_request_id fs"
  using handle_stream_serves [OF assms] serve_ids [OF assms(5)] by blast

theorem stream_serves_in_order_witness:
  "handle_stream demo_env (demo_engine 0, open_stream ([0, 0, 0, 1, 7] @ [0, 0, 0, 1, 7] @ [0, 0]) []) =
     (demo_engine 0, \<lparr>st_input = [0, 0], st_output = [0, 0, 0, 1, 8, 0, 0, 0, 1, 8], st_end = Some Finished\<rparr>)"
proof -
  have "serve (se_server demo_env) [hello_frame, hello_frame] (demo_engine 0)
      = Some ([ack_frame, ack_frame], demo_engine 0)"
    by (simp add: demo_env_simps)
  from stream_serves_in_order [OF demo_env_simps(5,2) _ _ this, of "[0, 0]" "[[0, 0, 0, 1, 7], [0, 0, 0, 1, 7]]"
      "[[0, 0, 0, 1, 8], [0, 0, 0, 1, 8]]" "[]"]
  show ?thesis
    by (simp add: demo_env_simps read_frame_def read_exact_def)
qed

text \<open>C23: what ends a stream early. A frame that does not decode, and a response that does not fit in a
  frame, end the stream's task with that codec error: nothing is written for it and the requests that
  follow on the stream are never read. In the second case the request has been carried out.\<close>

theorem stream_aborts:
  assumes "st_end str = None" and "read_frame (st_input str) = Some (m, rest)"
  shows "(\<forall>e. decode_frame (se_frames env) m = Inl e \<longrightarrow>
      handle_stream env (s, str) = (s, str\<lparr>st_input := rest, st_end := Some (CodecFailed e)\<rparr>))
    \<and> (\<forall>f n r s' e. decode_frame (se_frames env) m = Inr (f, n) \<and>
        dispatch (se_server env) f s = (Ret (Some r), s') \<and> encode_frame (se_responses env) r = Inl e \<longrightarrow>
      handle_stream env (s, str) = (s', str\<lparr>st_input := rest, st_end := Some (CodecFailed e)\<rparr>))"
  using assms by (auto simp: handle_stream_step stream_step_def handle_stream_end)

theorem stream_aborts_witness:
  "handle_stream demo_env (demo_engine 0, open_stream ([0, 0, 0, 1, 9] @ [0, 0, 0, 1, 7]) []) =
     (demo_engine 0, \<lparr>st_input = [0, 0, 0, 1, 7], st_output = [],
        st_end = Some (CodecFailed (DecodeError ''unexpected end''))\<rparr>)"
proof -
  let ?str = "open_stream ([0, 0, 0, 1, 9] @ [0, 0, 0, 1, 7]) []"
  have "read_frame (st_input ?str) = Some ([0, 0, 0, 1, 9], [0, 0, 0, 1, 7])"
    by (simp add: open_stream_def read_frame_def read_exact_def be_len_def u32_from_be_bytes_def)
  from stream_aborts [OF _ this, of demo_env "demo_engine 0"]
  show ?thesis
    by (simp add: open_stream_def decode_frame_def be_len_def u32_from_be_bytes_def demo_env_def
        table_bincode_def MAX_FRAME_BYTES_def)
qed



end
