(* ===== verification/Runs.thy ===== *)
theory Runs
  imports Prelude
begin

section \<open>Runs of guarded steps\<close>

text \<open>
  Several systems here are run by a list of operations, each of which may be asked for in some states
  only: the calls of a client program, the calls on the drop-in with its tasks, the events of a server
  with several clients. Each has an invariant that every allowed operation keeps while a resource, the
  ids of 64 bits, is not used up: at most one unit of it per operation. The locale has what follows for
  runs.
\<close>

fun all_along :: "('op \<Rightarrow> 's \<Rightarrow> bool) \<Rightarrow> ('op \<Rightarrow> 's \<Rightarrow> 's) \<Rightarrow> 'op list \<Rightarrow> 's \<Rightarrow> bool" where
  "all_along allowed step [] s \<longleftrightarrow> True"
| "all_along allowed step (op # ops) s \<longleftrightarrow> allowed op s \<and> all_along allowed step ops (step op s)"

lemma all_along_append:
  "all_along allowed step (ops @ ops') s \<longleftrightarrow> all_along allowed step ops s \<and> all_along allowed step ops' (fold step ops s)"
  by (induction ops arbitrary: s) simp_all

locale budgeted =
  fixes ok :: "nat \<Rightarrow> 's \<Rightarrow> bool" and allowed :: "'op \<Rightarrow> 's \<Rightarrow> bool" and step :: "'op \<Rightarrow> 's \<Rightarrow> 's" and budget :: nat
  assumes keeps_ok: "ok n s \<Longrightarrow> allowed op s \<Longrightarrow> n < budget \<Longrightarrow> ok (Suc n) (step op s)"
begin

lemma run_keeps_ok:
  assumes "ok n s" and "all_along allowed step ops s" and "n + length ops \<le> budget"
  shows "ok (n + length ops) (fold step ops s)"
  using assms
proof (induction ops arbitrary: n s)
  case (Cons op ops)
  then have "ok (Suc n) (step op s)" by (intro keeps_ok) simp_all
  from Cons.IH [OF this] Cons.prems(2,3) show ?case by simp
qed simp

end

end
