(* ===== verification/Stack.thy ===== *)
theory Stack
  imports Mux Handler Runs
begin

section \<open>The whole stack\<close>

text \<open>
  The multiplexed client of \<open>Mux\<close>, a transport, and the stream task of \<open>Handler\<close> with the engine, as one
  system. The transport delivers in order, any number of bytes at a time, in both directions; the tasks of
  the client and the task of the server run in any order; a call may be made at any time. The theorem:
  what a request is resolved with is what the engine answered to its action, in the state that the
  actions queued before it have made. This is the stream that \<open>Composed\<close> takes for granted.

  The client's multiplexer is open: the state starts with the first request, which opens it.
\<close>

subsection \<open>State\<close>

text \<open>
  How many bytes of the client's send stream have arrived at the server, and how many of the server's at
  the client. \<open>sk_history\<close> only records: the frames that calls have queued.
\<close>

record ('w, 'h, 'g) stack =
  sk_client :: client
  sk_history :: "'w frame list"
  sk_up :: nat
  sk_server :: "('h, 'g) engine \<times> bytes stream"
  sk_down :: nat

definition client_codec_of :: "('w, 'h, 'g, bytes) stream_env \<Rightarrow> 'w client_codec" where
  "client_codec_of env = \<lparr>cc_frames = se_frames env, cc_responses = se_responses env\<rparr>"

definition main_mux :: "client \<Rightarrow> mux" where
  "main_mux c = cl_muxes c ! 0"

text \<open>The frame that a call queues.\<close>

definition queued_frame :: "'w client_codec \<Rightarrow> 'w action \<Rightarrow> client \<Rightarrow> 'w frame list" where
  "queued_frame cc act c =
     (case mint_frame cc act c of (rid, encoded, _) \<Rightarrow>
        case encoded of
          Inl _ \<Rightarrow> []
        | Inr _ \<Rightarrow> if mx_writing (main_mux c) then [\<lparr>fr_request_id = Some rid, fr_action = act\<rparr>] else [])"

fun queued :: "'w client_codec \<Rightarrow> 'w client_op \<Rightarrow> client \<Rightarrow> 'w frame list" where
  "queued cc (OpRequest act _) c = queued_frame cc act c"
| "queued cc (OpSend act) c = queued_frame cc act c"
| "queued cc _ c = []"

subsection \<open>Steps\<close>

text \<open>
  \<open>Local\<close> is a call or a step of one of the client's tasks; \<open>Up\<close> and \<open>Down\<close> the arrival of some bytes;
  \<open>Serve\<close> one iteration of the server's stream task, which waits while no whole frame has arrived.
\<close>

datatype 'w stack_op = Local "'w client_op" | Up nat | Down nat | Serve

definition local_step ::
  "('w, 'h, 'g, bytes) stream_env \<Rightarrow> 'w client_op \<Rightarrow> ('w, 'h, 'g) stack \<Rightarrow> ('w, 'h, 'g) stack" where
  "local_step env op sk =
     sk\<lparr>sk_client := apply_op (client_codec_of env) op (sk_client sk),
        sk_history := sk_history sk @ queued (client_codec_of env) op (sk_client sk)\<rparr>"

definition arrive_up :: "nat \<Rightarrow> ('w, 'h, 'g) stack \<Rightarrow> ('w, 'h, 'g) stack" where
  "arrive_up n sk =
     (let b = take n (drop (sk_up sk) (mx_wire (main_mux (sk_client sk)))); (s, str) = sk_server sk in
      sk\<lparr>sk_up := sk_up sk + length b, sk_server := (s, str\<lparr>st_input := st_input str @ b\<rparr>)\<rparr>)"

definition arrive_down ::
  "('w, 'h, 'g, bytes) stream_env \<Rightarrow> nat \<Rightarrow> ('w, 'h, 'g) stack \<Rightarrow> ('w, 'h, 'g) stack" where
  "arrive_down env n sk =
     (let b = take n (drop (sk_down sk) (st_output (snd (sk_server sk)))) in
      sk\<lparr>sk_down := sk_down sk + length b, sk_client := apply_op (client_codec_of env) (OpArrive 0 b) (sk_client sk)\<rparr>)"

definition serve_step :: "('w, 'h, 'g, bytes) stream_env \<Rightarrow> ('w, 'h, 'g) stack \<Rightarrow> ('w, 'h, 'g) stack" where
  "serve_step env sk =
     (let str = snd (sk_server sk) in
      if st_end str = None \<and> read_frame (st_input str) \<noteq> None
      then sk\<lparr>sk_server := stream_step env (sk_server sk)\<rparr> else sk)"

fun stack_step ::
  "('w, 'h, 'g, bytes) stream_env \<Rightarrow> 'w stack_op \<Rightarrow> ('w, 'h, 'g) stack \<Rightarrow> ('w, 'h, 'g) stack" where
  "stack_step env (Local (OpArrive j b)) sk = sk"
| "stack_step env (Local op) sk = local_step env op sk"
| "stack_step env (Up n) sk = arrive_up n sk"
| "stack_step env (Down n) sk = arrive_down env n sk"
| "stack_step env Serve sk = serve_step env sk"

definition stack_run ::
  "('w, 'h, 'g, bytes) stream_env \<Rightarrow> 'w stack_op list \<Rightarrow> ('w, 'h, 'g) stack \<Rightarrow> ('w, 'h, 'g) stack" where
  "stack_run env = fold (stack_step env)"

definition opened_stack ::
  "('w, 'h, 'g, bytes) stream_env \<Rightarrow> 'w action \<Rightarrow> ('h, 'g) engine \<Rightarrow> ('w, 'h, 'g) stack" where
  "opened_stack env act s0 =
     \<lparr>sk_client = snd (request (client_codec_of env) act True new_client),
      sk_history = [\<lparr>fr_request_id = Some (RequestId 1), fr_action = act\<rparr>],
      sk_up = 0, sk_server = (s0, open_stream [] []), sk_down = 0\<rparr>"

subsection \<open>A channel of frames\<close>

text \<open>
  Of the frames \<open>bs\<close> sent, the receiver has consumed \<open>m\<close> and holds \<open>buf\<close>; \<open>rest\<close> is still on the way.
  Unless the sender is \<open>whole\<close>, a tail may be lost.
\<close>

definition channel :: "bytes list \<Rightarrow> nat \<Rightarrow> bytes \<Rightarrow> bytes \<Rightarrow> bool \<Rightarrow> bool" where
  "channel bs m buf rest whole \<longleftrightarrow>
     m \<le> length bs \<and> (\<exists>lost. concat (drop m bs) = buf @ rest @ lost \<and> (whole \<longrightarrow> lost = []))"

definition framed :: "bytes \<Rightarrow> bool" where
  "framed b \<longleftrightarrow> (\<exists>body. prefix_fits body \<and> b = put_frame body)"

lemma read_frame_more: "read_frame s = Some (f, r) \<Longrightarrow> read_frame (s @ y) = Some (f, r @ y)"
  by (auto simp: read_frame_def read_exact_def Let_def split: option.splits if_splits)

lemma read_framed: "framed b \<Longrightarrow> read_frame (b @ rest) = Some (b, rest)"
  by (auto simp: framed_def read_frame_put)

lemma channel_read:
  assumes "channel bs m buf rest whole" and "\<forall>b \<in> set bs. framed b" and "read_frame buf = Some (msg, buf')"
  shows "m < length bs" and "msg = bs ! m" and "channel bs (Suc m) buf' rest whole"
proof -
  obtain lost where lost: "concat (drop m bs) = buf @ rest @ lost" "whole \<longrightarrow> lost = []" and m: "m \<le> length bs"
    using assms(1) by (auto simp: channel_def)
  have more: "read_frame (concat (drop m bs)) = Some (msg, buf' @ rest @ lost)"
    using read_frame_more [OF assms(3), of "rest @ lost"] lost(1) by simp
  have "\<not> m = length bs" using more by (auto simp: read_frame_def read_exact_def)
  then show lt: "m < length bs" using m by simp
  have "concat (drop m bs) = bs ! m @ concat (drop (Suc m) bs)"
    using lt by (metis Cons_nth_drop_Suc concat.simps(2))
  then have "read_frame (concat (drop m bs)) = Some (bs ! m, concat (drop (Suc m) bs))"
    using assms(2) lt by (simp add: read_framed)
  then have tail: "msg = bs ! m" "concat (drop (Suc m) bs) = buf' @ rest @ lost"
    using more by simp_all
  then show "msg = bs ! m" by simp
  show "channel bs (Suc m) buf' rest whole"
    unfolding channel_def using lt lost(2) tail(2) by (intro conjI exI [of _ lost]) simp_all
qed

lemma channel_arrive: "channel bs m buf (b @ rest) whole \<Longrightarrow> channel bs m (buf @ b) rest whole"
  by (simp add: channel_def)

lemma channel_send: "channel bs m buf rest True \<Longrightarrow> channel (bs @ [b]) m buf (rest @ b) whole"
  by (auto simp: channel_def)

lemma channel_cut: "channel bs m buf (rest @ gone) whole \<Longrightarrow> channel bs m buf rest False"
  by (auto simp: channel_def)

subsection \<open>The invariant\<close>

definition frame_bytes :: "'v bincode \<Rightarrow> 'v \<Rightarrow> bytes" where
  "frame_bytes bc v = (case encode_frame bc v of Inr b \<Rightarrow> b | Inl _ \<Rightarrow> [])"

definition encodes :: "'v bincode \<Rightarrow> 'v \<Rightarrow> bool" where
  "encodes bc v \<longleftrightarrow> encode_frame bc v = Inr (frame_bytes bc v)"

lemma encode_frame_encodes: "encode_frame bc v = Inr b \<Longrightarrow> encodes bc v \<and> frame_bytes bc v = b"
  by (simp add: encodes_def frame_bytes_def)

lemma framed_encoded: "\<forall>v \<in> set vs. encodes bc v \<Longrightarrow> \<forall>b \<in> set (map (frame_bytes bc) vs). framed b"
  by (auto simp: encodes_def framed_def dest: encode_frame_prefix_fits)

text \<open>The client: one multiplexer; the ids of the frames queued so far are distinct, and lie below the next. What is
  pending has been queued.\<close>

definition client_side :: "('w, 'h, 'g, bytes) stream_env \<Rightarrow> mux \<Rightarrow> ('w, 'h, 'g) stack \<Rightarrow> bool" where
  "client_side env mx sk \<longleftrightarrow>
     cl_muxes (sk_client sk) = [mx] \<and> cl_mux (sk_client sk) = Some 0 \<and> cl_cold (sk_client sk) = []
     \<and> (\<forall>f \<in> set (sk_history sk). encodes (se_frames env) f
          \<and> (\<exists>r. fr_request_id f = Some r \<and> req_raw r < cl_next_request_id (sk_client sk)))
     \<and> distinct (map fr_request_id (sk_history sk)) \<and> sk_up sk \<le> length (mx_wire mx)
     \<and> (\<forall>rid \<in> mx_pending mx. Some rid \<in> fr_request_id ` set (sk_history sk))"

text \<open>
  The server: it has dispatched the first \<open>m\<close> frames of the history, from the state \<open>s0\<close> of the engine,
  and written the responses \<open>rs\<close>; the bytes it holds and the bytes on the way are those of the others.
\<close>

definition server_side ::
  "('w, 'h, 'g, bytes) stream_env \<Rightarrow> ('h, 'g) engine \<Rightarrow> mux \<Rightarrow> nat \<Rightarrow> response_frame list \<Rightarrow> ('w, 'h, 'g) stack \<Rightarrow> bool" where
  "server_side env s0 mx m rs sk \<longleftrightarrow>
     m \<le> length (sk_history sk)
     \<and> (\<exists>s1. serve (se_server env) (take m (sk_history sk)) s0 = Some (rs, s1)
          \<and> (st_end (snd (sk_server sk)) = None \<longrightarrow> s1 = fst (sk_server sk)))
     \<and> (st_end (snd (sk_server sk)) = None \<longrightarrow>
          channel (map (frame_bytes (se_frames env)) (sk_history sk)) m (st_input (snd (sk_server sk)))
            (drop (sk_up sk) (mx_wire mx) @ concat (mx_inbox mx)) (mx_writing mx))
     \<and> (\<forall>r \<in> set rs. encodes (se_responses env) r)
     \<and> st_output (snd (sk_server sk)) = concat (map (frame_bytes (se_responses env)) rs)"

text \<open>The way back: the client has consumed the first \<open>q\<close> responses, resolved requests with them only, and no
  longer waits for what they answer.\<close>

definition way_back ::
  "('w, 'h, 'g, bytes) stream_env \<Rightarrow> mux \<Rightarrow> response_frame list \<Rightarrow> nat \<Rightarrow> ('w, 'h, 'g) stack \<Rightarrow> bool" where
  "way_back env mx rs q sk \<longleftrightarrow>
     channel (map (frame_bytes (se_responses env)) rs) q (mx_recv mx)
       (drop (sk_down sk) (st_output (snd (sk_server sk)))) True
     \<and> sk_down sk \<le> length (st_output (snd (sk_server sk)))
     \<and> (\<forall>rid r. cl_outcomes (sk_client sk) rid = Some (Inr r) \<longrightarrow> \<lparr>rf_request_id = rid, rf_response = r\<rparr> \<in> set rs)
     \<and> (\<forall>i < q. rf_request_id (rs ! i) \<notin> mx_pending mx)"

definition stack_ok ::
  "('w, 'h, 'g, bytes) stream_env \<Rightarrow> ('h, 'g) engine \<Rightarrow> ('w, 'h, 'g) stack \<Rightarrow> bool" where
  "stack_ok env s0 sk \<longleftrightarrow>
     (\<exists>mx m rs q. client_side env mx sk \<and> server_side env s0 mx m rs sk \<and> way_back env mx rs q sk)"

lemma stack_okI:
  "client_side env mx sk \<Longrightarrow> server_side env s0 mx m rs sk \<Longrightarrow> way_back env mx rs q sk \<Longrightarrow> stack_ok env s0 sk"
  unfolding stack_ok_def by blast

subsection \<open>The server's steps\<close>

lemma served_ids: "serve srv fs s = Some (rs, s') \<Longrightarrow> r \<in> set rs \<Longrightarrow> Some (rf_request_id r) \<in> fr_request_id ` set fs"
proof -
  assume "serve srv fs s = Some (rs, s')" "r \<in> set rs"
  then have "rf_request_id r \<in> set (List.map_filter fr_request_id fs)" using serve_ids by (metis image_eqI list.set_map)
  then show "Some (rf_request_id r) \<in> fr_request_id ` set fs" by (force simp: List.map_filter_def)
qed

lemma server_ids: "server_side env s0 mx m rs sk \<Longrightarrow> r \<in> set rs \<Longrightarrow> Some (rf_request_id r) \<in> fr_request_id ` set (sk_history sk)"
proof -
  assume "server_side env s0 mx m rs sk" "r \<in> set rs"
  then obtain s1 where "serve (se_server env) (take m (sk_history sk)) s0 = Some (rs, s1)" by (auto simp: server_side_def)
  from served_ids [OF this \<open>r \<in> set rs\<close>] show "Some (rf_request_id r) \<in> fr_request_id ` set (sk_history sk)"
    using set_take_subset by (metis image_mono subsetD)
qed

lemma serve_append:
  "serve srv (fs @ gs) s =
     (case serve srv fs s of None \<Rightarrow> None
      | Some (rs, s1) \<Rightarrow> map_option (\<lambda>(rs', s2). (rs @ rs', s2)) (serve srv gs s1))"
  by (induction fs arbitrary: s)
    (auto split: prod.splits flow.splits option.splits simp: option.map_comp o_def option.map_id intro!: option.map_cong)

lemma serve_snoc:
  "serve srv fs s0 = Some (rs, s1) \<Longrightarrow> dispatch srv f s1 = (Ret reply, s2) \<Longrightarrow>
    serve srv (fs @ [f]) s0 = Some (rs @ (case reply of None \<Rightarrow> [] | Some r \<Rightarrow> [r]), s2)"
  by (simp add: serve_append split: option.split)

text \<open>A whole frame at the server is the next one of the history.\<close>

lemma next_request:
  assumes "client_side env mx sk" and "server_side env s0 mx m rs sk" and "bincode_ok (se_frames env)"
    and "sk_server sk = (s, str)" and "st_end str = None" and "read_frame (st_input str) = Some (msg, rest)"
  shows "m < length (sk_history sk)" and "decode_frame (se_frames env) msg = Inr (sk_history sk ! m, length msg)"
    and "channel (map (frame_bytes (se_frames env)) (sk_history sk)) (Suc m) rest
      (drop (sk_up sk) (mx_wire mx) @ concat (mx_inbox mx)) (mx_writing mx)"
    and "serve (se_server env) (take m (sk_history sk)) s0 = Some (rs, s)"
proof -
  let ?fs = "sk_history sk" and ?bytes = "frame_bytes (se_frames env)"
  have ch: "channel (map ?bytes ?fs) m (st_input str) (drop (sk_up sk) (mx_wire mx) @ concat (mx_inbox mx)) (mx_writing mx)"
    using assms(2,4,5) by (auto simp: server_side_def)
  have enc: "\<forall>f \<in> set ?fs. encodes (se_frames env) f" using assms(1) by (simp add: client_side_def)
  note read = channel_read [OF ch framed_encoded [OF enc] assms(6)]
  show "channel (map ?bytes ?fs) (Suc m) rest (drop (sk_up sk) (mx_wire mx) @ concat (mx_inbox mx)) (mx_writing mx)"
    by (rule read(3))
  show "serve (se_server env) (take m ?fs) s0 = Some (rs, s)" using assms(2,4,5) by (auto simp: server_side_def)
  show m: "m < length ?fs" using read(1) by simp
  then have "msg = ?bytes (?fs ! m)" "encode_frame (se_frames env) (?fs ! m) = Inr (?bytes (?fs ! m))"
    using read(2) enc by (simp_all add: encodes_def)
  then show "decode_frame (se_frames env) msg = Inr (?fs ! m, length msg)"
    using decode_encoded_frame [OF assms(3), of "?fs ! m" "?bytes (?fs ! m)" "[]"] by simp
qed

lemma serve_step_ok:
  assumes "stack_ok env s0 sk" and "bincode_ok (se_frames env)" and "se_writer env = buffer_writer"
  shows "stack_ok env s0 (serve_step env sk)"
proof -
  obtain mx m rs q where ok: "client_side env mx sk" "server_side env s0 mx m rs sk" "way_back env mx rs q sk"
    using assms(1) by (auto simp: stack_ok_def)
  obtain s str where sv: "sk_server sk = (s, str)" by (rule prod.exhaust)
  show ?thesis
  proof (cases "st_end str = None \<and> read_frame (st_input str) \<noteq> None")
    case False
    then show ?thesis using assms(1) by (auto simp: serve_step_def sv Let_def)
  next
    case True
    then obtain msg rest where msg: "read_frame (st_input str) = Some (msg, rest)" and end0: "st_end str = None" by auto
    let ?fs = "sk_history sk" and ?f = "sk_history sk ! m"
    note read = next_request [OF ok(1,2) assms(2) sv end0 msg]
    note m = read(1) and dec = read(2) and srv = read(4)
    have nxt: "sk_server (serve_step env sk) = stream_step env (s, str)"
      "sk_client (serve_step env sk) = sk_client sk" "sk_history (serve_step env sk) = ?fs"
      "sk_up (serve_step env sk) = sk_up sk" "sk_down (serve_step env sk) = sk_down sk"
      using True by (simp_all add: serve_step_def sv)
    have client: "client_side env mx (serve_step env sk)" using ok(1) by (simp add: client_side_def nxt)
    obtain out s' where d: "dispatch (se_server env) ?f s = (out, s')" by (rule prod.exhaust)
    have stops: ?thesis if "snd (sk_server (serve_step env sk)) = str\<lparr>st_input := rest, st_end := Some e\<rparr>" for e
      using ok(2,3) that by (intro stack_okI [OF client, of s0 m rs q]) (auto simp: server_side_def way_back_def nxt sv)
    have take_Suc: "take (Suc m) ?fs = take m ?fs @ [?f]" using m by (simp add: take_Suc_conv_app_nth)
    show ?thesis
    proof (cases out)
      case (Ret reply)
      have served: "serve (se_server env) (take (Suc m) ?fs) s0 = Some (rs @ (case reply of None \<Rightarrow> [] | Some r \<Rightarrow> [r]), s')"
        using serve_snoc [OF srv d [unfolded Ret]] by (simp add: take_Suc)
      show ?thesis
      proof (cases "\<exists>r e. reply = Some r \<and> encode_frame (se_responses env) r = Inl e")
        case True
        then obtain r e where "reply = Some r" "encode_frame (se_responses env) r = Inl e" by blast
        then show ?thesis using msg dec d Ret by (intro stops [of "CodecFailed e"]) (simp add: nxt stream_step_def)
      next
        case False
        then have enc': "\<forall>r. reply = Some r \<longrightarrow> encodes (se_responses env) r"
          by (metis encode_frame_encodes sum.exhaust)
        have consumed: "q \<le> length rs" using ok(3) by (simp add: way_back_def channel_def)
        let ?more = "case reply of None \<Rightarrow> [] | Some r \<Rightarrow> [r]"
        have step: "stream_step env (s, str) = (s', str\<lparr>st_input := rest,
            st_output := st_output str @ concat (map (frame_bytes (se_responses env)) ?more)\<rparr>)"
          using msg dec d Ret assms(3) enc' by (auto simp: stream_step_def encodes_def split: option.split)
        have "server_side env s0 mx (Suc m) (rs @ ?more) (serve_step env sk)"
          using ok(2) read(3) served enc' m end0 by (auto simp: server_side_def nxt step sv split: option.split)
        moreover have "way_back env mx (rs @ ?more) q (serve_step env sk)"
          using ok(3) channel_send [where whole = True] consumed
          by (cases reply) (auto simp: way_back_def nxt step sv nth_append)
        ultimately show ?thesis by (rule stack_okI [OF client])
      qed
    next
      case (Fail e)
      then show ?thesis using msg dec d by (intro stops) (auto simp: nxt stream_step_def)
    next
      case Panic
      then show ?thesis using msg dec d by (intro stops) (auto simp: nxt stream_step_def)
    qed
  qed
qed

subsection \<open>Arrivals\<close>

lemma drop_taken: "drop k xs = take n (drop k xs) @ drop (k + length (take n (drop k xs))) xs"
  by (metis add.commute append_take_drop_id drop_drop length_take min.commute take_all_iff drop_all linorder_le_cases
      append.right_neutral min_def)

lemma arrive_up_ok:
  assumes "stack_ok env s0 sk"
  shows "stack_ok env s0 (arrive_up n sk)"
proof -
  obtain mx m rs q where ok: "client_side env mx sk" "server_side env s0 mx m rs sk" "way_back env mx rs q sk"
    using assms by (auto simp: stack_ok_def)
  obtain s str where sv: "sk_server sk = (s, str)" by (rule prod.exhaust)
  have mx: "main_mux (sk_client sk) = mx" using ok(1) by (simp add: client_side_def main_mux_def)
  let ?b = "take n (drop (sk_up sk) (mx_wire mx))"
  have wire: "drop (sk_up sk) (mx_wire mx) = ?b @ drop (sk_up sk + length ?b) (mx_wire mx)" by (rule drop_taken)
  have sk': "arrive_up n sk = sk\<lparr>sk_up := sk_up sk + length ?b, sk_server := (s, str\<lparr>st_input := st_input str @ ?b\<rparr>)\<rparr>"
    by (simp add: arrive_up_def mx sv Let_def)
  show ?thesis
  proof (rule stack_okI)
    show "client_side env mx (arrive_up n sk)" using ok(1) by (auto simp: client_side_def sk')
    show "way_back env mx rs q (arrive_up n sk)" using ok(3) by (simp add: way_back_def sk' sv)
    have "channel bs k (st_input str @ ?b) (drop (sk_up sk + length ?b) (mx_wire mx) @ concat (mx_inbox mx)) whole"
      if "channel bs k (st_input str) (drop (sk_up sk) (mx_wire mx) @ concat (mx_inbox mx)) whole" for bs k whole
      by (rule channel_arrive) (use that in \<open>subst (asm) wire, simp\<close>)
    then show "server_side env s0 mx m rs (arrive_up n sk)"
      using ok(2) unfolding server_side_def sk' sv by simp
  qed
qed

lemma arrive_down_ok:
  assumes "stack_ok env s0 sk"
  shows "stack_ok env s0 (arrive_down env n sk)"
proof -
  obtain mx m rs q where ok: "client_side env mx sk" "server_side env s0 mx m rs sk" "way_back env mx rs q sk"
    using assms by (auto simp: stack_ok_def)
  let ?out = "st_output (snd (sk_server sk))"
  let ?b = "take n (drop (sk_down sk) ?out)"
  let ?mx = "mx\<lparr>mx_recv := mx_recv mx @ ?b\<rparr>"
  have out: "drop (sk_down sk) ?out = ?b @ drop (sk_down sk + length ?b) ?out" by (rule drop_taken)
  have sk': "arrive_down env n sk = sk\<lparr>sk_down := sk_down sk + length ?b, sk_client := (sk_client sk)\<lparr>cl_muxes := [?mx]\<rparr>\<rparr>"
    using ok(1) by (simp add: arrive_down_def Let_def client_side_def upd_mux_def)
  show ?thesis
  proof (rule stack_okI)
    show "client_side env ?mx (arrive_down env n sk)" using ok(1) by (simp add: client_side_def sk')
    show "server_side env s0 ?mx m rs (arrive_down env n sk)" using ok(2) by (simp add: server_side_def sk')
    have "channel bs q (mx_recv mx @ ?b) (drop (sk_down sk + length ?b) ?out) True"
      if "channel bs q (mx_recv mx) (drop (sk_down sk) ?out) True" for bs
      by (rule channel_arrive) (use that in \<open>subst (asm) out, simp\<close>)
    then show "way_back env ?mx rs q (arrive_down env n sk)"
      using ok(3) by (auto simp: way_back_def sk')
  qed
qed

subsection \<open>The client's steps\<close>

lemma mint_frame_eq:
  "mint_frame cc act c =
     (RequestId (cl_next_request_id c), encode_frame (cc_frames cc) \<lparr>fr_request_id = Some (RequestId (cl_next_request_id c)), fr_action = act\<rparr>,
      c\<lparr>cl_next_request_id := cl_next_request_id c + 1\<rparr>)"
  by (simp add: mint_frame_def mint_request_id_def fetch_add_def add.commute)

text \<open>A call: it takes an id, and queues its frame or nothing.\<close>

lemma call_ok:
  assumes "client_side env mx sk" and "server_side env s0 mx m rs sk" and "way_back env mx rs q sk"
    and "unat (cl_next_request_id (sk_client sk)) < 2 ^ 64 - 1"
    and "cl_muxes c' = [mx']" "cl_mux c' = Some 0" "cl_cold c' = []" "cl_outcomes c' = cl_outcomes (sk_client sk)"
    and "cl_next_request_id c' = cl_next_request_id (sk_client sk) + 1"
    and "mx_wire mx' = mx_wire mx" "mx_recv mx' = mx_recv mx" "mx_writing mx' = mx_writing mx"
    and "new = [] \<and> mx_inbox mx' = mx_inbox mx \<or>
      (\<exists>f. new = [f] \<and> mx_inbox mx' = mx_inbox mx @ [frame_bytes (se_frames env) f] \<and> mx_writing mx \<and> encodes (se_frames env) f
         \<and> fr_request_id f = Some (RequestId (cl_next_request_id (sk_client sk))))"
    and "\<forall>rid \<in> mx_pending mx'. rid \<in> mx_pending mx \<or> Some rid \<in> fr_request_id ` set new"
  shows "stack_ok env s0 (sk\<lparr>sk_client := c', sk_history := sk_history sk @ new\<rparr>)"
proof (rule stack_okI)
  let ?sk' = "sk\<lparr>sk_client := c', sk_history := sk_history sk @ new\<rparr>"
  note id_less = next_id_less [OF assms(4)]
  have new: "\<And>f. f \<in> set new \<Longrightarrow> encodes (se_frames env) f \<and> fr_request_id f = Some (RequestId (cl_next_request_id (sk_client sk)))"
    "distinct new" "length new \<le> 1"
    using assms(13) by auto
  have old: "fr_request_id f \<noteq> Some (RequestId (cl_next_request_id (sk_client sk)))" if "f \<in> set (sk_history sk)" for f
    using assms(1) that id_less(3) by (force simp: client_side_def)
  have "distinct (map fr_request_id (sk_history sk @ new))"
    using assms(1) new old by (cases new) (auto simp: client_side_def)
  moreover have "encodes (se_frames env) f \<and> (\<exists>r. fr_request_id f = Some r \<and> req_raw r < cl_next_request_id c')"
    if "f \<in> set (sk_history sk @ new)" for f
    using that assms(1,9) new(1) id_less(1,2) by (auto simp: client_side_def)
  moreover have "\<forall>rid \<in> mx_pending mx'. Some rid \<in> fr_request_id ` set (sk_history sk @ new)"
    using assms(1,14) unfolding client_side_def image_Un set_append by blast
  ultimately show "client_side env mx' ?sk'"
    using assms(1,5-7,10) unfolding client_side_def by simp
  have "rf_request_id r \<noteq> RequestId (cl_next_request_id (sk_client sk))" if "r \<in> set rs" for r
    using old server_ids [OF assms(2) that] by (metis imageE)
  moreover have "q \<le> length rs" using assms(3) by (simp add: way_back_def channel_def)
  ultimately have "rf_request_id (rs ! i) \<notin> mx_pending mx'" if "i < q" for i
    using assms(3,14) new(1) that by (fastforce simp: way_back_def)
  then show "way_back env mx' rs q ?sk'" using assms(3,8,11) by (simp add: way_back_def)
  have "channel (map (frame_bytes (se_frames env)) (sk_history sk @ new)) m buf (w @ concat (mx_inbox mx')) (mx_writing mx)"
    if "channel (map (frame_bytes (se_frames env)) (sk_history sk)) m buf (w @ concat (mx_inbox mx)) (mx_writing mx)" for buf w
    using that assms(13) channel_send [where rest = "w @ concat (mx_inbox mx)" and whole = True] by auto
  then show "server_side env s0 mx' m rs ?sk'"
    using assms(2,10,12) unfolding server_side_def by simp
qed

lemma local_request_ok:
  assumes "stack_ok env s0 sk" and "unat (cl_next_request_id (sk_client sk)) < 2 ^ 64 - 1"
  shows "stack_ok env s0 (local_step env (OpRequest act ok) sk)"
proof -
  obtain mx m rs q where st: "client_side env mx sk" "server_side env s0 mx m rs sk" "way_back env mx rs q sk"
    using assms(1) by (auto simp: stack_ok_def)
  let ?c = "sk_client sk" and ?cc = "client_codec_of env"
  have c: "cl_muxes ?c = [mx]" "cl_mux ?c = Some 0" "cl_cold ?c = []" using st(1) by (simp_all add: client_side_def)
  let ?f = "\<lparr>fr_request_id = Some (RequestId (cl_next_request_id ?c)), fr_action = act\<rparr>"
  show ?thesis
  proof (cases "encode_frame (se_frames env) ?f")
    case (Inl e)
    then show ?thesis
      unfolding local_step_def
      by (intro call_ok [OF st assms(2), of _ mx])
        (simp_all add: request_def mint_frame_eq client_codec_of_def queued_frame_def c)
  next
    case (Inr b)
    note enc = encode_frame_encodes [OF Inr]
    show ?thesis
    proof (cases "mx_writing mx")
      case True
      then show ?thesis
        unfolding local_step_def
        by (intro call_ok [OF st assms(2), of _ "mx\<lparr>mx_pending := insert (RequestId (cl_next_request_id ?c)) (mx_pending mx),
              mx_inbox := mx_inbox mx @ [b]\<rparr>"])
          (use enc in \<open>simp_all add: request_def mint_frame_eq client_codec_of_def queued_frame_def c Inr get_mux_def
            enqueue_def upd_mux_def main_mux_def\<close>)
    next
      case False
      then show ?thesis
        unfolding local_step_def
        by (intro call_ok [OF st assms(2), of _ "mx\<lparr>mx_pending := insert (RequestId (cl_next_request_id ?c)) (mx_pending mx)
              - {RequestId (cl_next_request_id ?c)}\<rparr>"])
          (use enc in \<open>simp_all add: request_def mint_frame_eq client_codec_of_def queued_frame_def c Inr get_mux_def
            enqueue_def upd_mux_def main_mux_def\<close>)
    qed
  qed
qed

lemma local_send_ok:
  assumes "stack_ok env s0 sk" and "unat (cl_next_request_id (sk_client sk)) < 2 ^ 64 - 1"
  shows "stack_ok env s0 (local_step env (OpSend act) sk)"
proof -
  obtain mx m rs q where st: "client_side env mx sk" "server_side env s0 mx m rs sk" "way_back env mx rs q sk"
    using assms(1) by (auto simp: stack_ok_def)
  let ?c = "sk_client sk"
  have c: "cl_muxes ?c = [mx]" "cl_mux ?c = Some 0" "cl_cold ?c = []" using st(1) by (simp_all add: client_side_def)
  let ?f = "\<lparr>fr_request_id = Some (RequestId (cl_next_request_id ?c)), fr_action = act\<rparr>"
  show ?thesis
  proof (cases "encode_frame (se_frames env) ?f")
    case (Inl e)
    then show ?thesis
      unfolding local_step_def
      by (intro call_ok [OF st assms(2), of _ mx])
        (simp_all add: send_def mint_frame_eq client_codec_of_def queued_frame_def c)
  next
    case (Inr b)
    note enc = encode_frame_encodes [OF Inr]
    show ?thesis
      unfolding local_step_def
      by (intro call_ok [OF st assms(2), of _ "if mx_writing mx then mx\<lparr>mx_inbox := mx_inbox mx @ [b]\<rparr> else mx"])
        (use enc in \<open>simp_all add: send_def mint_frame_eq client_codec_of_def queued_frame_def c Inr
          enqueue_def upd_mux_def main_mux_def\<close>)
  qed
qed

lemma local_write_ok:
  assumes "stack_ok env s0 sk"
  shows "stack_ok env s0 (local_step env (OpWrite j ok) sk)"
proof -
  obtain mx m rs q where st: "client_side env mx sk" "server_side env s0 mx m rs sk" "way_back env mx rs q sk"
    using assms by (auto simp: stack_ok_def)
  let ?c = "sk_client sk" and ?sk' = "local_step env (OpWrite j ok) sk"
  have c: "cl_muxes ?c = [mx]" "sk_up sk \<le> length (mx_wire mx)" using st(1) by (simp_all add: client_side_def)
  show ?thesis
  proof (cases "j = 0 \<and> mx_writing mx \<and> mx_inbox mx \<noteq> []")
    case False
    then have "apply_op (client_codec_of env) (OpWrite j ok) ?c = ?c"
      using c(1) by (cases "mx_inbox mx") (auto simp: writer_step_def upd_mux_def)
    then show ?thesis using assms by (simp add: local_step_def)
  next
    case True
    then obtain b bs where inbox: "mx_inbox mx = b # bs" and j: "j = 0" and w: "mx_writing mx"
      by (cases "mx_inbox mx") auto
    define mx' where "mx' = (if ok then mx\<lparr>mx_inbox := bs, mx_wire := mx_wire mx @ b\<rparr> else mx\<lparr>mx_inbox := [], mx_writing := False\<rparr>)"
    have sk': "?sk' = sk\<lparr>sk_client := ?c\<lparr>cl_muxes := [mx']\<rparr>\<rparr>"
      by (simp add: local_step_def writer_step_def upd_mux_def c(1) j w inbox mx'_def)
    show ?thesis
    proof (rule stack_okI)
      show "client_side env mx' ?sk'" using st(1) by (simp add: client_side_def sk' mx'_def)
      show "way_back env mx' rs q ?sk'" using st(3) by (simp add: way_back_def sk' mx'_def)
      have "channel fs m buf (drop (sk_up sk) (mx_wire mx') @ concat (mx_inbox mx')) (mx_writing mx')"
        if "channel fs m buf (drop (sk_up sk) (mx_wire mx) @ concat (mx_inbox mx)) (mx_writing mx)" for fs buf
        using that channel_cut [OF that] c(2) by (simp add: mx'_def inbox w)
      then show "server_side env s0 mx' m rs ?sk'"
        using st(2) unfolding server_side_def sk' by simp
    qed
  qed
qed

lemma response_eta: "\<lparr>rf_request_id = rf_request_id x, rf_response = rf_response x\<rparr> = (x :: response_frame)"
  by (cases x) simp

text \<open>A whole frame at the client is the next response.\<close>

lemma next_response:
  assumes "server_side env s0 mx m rs sk" and "way_back env mx rs q sk" and "bincode_ok (se_responses env)"
    and "read_frame (mx_recv mx) = Some (msg, rest)"
  shows "q < length rs" and "decode_frame (se_responses env) msg = Inr (rs ! q, length msg)"
    and "channel (map (frame_bytes (se_responses env)) rs) (Suc q) rest
      (drop (sk_down sk) (st_output (snd (sk_server sk)))) True"
proof -
  let ?bytes = "frame_bytes (se_responses env)"
  have enc: "\<forall>r \<in> set rs. encodes (se_responses env) r" using assms(1) by (simp add: server_side_def)
  have ch: "channel (map ?bytes rs) q (mx_recv mx) (drop (sk_down sk) (st_output (snd (sk_server sk)))) True"
    using assms(2) by (simp add: way_back_def)
  note read = channel_read [OF ch framed_encoded [OF enc] assms(4)]
  show q: "q < length rs" and "channel (map ?bytes rs) (Suc q) rest (drop (sk_down sk) (st_output (snd (sk_server sk)))) True"
    using read(1,3) by simp_all
  have "msg = ?bytes (rs ! q)" "encode_frame (se_responses env) (rs ! q) = Inr (?bytes (rs ! q))"
    using read(2) enc q by (simp_all add: encodes_def)
  then show "decode_frame (se_responses env) msg = Inr (rs ! q, length msg)"
    using decode_encoded_frame [OF assms(3), of "rs ! q" "?bytes (rs ! q)" "[]"] by simp
qed

lemma local_read_ok:
  assumes "stack_ok env s0 sk" and "bincode_ok (se_responses env)"
  shows "stack_ok env s0 (local_step env (OpRead j eof) sk)"
proof -
  obtain mx m rs q where st: "client_side env mx sk" "server_side env s0 mx m rs sk" "way_back env mx rs q sk"
    using assms(1) by (auto simp: stack_ok_def)
  let ?c = "sk_client sk" and ?sk' = "local_step env (OpRead j eof) sk"
  have c: "cl_muxes ?c = [mx]" using st(1) by (simp add: client_side_def)
  have exits: ?thesis if "?sk' = sk\<lparr>sk_client := reader_exit 0 ?c\<rparr>"
  proof (rule stack_okI)
    let ?mx = "mx\<lparr>mx_reading := False, mx_pending := {}\<rparr>"
    show "client_side env ?mx ?sk'" "server_side env s0 ?mx m rs ?sk'"
      using st(1,2) c by (simp_all add: that client_side_def server_side_def reader_exit_def upd_mux_def)
    show "way_back env ?mx rs q ?sk'" using st(3) by (simp add: that way_back_def reader_exit_def)
  qed
  show ?thesis
  proof (cases "j = 0 \<and> mx_reading mx")
    case False
    then have "apply_op (client_codec_of env) (OpRead j eof) ?c = ?c" by (auto simp: reader_step_def c)
    then show ?thesis using assms(1) by (simp add: local_step_def)
  next
    case True
    show ?thesis
    proof (cases "read_frame (mx_recv mx)")
      case None
      then show ?thesis
        using True assms(1) exits by (cases eof) (simp_all add: local_step_def reader_step_def c)
    next
      case (Some p)
      then obtain msg rest where msg: "read_frame (mx_recv mx) = Some (msg, rest)" by (cases p) simp
      let ?r = "rs ! q"
      note read = next_response [OF st(2,3) assms(2) msg]
      note q = read(1) and dec = read(2)
      define mx' where "mx' = mx\<lparr>mx_recv := rest, mx_pending := mx_pending mx - {rf_request_id ?r}\<rparr>"
      define outcomes where "outcomes = (if rf_request_id ?r \<in> mx_pending mx
        then (cl_outcomes ?c)(rf_request_id ?r \<mapsto> Inr (rf_response ?r)) else cl_outcomes ?c)"
      have sk': "?sk' = sk\<lparr>sk_client := ?c\<lparr>cl_muxes := [mx'], cl_outcomes := outcomes\<rparr>\<rparr>"
        using True by (simp add: local_step_def reader_step_def c msg client_codec_of_def dec upd_mux_def mx'_def outcomes_def)
      show ?thesis
      proof (rule stack_okI)
        show "client_side env mx' ?sk'" "server_side env s0 mx' m rs ?sk'"
          using st(1,2) by (simp_all add: client_side_def server_side_def sk' mx'_def)
        have "\<lparr>rf_request_id = rf_request_id ?r, rf_response = rf_response ?r\<rparr> \<in> set rs"
          using nth_mem [OF q] by (simp add: response_eta)
        then show "way_back env mx' rs (Suc q) ?sk'"
          using st(3) read(3) by (auto simp: way_back_def sk' mx'_def outcomes_def less_Suc_eq split: if_splits)
      qed
    qed
  qed
qed

subsection \<open>Runs\<close>

lemma stack_step_ok:
  assumes "stack_ok env s0 sk" and "bincode_ok (se_frames env)" and "bincode_ok (se_responses env)"
    and "se_writer env = buffer_writer" and "unat (cl_next_request_id (sk_client sk)) < 2 ^ 64 - 1"
  shows "stack_ok env s0 (stack_step env op sk)"
proof (cases op)
  case (Local call)
  obtain mx where c: "cl_muxes (sk_client sk) = [mx]" "cl_mux (sk_client sk) = Some 0" "cl_cold (sk_client sk) = []"
    using assms(1) by (auto simp: stack_ok_def client_side_def)
  show ?thesis
  proof (cases call)
    case (OpColdStart k ok)
    then show ?thesis using assms(1) by (simp add: Local local_step_def cold_start_def c)
  next
    case (OpDrop j)
    then show ?thesis using assms(1) by (simp add: Local local_step_def drop_mux_def upd_mux_def c)
  qed (use assms local_request_ok [OF assms(1,5)] local_send_ok [OF assms(1,5)] local_write_ok [OF assms(1)]
      local_read_ok [OF assms(1,3)] in \<open>simp_all add: Local\<close>)
qed (use assms serve_step_ok [OF assms(1,2,4)] arrive_up_ok [OF assms(1)] arrive_down_ok [OF assms(1)] in simp_all)

lemma stack_step_ids:
  "cl_next_request_id (sk_client (stack_step env op sk)) = cl_next_request_id (sk_client sk) \<or>
   cl_next_request_id (sk_client (stack_step env op sk)) = cl_next_request_id (sk_client sk) + 1"
proof (cases op)
  case (Local call)
  then show ?thesis using next_after_op [of "client_codec_of env" call "sk_client sk"] by (cases call) (simp_all add: local_step_def)
qed (auto simp: arrive_up_def arrive_down_def serve_step_def Let_def split: prod.splits)

interpretation stack_runs: budgeted
  "\<lambda>n sk. bincode_ok (se_frames env) \<and> bincode_ok (se_responses env) \<and> se_writer env = buffer_writer
     \<and> stack_ok env s0 sk \<and> unat (cl_next_request_id (sk_client sk)) \<le> n"
  "\<lambda>op sk. True" "stack_step env" "2 ^ 64 - 1"
  for env s0
proof
  fix n and op :: "'a stack_op" and sk :: "('a, 'b, 'c) stack"
  assume ok: "bincode_ok (se_frames env) \<and> bincode_ok (se_responses env) \<and> se_writer env = buffer_writer
     \<and> stack_ok env s0 sk \<and> unat (cl_next_request_id (sk_client sk)) \<le> n" and n: "n < 2 ^ 64 - 1"
  then have "unat (cl_next_request_id (sk_client sk)) < 2 ^ 64 - 1" by simp
  then show "bincode_ok (se_frames env) \<and> bincode_ok (se_responses env) \<and> se_writer env = buffer_writer
     \<and> stack_ok env s0 (stack_step env op sk) \<and> unat (cl_next_request_id (sk_client (stack_step env op sk))) \<le> Suc n"
    using ok stack_step_ok [of env s0 sk op] stack_step_ids [of env op sk] by (auto simp: unat_Suc)
qed

lemma always_along: "all_along (\<lambda>op s. True) step ops s"
  by (induction ops arbitrary: s) simp_all

lemma opened_stack_eq:
  assumes "encode_frame (se_frames env) \<lparr>fr_request_id = Some (RequestId 1), fr_action = act\<rparr> = Inr b"
  shows "opened_stack env act s0 =
    \<lparr>sk_client = new_client\<lparr>cl_next_request_id := 2, cl_mux := Some 0,
        cl_muxes := [open_mux\<lparr>mx_pending := {RequestId 1}, mx_inbox := [b]\<rparr>]\<rparr>,
     sk_history = [\<lparr>fr_request_id = Some (RequestId 1), fr_action = act\<rparr>],
     sk_up = 0, sk_server = (s0, open_stream [] []), sk_down = 0\<rparr>"
  using assms by (simp add: opened_stack_def request_def mint_frame_eq client_codec_of_def new_client_def get_mux_def
      enqueue_def upd_mux_def open_mux_def)

lemma opened_stack_ok:
  assumes "encode_frame (se_frames env) \<lparr>fr_request_id = Some (RequestId 1), fr_action = act\<rparr> = Inr b"
  shows "stack_ok env s0 (opened_stack env act s0)"
proof (rule stack_okI)
  let ?mx = "open_mux\<lparr>mx_pending := {RequestId 1}, mx_inbox := [b]\<rparr>"
  note enc = encode_frame_encodes [OF assms] and opened = opened_stack_eq [OF assms]
  show "client_side env ?mx (opened_stack env act s0)"
    using enc by (simp add: client_side_def opened open_mux_def new_client_def)
  show "server_side env s0 ?mx 0 [] (opened_stack env act s0)"
    using enc by (simp add: server_side_def opened open_stream_def channel_def open_mux_def)
  show "way_back env ?mx [] 0 (opened_stack env act s0)"
    by (simp add: way_back_def opened open_stream_def channel_def open_mux_def new_client_def)
qed

lemma reached_stack_ok:
  assumes "bincode_ok (se_frames env)" and "bincode_ok (se_responses env)" and "se_writer env = buffer_writer"
    and "encode_frame (se_frames env) \<lparr>fr_request_id = Some (RequestId 1), fr_action = act\<rparr> = Inr b"
    and "length ops < 2 ^ 64 - 2"
  shows "stack_ok env s0 (stack_run env ops (opened_stack env act s0))"
proof -
  have "unat (cl_next_request_id (sk_client (opened_stack env act s0))) \<le> 2"
    by (simp add: opened_stack_eq [OF assms(4)])
  then show ?thesis
    using stack_runs.run_keeps_ok [where n = 2 and env = env and ?s0.0 = s0 and s = "opened_stack env act s0" and ops = ops, OF _ always_along]
      assms opened_stack_ok [OF assms(4)] by (simp add: stack_run_def)
qed

lemma serve_origin:
  assumes "serve srv fs s0 = Some (rs, s1)" and "rf \<in> set rs"
  shows "\<exists>k rs' s' s''. k < length fs \<and> serve srv (take k fs) s0 = Some (rs', s') \<and> dispatch srv (fs ! k) s' = (Ret (Some rf), s'')"
  using assms
proof (induction fs arbitrary: s0 rs)
  case (Cons f fs)
  obtain reply s2 rs2 where d: "dispatch srv f s0 = (Ret reply, s2)" and rest: "serve srv fs s2 = Some (rs2, s1)"
    and rs: "rs = (case reply of None \<Rightarrow> rs2 | Some r \<Rightarrow> r # rs2)"
    using Cons.prems(1) by (auto split: prod.splits flow.splits)
  show ?case
  proof (cases "reply = Some rf")
    case True
    then show ?thesis using d by (intro exI [of _ 0]) simp
  next
    case False
    then have "rf \<in> set rs2" using rs Cons.prems(2) by (auto split: option.splits)
    from Cons.IH [OF rest this] obtain k rs' s' s'' where k: "k < length fs" "serve srv (take k fs) s2 = Some (rs', s')"
      "dispatch srv (fs ! k) s' = (Ret (Some rf), s'')" by blast
    then show ?thesis using d by (intro exI [of _ "Suc k"]) simp
  qed
qed simp

lemma dispatch_handles:
  "dispatch srv f s = (Ret (Some rf), s') \<Longrightarrow>
     handle srv (fr_action f) s = (Ret (Some (rf_response rf)), s') \<and> fr_request_id f = Some (rf_request_id rf)"
  by (auto simp: dispatch_def andThen_def split: prod.splits flow.splits option.splits)

subsection \<open>Requests get their own answers\<close>

text \<open>C13: what the whole stack guarantees a request. From the first request on, over fewer than
  \<open>2\<^sup>6\<^sup>4 - 2\<close> steps, however calls, the client's tasks, the arrival of bytes in both directions and the
  server's task interleave, and whatever fails on the way: the engine has handled the first frames that
  were queued, in their order and each once; and when a request has been resolved with a response, exactly
  one queued frame has its id, and the response is what the engine answered to the action of that frame,
  in the state that the actions queued before it have made.\<close>

theorem requests_get_their_answers:
  assumes "bincode_ok (se_frames env)" and "bincode_ok (se_responses env)" and "se_writer env = buffer_writer"
    and "encode_frame (se_frames env) \<lparr>fr_request_id = Some (RequestId 1), fr_action = act\<rparr> = Inr b"
    and "sk = stack_run env ops (opened_stack env act s0)" and "length ops < 2 ^ 64 - 2"
  shows "(st_end (snd (sk_server sk)) = None \<longrightarrow>
      (\<exists>m rs. m \<le> length (sk_history sk) \<and> serve (se_server env) (take m (sk_history sk)) s0 = Some (rs, fst (sk_server sk))))
    \<and> (\<forall>rid r. cl_outcomes (sk_client sk) rid = Some (Inr r) \<longrightarrow>
        (\<exists>!k. k < length (sk_history sk) \<and> fr_request_id (sk_history sk ! k) = Some rid)
        \<and> (\<exists>k < length (sk_history sk). fr_request_id (sk_history sk ! k) = Some rid
             \<and> (\<exists>rs s1 s2. serve (se_server env) (take k (sk_history sk)) s0 = Some (rs, s1)
                  \<and> handle (se_server env) (fr_action (sk_history sk ! k)) s1 = (Ret (Some r), s2))))"
proof -
  have "stack_ok env s0 sk" using reached_stack_ok [OF assms(1-4,6)] assms(5) by simp
  then obtain mx m rs q where st: "client_side env mx sk" "server_side env s0 mx m rs sk" "way_back env mx rs q sk"
    by (auto simp: stack_ok_def)
  let ?F = "sk_history sk"
  obtain s1 where m: "m \<le> length ?F" "serve (se_server env) (take m ?F) s0 = Some (rs, s1)"
    "st_end (snd (sk_server sk)) = None \<longrightarrow> s1 = fst (sk_server sk)"
    using st(2) by (auto simp: server_side_def)
  have "(\<exists>!k. k < length ?F \<and> fr_request_id (?F ! k) = Some rid)
      \<and> (\<exists>k < length ?F. fr_request_id (?F ! k) = Some rid
           \<and> (\<exists>rs s1 s2. serve (se_server env) (take k ?F) s0 = Some (rs, s1)
                \<and> handle (se_server env) (fr_action (?F ! k)) s1 = (Ret (Some r), s2)))"
    if "cl_outcomes (sk_client sk) rid = Some (Inr r)" for rid r
  proof -
    have "\<lparr>rf_request_id = rid, rf_response = r\<rparr> \<in> set rs" using st(3) that by (simp add: way_back_def)
    from serve_origin [OF m(2) this] obtain k rs' s' s'' where o: "k < length (take m ?F)"
      "serve (se_server env) (take k (take m ?F)) s0 = Some (rs', s')"
      "dispatch (se_server env) (take m ?F ! k) s' = (Ret (Some \<lparr>rf_request_id = rid, rf_response = r\<rparr>), s'')"
      by blast
    have less: "k < m" using o(1) m(1) by simp
    have k: "k < m" "serve (se_server env) (take k ?F) s0 = Some (rs', s')"
      "dispatch (se_server env) (?F ! k) s' = (Ret (Some \<lparr>rf_request_id = rid, rf_response = r\<rparr>), s'')"
      using less o(2,3) by (simp_all add: min.absorb1)
    note handled = dispatch_handles [OF k(3)]
    have lt: "k < length ?F" using k(1) m(1) by simp
    have only: "j = k" if "j < length ?F" "fr_request_id (?F ! j) = Some rid" for j
      using that lt handled st(1) nth_eq_iff_index_eq [of "map fr_request_id ?F" j k] by (simp add: client_side_def)
    have id: "fr_request_id (?F ! k) = Some rid" using handled by simp
    then have "\<exists>!k. k < length ?F \<and> fr_request_id (?F ! k) = Some rid" using lt only by blast
    moreover have "handle (se_server env) (fr_action (?F ! k)) s' = (Ret (Some r), s'')" using handled by simp
    ultimately show ?thesis using lt id k(2) by blast
  qed
  then show ?thesis using m by blast
qed

text \<open>A first request, whose frame is written, delivered and served, and whose response arrives.\<close>

definition demo_ops :: "nat stack_op list" where
  "demo_ops = [Local (OpWrite 0 True), Up 3, Up 2, Serve, Down 5, Local (OpRead 0 False)]"

lemma demo_env_responses: "bincode_ok (se_responses demo_env)"
  by (auto simp: demo_env_def intro!: table_bincode_ok)

lemma demo_env_decodes:
  "decode_frame (se_frames demo_env) [0, 0, 0, 1, 7] = Inr (hello_frame, 5)"
  "decode_frame (se_responses demo_env) [0, 0, 0, 1, 8] = Inr (ack_frame, 5)"
  using decode_encoded_frame [OF demo_env_simps(5,3), of "[]"] decode_encoded_frame [OF demo_env_responses demo_env_simps(4), of "[]"]
  by simp_all

lemma demo_stack_opened:
  "opened_stack demo_env (Hello 1) (demo_engine 0) =
    \<lparr>sk_client = new_client\<lparr>cl_next_request_id := 2, cl_mux := Some 0,
        cl_muxes := [open_mux\<lparr>mx_pending := {RequestId 1}, mx_inbox := [[0, 0, 0, 1, 7]]\<rparr>]\<rparr>,
     sk_history = [hello_frame], sk_up = 0, sk_server = (demo_engine 0, open_stream [] []), sk_down = 0\<rparr>"
  using opened_stack_eq [of demo_env "Hello 1"] demo_env_simps(3) by (simp add: hello_frame_def)

lemma demo_stack_run:
  "stack_run demo_env demo_ops (opened_stack demo_env (Hello 1) (demo_engine 0)) =
    \<lparr>sk_client = new_client\<lparr>cl_next_request_id := 2, cl_mux := Some 0,
        cl_muxes := [open_mux\<lparr>mx_wire := [0, 0, 0, 1, 7]\<rparr>], cl_outcomes := [RequestId 1 \<mapsto> Inr (HelloAck 1)]\<rparr>,
     sk_history = [hello_frame], sk_up = 5,
     sk_server = (demo_engine 0, \<lparr>st_input = [], st_output = [0, 0, 0, 1, 8], st_end = None\<rparr>), sk_down = 5\<rparr>"
proof -
  have read: "read_frame [0, 0, 0, 1, 7] = Some ([0, 0, 0, 1, 7], [])" "read_frame [0, 0, 0, 1, 8] = Some ([0, 0, 0, 1, 8], [])"
    by (simp_all add: read_frame_def read_exact_def be_len_def u32_from_be_bytes_def Let_def)
  have fields: "rf_request_id ack_frame = RequestId 1" "rf_response ack_frame = HelloAck 1" by (simp_all add: ack_frame_def)
  show ?thesis
    by (simp add: demo_ops_def stack_run_def demo_stack_opened local_step_def writer_step_def upd_mux_def open_mux_def
        arrive_up_def arrive_down_def serve_step_def stream_step_def reader_step_def main_mux_def new_client_def
        client_codec_of_def read demo_env_decodes demo_env_simps open_stream_def Let_def fields)
qed

theorem requests_get_their_answers_witness:
  "cl_outcomes (sk_client (stack_run demo_env demo_ops (opened_stack demo_env (Hello 1) (demo_engine 0)))) (RequestId 1)
     = Some (Inr (HelloAck 1))
   \<and> (\<exists>k rs s1 s2. fr_request_id ([hello_frame] ! k) = Some (RequestId 1) \<and> k < 1
        \<and> serve (demo_server good_device False copy_recording) (take k [hello_frame]) (demo_engine 0) = Some (rs, s1)
        \<and> handle (demo_server good_device False copy_recording) (fr_action ([hello_frame] ! k)) s1 = (Ret (Some (HelloAck 1)), s2))"
proof -
  let ?sk = "stack_run demo_env demo_ops (opened_stack demo_env (Hello 1) (demo_engine 0))"
  have first: "encode_frame (se_frames demo_env) \<lparr>fr_request_id = Some (RequestId 1), fr_action = Hello 1\<rparr> = Inr [0, 0, 0, 1, 7]"
    using demo_env_simps(3) by (simp add: hello_frame_def)
  have few: "length demo_ops < 2 ^ 64 - 2" by (simp add: demo_ops_def)
  have outcome: "cl_outcomes (sk_client ?sk) (RequestId 1) = Some (Inr (HelloAck 1))" and history: "sk_history ?sk = [hello_frame]"
    by (simp_all add: demo_stack_run)
  note claim = requests_get_their_answers [OF demo_env_simps(5) demo_env_responses demo_env_simps(2) first refl few]
  show ?thesis
    using claim [THEN conjunct2, rule_format, OF outcome] outcome
    unfolding history demo_env_simps(1) by (metis length_Cons list.size(3) One_nat_def)
qed

end
