(* ===== verification/Stack_Progress.thy ===== *)
theory Stack_Progress
  imports Stack
begin

section \<open>Every request is answered\<close>

text \<open>
  \<open>Stack\<close> says what a request can be resolved with; this theory, that it is. As long as the tasks of the
  client and the stream task of the server are alive, whatever schedule they run in comes to an end, and
  then every request that was pending has the engine's answer. A schedule is any list of steps of the
  tasks and of arrivals; it ends when none of them can do anything.
\<close>

subsection \<open>Tasks that settle\<close>

text \<open>
  The contract: tasks keep an invariant, a step that has an effect leaves less work, and as long as the
  system is not settled some task can do something.
\<close>

locale settling =
  fixes ok :: "'s \<Rightarrow> bool" and task :: "'op \<Rightarrow> bool" and step :: "'op \<Rightarrow> 's \<Rightarrow> 's"
    and work :: "'s \<Rightarrow> nat" and settled :: "'s \<Rightarrow> bool"
  assumes keeps: "ok s \<Longrightarrow> task op \<Longrightarrow> ok (step op s)"
    and decreases: "ok s \<Longrightarrow> task op \<Longrightarrow> step op s \<noteq> s \<Longrightarrow> work (step op s) < work s"
    and unsettled: "ok s \<Longrightarrow> \<not> settled s \<Longrightarrow> \<exists>op. task op \<and> step op s \<noteq> s"
begin

lemma run_keeps: "ok s \<Longrightarrow> list_all task ops \<Longrightarrow> ok (fold step ops s)"
  by (induction ops arbitrary: s) (simp_all add: keeps)

lemma run_bounded:
  "ok s \<Longrightarrow> list_all task ops \<Longrightarrow> all_along (\<lambda>op s. step op s \<noteq> s) step ops s \<Longrightarrow> length ops \<le> work s"
proof (induction ops arbitrary: s)
  case (Cons op ops)
  then have "length ops \<le> work (step op s)" "work (step op s) < work s" by (simp_all add: keeps decreases)
  then show ?case by simp
qed simp

lemma run_settles: "ok s \<Longrightarrow> \<exists>ops. list_all task ops \<and> settled (fold step ops s)"
proof (induction "work s" arbitrary: s rule: less_induct)
  case less
  show ?case
  proof (cases "settled s")
    case True
    then show ?thesis by (intro exI [of _ "[]"]) simp
  next
    case False
    then obtain op where op: "task op" "step op s \<noteq> s" using unsettled less.prems by blast
    with less obtain ops where "list_all task ops" "settled (fold step ops (step op s))"
      using keeps decreases by meson
    then show ?thesis using op(1) by (intro exI [of _ "op # ops"]) simp
  qed
qed

end

subsection \<open>The tasks of the stack\<close>

text \<open>Iterations of the tasks whose writes succeed and whose stream has not ended; arrivals.\<close>

fun task_op :: "'w stack_op \<Rightarrow> bool" where
  "task_op (Local (OpWrite j ok)) \<longleftrightarrow> ok"
| "task_op (Local (OpRead j eof)) \<longleftrightarrow> \<not> eof"
| "task_op (Local _) \<longleftrightarrow> False"
| "task_op (Up n) \<longleftrightarrow> True"
| "task_op (Down n) \<longleftrightarrow> True"
| "task_op Serve \<longleftrightarrow> True"

text \<open>Whether it can do something.\<close>

fun useful :: "'w stack_op \<Rightarrow> ('w, 'h, 'g) stack \<Rightarrow> bool" where
  "useful (Local (OpWrite j ok)) sk \<longleftrightarrow> j = 0 \<and> mx_inbox (main_mux (sk_client sk)) \<noteq> []"
| "useful (Local (OpRead j eof)) sk \<longleftrightarrow> j = 0 \<and> read_frame (mx_recv (main_mux (sk_client sk))) \<noteq> None"
| "useful (Local _) sk \<longleftrightarrow> False"
| "useful (Up n) sk \<longleftrightarrow> 0 < n \<and> sk_up sk < length (mx_wire (main_mux (sk_client sk)))"
| "useful (Down n) sk \<longleftrightarrow> 0 < n \<and> sk_down sk < length (st_output (snd (sk_server sk)))"
| "useful Serve sk \<longleftrightarrow> read_frame (st_input (snd (sk_server sk))) \<noteq> None"

definition settled :: "('w, 'h, 'g) stack \<Rightarrow> bool" where
  "settled sk \<longleftrightarrow>
     mx_inbox (main_mux (sk_client sk)) = [] \<and> length (mx_wire (main_mux (sk_client sk))) \<le> sk_up sk
     \<and> read_frame (st_input (snd (sk_server sk))) = None
     \<and> length (st_output (snd (sk_server sk))) \<le> sk_down sk
     \<and> read_frame (mx_recv (main_mux (sk_client sk))) = None"

text \<open>The bytes that have a way to go, weighted with the stations before them; \<open>n\<close> is the length of all responses.\<close>

definition work_left :: "nat \<Rightarrow> ('w, 'h, 'g) stack \<Rightarrow> nat" where
  "work_left n sk =
     (let m = main_mux (sk_client sk) in
      length (mx_inbox m) + 3 * length (concat (mx_inbox m)) + 2 * (length (mx_wire m) - sk_up sk)
      + length (st_input (snd (sk_server sk))) + 2 * (n - sk_down sk) + length (mx_recv m))"

lemma unsettled_useful: "\<not> settled sk \<Longrightarrow> \<exists>op. task_op op \<and> useful op sk"
proof -
  assume "\<not> settled sk"
  then consider "useful (Local (OpWrite 0 True)) sk" | "useful (Up 1) sk" | "useful Serve sk" | "useful (Down 1) sk"
    | "useful (Local (OpRead 0 False)) sk"
    by (auto simp: settled_def)
  then show ?thesis by cases (metis task_op.simps)+
qed

subsection \<open>The server answers\<close>

lemma serve_rest:
  assumes "serve srv fs s0 = Some (rs, s1)" and "serve srv (take m fs) s0 = Some (rs1, s)"
  obtains rs2 where "rs = rs1 @ rs2" and "serve srv (drop m fs) s = Some (rs2, s1)"
proof -
  have "Some (rs, s1) = map_option (\<lambda>(rs', s2). (rs1 @ rs', s2)) (serve srv (drop m fs) s)"
    using assms serve_append [of srv "take m fs" "drop m fs" s0] by simp
  then show ?thesis using that by (cases "serve srv (drop m fs) s") (auto split: prod.splits)
qed


text \<open>
  The invariant: nobody has stopped, all queued frames \<open>fs\<close> are served with the responses \<open>answers\<close>, which
  encode, and the requests \<open>waiting\<close> are pending or resolved.
\<close>

definition served_by ::
  "('w, 'h, 'g, bytes) stream_env \<Rightarrow> ('h, 'g) engine \<Rightarrow> 'w frame list \<Rightarrow> response_frame list \<Rightarrow> bool" where
  "served_by env s0 fs replies \<longleftrightarrow>
     (\<exists>s1. serve (se_server env) fs s0 = Some (replies, s1)) \<and> (\<forall>r \<in> set replies. encodes (se_responses env) r)"

definition working ::
  "('w, 'h, 'g, bytes) stream_env \<Rightarrow> ('h, 'g) engine \<Rightarrow> 'w frame list \<Rightarrow> request_id set \<Rightarrow> ('w, 'h, 'g) stack \<Rightarrow> bool" where
  "working env s0 fs waiting sk \<longleftrightarrow>
     stack_ok env s0 sk \<and> sk_history sk = fs
     \<and> mx_writing (main_mux (sk_client sk)) \<and> mx_reading (main_mux (sk_client sk)) \<and> st_end (snd (sk_server sk)) = None
     \<and> (\<forall>rid \<in> waiting. rid \<in> mx_pending (main_mux (sk_client sk)) \<or> (\<exists>r. cl_outcomes (sk_client sk) rid = Some (Inr r)))"

lemma workingE:
  assumes "working env s0 fs waiting sk"
  obtains mx m rs q s str where "client_side env mx sk" "server_side env s0 mx m rs sk" "way_back env mx rs q sk"
    "main_mux (sk_client sk) = mx" "cl_muxes (sk_client sk) = [mx]" "mx_writing mx" "mx_reading mx"
    "sk_server sk = (s, str)" "st_end str = None"
proof -
  obtain mx m rs q where ok: "client_side env mx sk" "server_side env s0 mx m rs sk" "way_back env mx rs q sk"
    using assms by (auto simp: working_def stack_ok_def)
  then have "cl_muxes (sk_client sk) = [mx]" "main_mux (sk_client sk) = mx" by (simp_all add: client_side_def main_mux_def)
  then show ?thesis using that [OF ok] assms by (cases "sk_server sk") (simp add: working_def)
qed

text \<open>What has been written is a part of all responses.\<close>

lemma output_within:
  assumes "server_side env s0 mx m rs sk" and "served_by env s0 (sk_history sk) replies"
  shows "length (st_output (snd (sk_server sk))) \<le> length (concat (map (frame_bytes (se_responses env)) replies))"
proof -
  obtain s s1 where "serve (se_server env) (take m (sk_history sk)) s0 = Some (rs, s)"
    "serve (se_server env) (sk_history sk) s0 = Some (replies, s1)"
    using assms by (auto simp: server_side_def served_by_def)
  then obtain rs2 where "replies = rs @ rs2" by (metis serve_rest)
  then show ?thesis using assms(1) by (simp add: server_side_def)
qed

subsection \<open>Steps\<close>

lemma write_task:
  assumes "working env s0 fs waiting sk" and ok
  shows "working env s0 fs waiting (stack_step env (Local (OpWrite j ok)) sk)"
    and "useful (Local (OpWrite j ok)) sk \<Longrightarrow> work_left n (stack_step env (Local (OpWrite j ok)) sk) < work_left n sk"
    and "\<not> useful (Local (OpWrite j ok)) sk \<Longrightarrow> stack_step env (Local (OpWrite j ok)) sk = sk"
proof -
  obtain mx m rs q s str where c: "client_side env mx sk" "main_mux (sk_client sk) = mx" "cl_muxes (sk_client sk) = [mx]"
    "mx_writing mx" "mx_reading mx"
    using assms(1) by (rule workingE)
  have up: "sk_up sk \<le> length (mx_wire mx)" using c(1) by (simp add: client_side_def)
  have kept: "stack_ok env s0 (local_step env (OpWrite j ok) sk)" using assms(1) by (intro local_write_ok) (simp add: working_def)
  show idle: "stack_step env (Local (OpWrite j ok)) sk = sk" if "\<not> useful (Local (OpWrite j ok)) sk"
    using that c by (cases "mx_inbox mx") (auto simp: local_step_def writer_step_def upd_mux_def)
  have busy: "stack_step env (Local (OpWrite j ok)) sk =
      sk\<lparr>sk_client := (sk_client sk)\<lparr>cl_muxes := [mx\<lparr>mx_inbox := bs, mx_wire := mx_wire mx @ b\<rparr>]\<rparr>\<rparr>"
    if "j = 0" "mx_inbox mx = b # bs" for b bs
    using that c(3,4) assms(2) by (simp add: local_step_def writer_step_def upd_mux_def)
  show "working env s0 fs waiting (stack_step env (Local (OpWrite j ok)) sk)"
  proof (cases "useful (Local (OpWrite j ok)) sk")
    case True
    then obtain b bs where "j = 0" "mx_inbox mx = b # bs" using c(2) by (auto simp: neq_Nil_conv)
    from busy [OF this] kept show ?thesis using assms(1) c(2-5) by (simp add: working_def main_mux_def)
  qed (use idle assms(1) in simp)
  show "work_left n (stack_step env (Local (OpWrite j ok)) sk) < work_left n sk" if "useful (Local (OpWrite j ok)) sk"
  proof -
    obtain b bs where b: "j = 0" "mx_inbox mx = b # bs" using c(2) \<open>useful _ sk\<close> by (auto simp: neq_Nil_conv)
    show ?thesis using busy [OF b] b(2) c(2) up by (simp add: work_left_def main_mux_def)
  qed
qed

lemma up_task:
  assumes "working env s0 fs waiting sk"
  shows "working env s0 fs waiting (stack_step env (Up k) sk)"
    and "useful (Up k) sk \<Longrightarrow> work_left n (stack_step env (Up k) sk) < work_left n sk"
    and "\<not> useful (Up k) sk \<Longrightarrow> stack_step env (Up k) sk = sk"
proof -
  obtain mx m rs q s str where c: "client_side env mx sk" "main_mux (sk_client sk) = mx" "sk_server sk = (s, str)"
    using assms by (rule workingE)
  have kept: "stack_ok env s0 (arrive_up k sk)" using assms by (intro arrive_up_ok) (simp add: working_def)
  have sk': "arrive_up k sk = sk\<lparr>sk_up := sk_up sk + min k (length (mx_wire mx) - sk_up sk),
      sk_server := (s, str\<lparr>st_input := st_input str @ take k (drop (sk_up sk) (mx_wire mx))\<rparr>)\<rparr>"
    using c(2,3) by (simp add: arrive_up_def Let_def min.commute)
  show "working env s0 fs waiting (stack_step env (Up k) sk)"
    using assms kept c(3) by (simp add: working_def sk')
  show "work_left n (stack_step env (Up k) sk) < work_left n sk" if "useful (Up k) sk"
    using that c(2,3) by (auto simp: work_left_def sk' Let_def min_def)
  have "sk\<lparr>sk_up := sk_up sk, sk_server := (s, str)\<rparr> = sk" using c(3) by (cases sk) simp
  then show "stack_step env (Up k) sk = sk" if "\<not> useful (Up k) sk"
    using that c(2) by (auto simp: sk')
qed

lemma down_task:
  assumes "working env s0 fs waiting sk" and "served_by env s0 fs replies"
    and "n = length (concat (map (frame_bytes (se_responses env)) replies))"
  shows "working env s0 fs waiting (stack_step env (Down k) sk)"
    and "useful (Down k) sk \<Longrightarrow> work_left n (stack_step env (Down k) sk) < work_left n sk"
    and "\<not> useful (Down k) sk \<Longrightarrow> stack_step env (Down k) sk = sk"
proof -
  obtain mx m rs q s str where c: "server_side env s0 mx m rs sk" "main_mux (sk_client sk) = mx" "cl_muxes (sk_client sk) = [mx]"
    using assms(1) by (rule workingE)
  have kept: "stack_ok env s0 (arrive_down env k sk)" using assms by (intro arrive_down_ok) (simp add: working_def)
  let ?out = "st_output (snd (sk_server sk))"
  have sk': "arrive_down env k sk = sk\<lparr>sk_down := sk_down sk + min k (length ?out - sk_down sk),
      sk_client := (sk_client sk)\<lparr>cl_muxes := [mx\<lparr>mx_recv := mx_recv mx @ take k (drop (sk_down sk) ?out)\<rparr>]\<rparr>\<rparr>"
    using c(3) by (simp add: arrive_down_def Let_def min.commute upd_mux_def)
  show "working env s0 fs waiting (stack_step env (Down k) sk)"
    using assms(1) kept c(2) by (simp add: working_def sk' main_mux_def)
  have "sk_history sk = fs" using assms(1) by (simp add: working_def)
  then have "length ?out \<le> n" using output_within [OF c(1)] assms(2,3) by simp
  then show "work_left n (stack_step env (Down k) sk) < work_left n sk" if "useful (Down k) sk"
    using that c(2) by (auto simp: work_left_def sk' main_mux_def min_def)
  have "(sk_client sk)\<lparr>cl_muxes := [mx]\<rparr> = sk_client sk" using c(3) by (cases "sk_client sk") simp
  then have "sk\<lparr>sk_down := sk_down sk, sk_client := (sk_client sk)\<lparr>cl_muxes := [mx]\<rparr>\<rparr> = sk" by (cases sk) simp
  then show "stack_step env (Down k) sk = sk" if "\<not> useful (Down k) sk"
    using that by (auto simp: sk')
qed


lemma serve_task:
  assumes "working env s0 fs waiting sk" and "served_by env s0 fs replies"
    and "bincode_ok (se_frames env)" and "se_writer env = buffer_writer"
  shows "working env s0 fs waiting (stack_step env Serve sk)"
    and "useful Serve sk \<Longrightarrow> work_left n (stack_step env Serve sk) < work_left n sk"
    and "\<not> useful Serve sk \<Longrightarrow> stack_step env Serve sk = sk"
proof -
  obtain mx m rs q s str where c: "client_side env mx sk" "server_side env s0 mx m rs sk" "sk_server sk = (s, str)" "st_end str = None"
    using assms(1) by (rule workingE)
  have fs: "sk_history sk = fs" using assms(1) by (simp add: working_def)
  have kept: "stack_ok env s0 (serve_step env sk)" using assms by (intro serve_step_ok) (simp_all add: working_def)
  show idle: "stack_step env Serve sk = sk" if "\<not> useful Serve sk"
    using that c(3) by (simp add: serve_step_def Let_def)
  have busy: "serve_step env sk = sk\<lparr>sk_server := stream_step env (s, str)\<rparr>
      \<and> st_end (snd (stream_step env (s, str))) = None \<and> length (st_input (snd (stream_step env (s, str)))) < length (st_input str)" if u: "useful Serve sk"
  proof -
    obtain msg rest where msg: "read_frame (st_input str) = Some (msg, rest)" using u c(3) by auto
    note nxt = next_request [OF c(1,2) assms(3) c(3,4) msg]
    obtain s1 where all: "serve (se_server env) fs s0 = Some (replies, s1)" using assms(2) by (auto simp: served_by_def)
    from serve_rest [OF this nxt(4) [unfolded fs]] obtain rs2 where rs2: "replies = rs @ rs2"
      "serve (se_server env) (drop m fs) s = Some (rs2, s1)" by blast
    have "drop m fs = fs ! m # drop (Suc m) fs" using nxt(1) fs by (simp add: Cons_nth_drop_Suc)
    then obtain reply s' where d: "dispatch (se_server env) (fs ! m) s = (Ret reply, s')" "\<forall>r. reply = Some r \<longrightarrow> r \<in> set rs2"
      using rs2(2) by (auto split: prod.splits flow.splits)
    then have "\<forall>r. reply = Some r \<longrightarrow> encode_frame (se_responses env) r = Inr (frame_bytes (se_responses env) r)"
      using assms(2) rs2(1) by (auto simp: served_by_def encodes_def)
    then show ?thesis
      using msg nxt(2) d(1) fs c(3,4) assms(4) read_frame_shorter [OF msg]
      by (cases reply) (auto simp: serve_step_def stream_step_def)
  qed
  show "working env s0 fs waiting (stack_step env Serve sk)"
  proof (cases "useful Serve sk")
    case True
    from busy [OF this] kept show ?thesis using assms(1) c(4) by (auto simp: working_def)
  qed (use idle assms(1) in simp)
  show "work_left n (stack_step env Serve sk) < work_left n sk" if "useful Serve sk"
    using busy [OF that] c(3) by (auto simp: work_left_def Let_def)
qed

lemma read_task:
  assumes "working env s0 fs waiting sk" and "bincode_ok (se_responses env)" and "\<not> eof"
  shows "working env s0 fs waiting (stack_step env (Local (OpRead j eof)) sk)"
    and "useful (Local (OpRead j eof)) sk \<Longrightarrow> work_left n (stack_step env (Local (OpRead j eof)) sk) < work_left n sk"
    and "\<not> useful (Local (OpRead j eof)) sk \<Longrightarrow> stack_step env (Local (OpRead j eof)) sk = sk"
proof -
  obtain mx m rs q s str where c: "server_side env s0 mx m rs sk" "way_back env mx rs q sk"
    "main_mux (sk_client sk) = mx" "cl_muxes (sk_client sk) = [mx]" "mx_writing mx" "mx_reading mx"
    using assms(1) by (rule workingE)
  have kept: "stack_ok env s0 (local_step env (OpRead j eof) sk)" using assms(1,2) by (intro local_read_ok) (simp_all add: working_def)
  show idle: "stack_step env (Local (OpRead j eof)) sk = sk" if "\<not> useful (Local (OpRead j eof)) sk"
    using that c(3,4) assms(3) by (cases "read_frame (mx_recv mx)") (auto simp: local_step_def reader_step_def)
  define resolved where "resolved rf rest = (sk_client sk)\<lparr>
      cl_muxes := [mx\<lparr>mx_recv := rest, mx_pending := mx_pending mx - {rf_request_id rf}\<rparr>],
      cl_outcomes := (if rf_request_id rf \<in> mx_pending mx
        then (cl_outcomes (sk_client sk))(rf_request_id rf \<mapsto> Inr (rf_response rf)) else cl_outcomes (sk_client sk))\<rparr>"
    for rf :: response_frame and rest
  have busy: "\<exists>rf rest. stack_step env (Local (OpRead j eof)) sk = sk\<lparr>sk_client := resolved rf rest\<rparr>
      \<and> length rest < length (mx_recv mx)" if u: "useful (Local (OpRead j eof)) sk"
  proof -
    obtain msg rest where msg: "read_frame (mx_recv mx) = Some (msg, rest)" and j: "j = 0" using u c(3) by auto
    note nxt = next_response [OF c(1,2) assms(2) msg]
    show ?thesis
      using msg nxt(2) j c(4,6) read_frame_shorter [OF msg]
      by (intro exI [of _ "rs ! q"] exI [of _ rest])
        (simp add: local_step_def reader_step_def client_codec_of_def upd_mux_def resolved_def)
  qed
  show "working env s0 fs waiting (stack_step env (Local (OpRead j eof)) sk)"
  proof (cases "useful (Local (OpRead j eof)) sk")
    case True
    from busy [OF this] obtain rf rest where step: "stack_step env (Local (OpRead j eof)) sk = sk\<lparr>sk_client := resolved rf rest\<rparr>"
      by blast
    then have "stack_ok env s0 (stack_step env (Local (OpRead j eof)) sk)" using kept by simp
    then show ?thesis
      using assms(1) c(3,5,6) unfolding working_def step by (auto simp: main_mux_def resolved_def)
  qed (use idle assms(1) in simp)
  show "work_left n (stack_step env (Local (OpRead j eof)) sk) < work_left n sk" if "useful (Local (OpRead j eof)) sk"
    using busy [OF that] c(3) by (auto simp: work_left_def main_mux_def resolved_def)
qed

subsection \<open>Runs\<close>

definition reply_bytes :: "('w, 'h, 'g, bytes) stream_env \<Rightarrow> response_frame list \<Rightarrow> nat" where
  "reply_bytes env replies = length (concat (map (frame_bytes (se_responses env)) replies))"

definition serving :: "('w, 'h, 'g, bytes) stream_env \<Rightarrow> ('h, 'g) engine \<Rightarrow> 'w frame list \<Rightarrow> response_frame list \<Rightarrow> bool" where
  "serving env s0 fs replies \<longleftrightarrow>
     bincode_ok (se_frames env) \<and> bincode_ok (se_responses env) \<and> se_writer env = buffer_writer \<and> served_by env s0 fs replies"

lemma task_step:
  assumes "working env s0 fs waiting sk" and "serving env s0 fs replies" and "task_op op"
  shows "working env s0 fs waiting (stack_step env op sk)"
    and "useful op sk \<Longrightarrow> work_left (reply_bytes env replies) (stack_step env op sk) < work_left (reply_bytes env replies) sk"
    and "\<not> useful op sk \<Longrightarrow> stack_step env op sk = sk"
proof -
  have env: "bincode_ok (se_frames env)" "bincode_ok (se_responses env)" "se_writer env = buffer_writer" "served_by env s0 fs replies"
    using assms(2) by (simp_all add: serving_def)
  show "working env s0 fs waiting (stack_step env op sk)"
    using write_task(1) [OF assms(1)] read_task(1) [OF assms(1) env(2)] up_task(1) [OF assms(1)]
      down_task(1) [OF assms(1) env(4)] serve_task(1) [OF assms(1) env(4,1,3)] assms(3)
    by (cases op rule: task_op.cases) simp_all
  show "stack_step env op sk = sk" if "\<not> useful op sk"
    using that write_task(3) [OF assms(1)] read_task(3) [OF assms(1) env(2)] up_task(3) [OF assms(1)]
      down_task(3) [OF assms(1) env(4) reply_bytes_def] serve_task(3) [OF assms(1) env(4,1,3)] assms(3)
    by (cases op rule: task_op.cases) simp_all
  show "work_left (reply_bytes env replies) (stack_step env op sk) < work_left (reply_bytes env replies) sk" if "useful op sk"
    using that write_task(2) [OF assms(1)] read_task(2) [OF assms(1) env(2)] up_task(2) [OF assms(1)]
      down_task(2) [OF assms(1) env(4) reply_bytes_def] serve_task(2) [OF assms(1) env(4,1,3)] assms(3)
    by (cases op rule: task_op.cases) simp_all
qed

interpretation stack_tasks: settling
  "\<lambda>sk. serving env s0 fs replies \<and> working env s0 fs waiting sk" task_op "stack_step env"
  "work_left (reply_bytes env replies)" settled
  for env s0 fs replies waiting
proof
  fix op :: "'a stack_op" and sk :: "('a, 'b, 'c) stack"
  assume ok: "serving env s0 fs replies \<and> working env s0 fs waiting sk"
  then show "serving env s0 fs replies \<and> working env s0 fs waiting (stack_step env op sk)" if "task_op op"
    using task_step(1) that by blast
  show "work_left (reply_bytes env replies) (stack_step env op sk) < work_left (reply_bytes env replies) sk"
    if "task_op op" "stack_step env op sk \<noteq> sk"
    using task_step(2,3) ok that by blast
  show "\<exists>op. task_op op \<and> stack_step env op sk \<noteq> sk" if "\<not> settled sk"
    using unsettled_useful [OF that] task_step(2) ok by (metis less_irrefl)
qed


subsection \<open>When everything has settled\<close>

lemma settled_answers:
  assumes "working env s0 fs waiting sk" and "serving env s0 fs replies" and "settled sk"
  shows "mx_pending (main_mux (sk_client sk)) = {}"
    and "rid \<in> waiting \<Longrightarrow> \<exists>r. cl_outcomes (sk_client sk) rid = Some (Inr r) \<and> \<lparr>rf_request_id = rid, rf_response = r\<rparr> \<in> set replies"
proof -
  obtain mx m rs q s str where c: "client_side env mx sk" "server_side env s0 mx m rs sk" "way_back env mx rs q sk"
    "main_mux (sk_client sk) = mx" "mx_writing mx" "sk_server sk = (s, str)" "st_end str = None"
    using assms(1) by (rule workingE)
  have fs: "sk_history sk = fs" using assms(1) by (simp add: working_def)
  have all_read: "n = length bs" if "channel bs n buf [] True" "\<forall>b \<in> set bs. framed b" "read_frame buf = None" for bs n buf
  proof (rule ccontr)
    assume "n \<noteq> length bs"
    with that(1) have lt: "n < length bs" and "concat (drop n bs) = buf" by (auto simp: channel_def)
    then have "buf = bs ! n @ concat (drop (Suc n) bs)" by (metis Cons_nth_drop_Suc concat.simps(2))
    then show False using that(2,3) lt by (simp add: read_framed)
  qed
  have "channel (map (frame_bytes (se_frames env)) fs) m (st_input str) [] True"
    using c(2,4-7) assms(3) fs by (auto simp: server_side_def settled_def)
  moreover have "\<forall>b \<in> set (map (frame_bytes (se_frames env)) fs). framed b"
    using c(1) fs by (intro framed_encoded) (simp add: client_side_def)
  ultimately have m: "m = length fs" using all_read assms(3) c(6) by (fastforce simp: settled_def)
  then have "rs = replies" using c(2) assms(2) fs by (auto simp: server_side_def serving_def served_by_def)
  have "channel (map (frame_bytes (se_responses env)) rs) q (mx_recv mx) [] True"
    using c(3,4,6) assms(3) by (simp add: way_back_def settled_def)
  moreover have "\<forall>b \<in> set (map (frame_bytes (se_responses env)) rs). framed b"
    using c(2) by (intro framed_encoded) (simp add: server_side_def)
  ultimately have q: "q = length rs" using all_read assms(3) c(4) by (fastforce simp: settled_def)
  have ids: "map rf_request_id rs = List.map_filter fr_request_id fs"
    using c(2) m fs serve_ids by (auto simp: server_side_def)
  have "rid \<notin> mx_pending mx" for rid
  proof
    assume pending: "rid \<in> mx_pending mx"
    then obtain f where f: "f \<in> set fs" "fr_request_id f = Some rid" using c(1) fs by (force simp: client_side_def)
    then have "f \<in> set (filter (\<lambda>f. fr_request_id f \<noteq> None) fs)" "the (fr_request_id f) = rid" by simp_all
    then have "rid \<in> set (map rf_request_id rs)" unfolding ids List.map_filter_def by (metis comp_apply image_eqI list.set_map)
    then obtain i where "i < length rs" "rf_request_id (rs ! i) = rid" by (auto simp: in_set_conv_nth)
    then show False using c(3) q pending by (auto simp: way_back_def)
  qed
  then show none: "mx_pending (main_mux (sk_client sk)) = {}" using c(4) by blast
  show "\<exists>r. cl_outcomes (sk_client sk) rid = Some (Inr r) \<and> \<lparr>rf_request_id = rid, rf_response = r\<rparr> \<in> set replies"
    if "rid \<in> waiting"
    using that assms(1) none c(3) \<open>rs = replies\<close> by (fastforce simp: working_def way_back_def)
qed


subsection \<open>Requests are answered\<close>

text \<open>C14: liveness of the whole stack. Take any state it reaches, over fewer than \<open>2\<^sup>6\<^sup>4 - 2\<close> steps, in which
  the writer, the reader and the stream task are alive, and let the engine serve what has been queued with
  responses that encode. Then the tasks and the network can bring it to rest; no schedule of them has
  more effective steps than there is work left, so that every schedule comes to rest; and whenever it has
  come to rest, in whatever order they ran, nothing is pending, and every request that was has been
  resolved with the engine's response to it.\<close>

theorem requests_are_answered:
  assumes "bincode_ok (se_frames env)" and "bincode_ok (se_responses env)" and "se_writer env = buffer_writer"
    and "encode_frame (se_frames env) \<lparr>fr_request_id = Some (RequestId 1), fr_action = act\<rparr> = Inr b"
    and "sk = stack_run env ops (opened_stack env act s0)" and "length ops < 2 ^ 64 - 2"
    and "mx_writing (main_mux (sk_client sk))" and "mx_reading (main_mux (sk_client sk))" and "st_end (snd (sk_server sk)) = None"
    and "serve (se_server env) (sk_history sk) s0 = Some (replies, s1)"
    and "\<forall>rf \<in> set replies. \<exists>b. encode_frame (se_responses env) rf = Inr b"
  shows "(\<exists>tasks. list_all task_op tasks \<and> settled (stack_run env tasks sk))
    \<and> (\<forall>tasks. list_all task_op tasks \<and> all_along (\<lambda>op s. stack_step env op s \<noteq> s) (stack_step env) tasks sk \<longrightarrow>
         length tasks \<le> work_left (reply_bytes env replies) sk)
    \<and> (\<forall>tasks. list_all task_op tasks \<and> settled (stack_run env tasks sk) \<longrightarrow>
         mx_pending (main_mux (sk_client (stack_run env tasks sk))) = {}
         \<and> (\<forall>rid \<in> mx_pending (main_mux (sk_client sk)).
              \<exists>r. cl_outcomes (sk_client (stack_run env tasks sk)) rid = Some (Inr r)
                \<and> \<lparr>rf_request_id = rid, rf_response = r\<rparr> \<in> set replies))"
proof -
  let ?waiting = "mx_pending (main_mux (sk_client sk))"
  have "stack_ok env s0 sk" using reached_stack_ok [OF assms(1-4,6)] assms(5) by simp
  then have working: "working env s0 (sk_history sk) ?waiting sk" using assms(7-9) by (simp add: working_def)
  have serving: "serving env s0 (sk_history sk) replies"
    using assms(1-3,10,11) encode_frame_encodes by (fastforce simp: serving_def served_by_def)
  have rest: "serving env s0 (sk_history sk) replies \<and> working env s0 (sk_history sk) ?waiting (stack_run env tasks sk)"
    if "list_all task_op tasks" for tasks
    unfolding stack_run_def by (rule stack_tasks.run_keeps) (use working serving that in simp_all)
  show ?thesis
  proof (intro conjI allI impI)
    show "\<exists>tasks. list_all task_op tasks \<and> settled (stack_run env tasks sk)"
      unfolding stack_run_def by (rule stack_tasks.run_settles) (use working serving in blast)
    show "length tasks \<le> work_left (reply_bytes env replies) sk"
      if "list_all task_op tasks \<and> all_along (\<lambda>op s. stack_step env op s \<noteq> s) (stack_step env) tasks sk" for tasks
      using that working serving by (intro stack_tasks.run_bounded) blast+
  qed (use rest settled_answers in blast)+
qed

lemma demo_stack_alive:
  "mx_writing (main_mux (sk_client (opened_stack demo_env (Hello 1) (demo_engine 0))))"
  "mx_reading (main_mux (sk_client (opened_stack demo_env (Hello 1) (demo_engine 0))))"
  "st_end (snd (sk_server (opened_stack demo_env (Hello 1) (demo_engine 0)))) = None"
  "mx_pending (main_mux (sk_client (opened_stack demo_env (Hello 1) (demo_engine 0)))) = {RequestId 1}"
  "sk_history (opened_stack demo_env (Hello 1) (demo_engine 0)) = [hello_frame]"
  by (simp_all add: demo_stack_opened open_mux_def open_stream_def main_mux_def)

theorem requests_are_answered_witness:
  "mx_pending (main_mux (sk_client (stack_run demo_env demo_ops (opened_stack demo_env (Hello 1) (demo_engine 0))))) = {}
   \<and> (\<exists>r. cl_outcomes (sk_client (stack_run demo_env demo_ops (opened_stack demo_env (Hello 1) (demo_engine 0)))) (RequestId 1)
          = Some (Inr r) \<and> \<lparr>rf_request_id = RequestId 1, rf_response = r\<rparr> \<in> set [ack_frame])"
proof -
  have first: "encode_frame (se_frames demo_env) \<lparr>fr_request_id = Some (RequestId 1), fr_action = Hello 1\<rparr> = Inr [0, 0, 0, 1, 7]"
    using demo_env_simps(3) by (simp add: hello_frame_def)
  have served: "serve (se_server demo_env) (sk_history (opened_stack demo_env (Hello 1) (demo_engine 0))) (demo_engine 0)
      = Some ([ack_frame], demo_engine 0)"
    by (simp add: demo_stack_alive demo_env_simps)
  have start: "opened_stack demo_env (Hello 1) (demo_engine 0) = stack_run demo_env [] (opened_stack demo_env (Hello 1) (demo_engine 0))"
    by (simp add: stack_run_def)
  have few: "length ([] :: nat stack_op list) < 2 ^ 64 - 2" by simp
  have replies: "\<forall>rf \<in> set [ack_frame]. \<exists>b. encode_frame (se_responses demo_env) rf = Inr b" using demo_env_simps(4) by auto
  have rest: "list_all task_op demo_ops \<and> settled (stack_run demo_env demo_ops (opened_stack demo_env (Hello 1) (demo_engine 0)))"
    by (simp add: demo_stack_run) (simp add: demo_ops_def settled_def main_mux_def open_mux_def read_frame_def read_exact_def Let_def)
  note claim = requests_are_answered [OF demo_env_simps(5) demo_env_responses demo_env_simps(2) first start few
    demo_stack_alive(1-3) served replies]
  show ?thesis
    using claim [THEN conjunct2, THEN conjunct2, rule_format, OF rest] demo_stack_alive(4) by simp
qed

end
