(* ===== verification/Interleaving.thy ===== *)
theory Interleaving
  imports Engine_Properties
begin

section \<open>Interleaving inside the handling of an action\<close>

text \<open>
  Tasks of different streams run \<open>Engine::dispatch\<close> (\<open>server/engine.rs\<close>) at the same time on a
  multi-threaded runtime. What keeps them apart is the mutex around the tables, and most handlers take
  it more than once, or call wgpu outside it. Here a handler is a task of sections, each of which runs
  without interruption: a body under the lock, or one call of wgpu outside it (wgpu synchronises its
  own calls). \<open>action_task\<close> cuts every handler of \<open>Engine\<close> at the points where the code holds no lock.

  The theorems: a task that runs alone does what \<open>handle_action\<close> does; and however tasks interleave,
  the tables change as if the actions that succeed had been handled one after the other, in the order
  of their last sections.

  That a call of wgpu under the lock may interleave with one outside it is left out: a section is one
  step of the device too.
\<close>

subsection \<open>Tasks\<close>

datatype ('s, 'e, 'a) task = Finished "('e, 'a) flow" | Section "'s \<Rightarrow> 's \<times> ('s, 'e, 'a) task"

definition atomically :: "('s, 'e, 'b) step \<Rightarrow> ('b \<Rightarrow> ('s, 'e, 'a) task) \<Rightarrow> ('s, 'e, 'a) task" where
  "atomically m k =
     Section (\<lambda>s. case m s of
         (Ret b, s') \<Rightarrow> (s', k b)
       | (Fail e, s') \<Rightarrow> (s', Finished (Fail e))
       | (Panic, s') \<Rightarrow> (s', Finished Panic))"

definition lastly :: "('s, 'e, 'a) step \<Rightarrow> ('s, 'e, 'a) task" where
  "lastly m = atomically m (\<lambda>a. Finished (Ret a))"

text \<open>Running all sections of a task in a row.\<close>

primrec run_alone :: "('s, 'e, 'a) task \<Rightarrow> ('s, 'e, 'a) step" where
  "run_alone (Finished r) = (\<lambda>s. (r, s))"
| "run_alone (Section f) = (\<lambda>s. case map_prod id run_alone (f s) of (s', rest) \<Rightarrow> rest s')"

lemma run_alone_atomically: "run_alone (atomically m k) = andThen m (\<lambda>b. run_alone (k b))"
  by (rule ext) (auto simp: atomically_def andThen_def split: prod.split flow.split)

lemma run_alone_lastly: "run_alone (lastly m) = m"
  by (rule ext) (auto simp: lastly_def run_alone_atomically andThen_def split: prod.split flow.split)

lemma Pair_Ret: "Pair (Ret a) = ret a"
  by (simp add: fun_eq_iff)

lemmas run_alone_simps = run_alone_atomically run_alone_lastly Pair_Ret

subsection \<open>The handlers as tasks\<close>

type_synonym ('h, 'g) handler_task = "(('h, 'g) engine, response, response) task"

definition create_unlocked_task ::
  "('w, 'h, 'g) server \<Rightarrow> ('w, 'h) create_call \<Rightarrow> ('h, 'k) field_update \<Rightarrow> 'k id \<Rightarrow> ('h, 'g) handler_task" where
  "create_unlocked_task srv call upd i =
     atomically (on_gpu (gpu_create (srv_device srv) call)) (\<lambda>h.
     lastly (andThen (store upd i h) (\<lambda>_. ret RespOk)))"

definition create_locked_task ::
  "('w, 'h, 'g) server \<Rightarrow> ('h resource_tables \<Rightarrow> response + ('w, 'h) create_call) \<Rightarrow>
     ('h, 'k) field_update \<Rightarrow> 'k id \<Rightarrow> ('h, 'g) handler_task" where
  "create_locked_task srv resolve upd i =
     atomically (locked (\<lambda>t. andThen (lift_res (resolve t)) (\<lambda>call.
       on_gpu (gpu_create (srv_device srv) call)))) (\<lambda>h.
     lastly (andThen (store upd i h) (\<lambda>_. ret RespOk)))"

definition shader_module_task ::
  "('w, 'h, 'g) server \<Rightarrow> shader_module_id \<Rightarrow> 'w shader_module_descriptor \<Rightarrow> ('h, 'g) handler_task" where
  "shader_module_task srv i desc =
     (case sm_source desc of
        Wgsl src \<Rightarrow> create_unlocked_task srv (MkShaderModule (sm_label desc) src) shader_modules_update i
      | _ \<Rightarrow> Finished (Ret (RespError InvalidArgument ''only WGSL shader sources are supported in v1'')))"

definition write_buffer_task ::
  "('w, 'h, 'g) server \<Rightarrow> buffer_id \<Rightarrow> u64 \<Rightarrow> bytes \<Rightarrow> ('h, 'g) handler_task" where
  "write_buffer_task srv i off data =
     atomically (with_buffer i (\<lambda>b. on_gpu (gpu_exec (srv_device srv) (QueueWriteBuffer b off data)))) (\<lambda>_.
     lastly (andThen (on_gpu (gpu_exec (srv_device srv) (QueueSubmit []))) (\<lambda>_. ret RespOk)))"

definition read_buffer_task ::
  "('w, 'h, 'g) server \<Rightarrow> buffer_id \<Rightarrow> u64 \<Rightarrow> u64 \<Rightarrow> ('h, 'g) handler_task" where
  "read_buffer_task srv i off len =
     atomically (locked (\<lambda>t. lift_res (lookup_in ''BufferId'' (buffers t) i))) (\<lambda>buf.
     atomically (andThen (lift_opt (slice_of (srv_overflow_checks srv) buf off (Some len)))
         (\<lambda>slice. on_gpu (gpu_map_async (srv_device srv) slice))) (\<lambda>map_result.
       case map_result of
         MapOk \<Rightarrow>
           atomically (andThen (lift_opt (slice_of (srv_overflow_checks srv) buf off (Some len)))
               (\<lambda>slice. on_gpu (gpu_mapped_range (srv_device srv) slice))) (\<lambda>view.
           lastly (andThen (on_gpu (gpu_exec (srv_device srv) (UnmapBuffer buf))) (\<lambda>_. ret (BufferData view))))
       | MapErr e \<Rightarrow> Finished (Ret (RespError Internal (''buffer map_async failed: '' @ e)))
       | MapDropped \<Rightarrow> Finished (Ret (RespError Internal ''map callback channel dropped''))))"

definition destroy_task :: "resource_id \<Rightarrow> ('h, 'g) handler_task" where
  "destroy_task r = (case r of RBuffer _ \<Rightarrow> lastly (destroy r) | _ \<Rightarrow> Finished (Ret RespOk))"

fun submit_task :: "('w, 'h, 'g) server \<Rightarrow> bytes list \<Rightarrow> 'h list \<Rightarrow> ('h, 'g) handler_task" where
  "submit_task srv [] command_buffers =
     lastly (andThen (on_gpu (gpu_exec (srv_device srv) (QueueSubmit command_buffers))) (\<lambda>_. ret RespOk))"
| "submit_task srv (payload # recordings) command_buffers =
     (case decode_recording (srv_recordings srv) payload of
        Inl e \<Rightarrow> Finished (Fail (RespError InvalidArgument (''recording decode failed: '' @ e)))
      | Inr recording \<Rightarrow>
          atomically (on_gpu (gpu_create (srv_device srv) (MkCommandEncoder (rec_label recording)))) (\<lambda>encoder.
          atomically (locked (\<lambda>t. on_gpu (for_each (replay_encoder_command srv t encoder) (rec_commands recording)))) (\<lambda>_.
          atomically (on_gpu (gpu_create (srv_device srv) (FinishEncoder encoder))) (\<lambda>cb.
            submit_task srv recordings (command_buffers @ [cb])))))"

fun action_task :: "('w, 'h, 'g) server \<Rightarrow> 'w action \<Rightarrow> ('h, 'g) handler_task" where
  "action_task srv (Hello protocol_version) = Finished (Ret (hello protocol_version))"
| "action_task srv RequestAdapter = Finished (Ret RespOk)"
| "action_task srv (RequestDevice _) = Finished (Ret RespOk)"
| "action_task srv (CreateBuffer i desc) = create_unlocked_task srv (MkBuffer desc) buffers_update i"
| "action_task srv (Destroy r) = destroy_task r"
| "action_task srv (WriteBuffer i off data) = write_buffer_task srv i off data"
| "action_task srv (WriteTexture texture mip_level origin aspect data data_layout extent) =
     lastly (write_texture srv texture mip_level origin aspect data data_layout extent)"
| "action_task srv (MapBufferForRead i off len) = read_buffer_task srv i off len"
| "action_task srv (DeriveRenderPipelineBindGroupLayout pipeline index i) =
     lastly (derive_render_bind_group_layout srv pipeline index i)"
| "action_task srv (DeriveComputePipelineBindGroupLayout pipeline index i) =
     lastly (derive_compute_bind_group_layout srv pipeline index i)"
| "action_task srv (CreateShaderModule i desc) = shader_module_task srv i desc"
| "action_task srv (CreateBindGroupLayout i desc) =
     create_unlocked_task srv (MkBindGroupLayout desc) bind_group_layouts_update i"
| "action_task srv (CreateBindGroup i desc) = create_locked_task srv (bind_group_call desc) bind_groups_update i"
| "action_task srv (CreatePipelineLayout i desc) =
     create_locked_task srv (pipeline_layout_call desc) pipeline_layouts_update i"
| "action_task srv (CreateComputePipeline i desc) =
     create_locked_task srv (compute_pipeline_call desc) compute_pipelines_update i"
| "action_task srv (Submit recordings) = submit_task srv recordings []"
| "action_task srv (CreateTexture i desc) = create_unlocked_task srv (MkTexture desc) textures_update i"
| "action_task srv (CreateTextureView i texture desc) =
     create_locked_task srv (texture_view_call texture desc) texture_views_update i"
| "action_task srv (CreateSampler i desc) = create_unlocked_task srv (MkSampler desc) samplers_update i"
| "action_task srv (CreateRenderPipeline i desc) =
     create_locked_task srv (render_pipeline_call desc) render_pipelines_update i"
| "action_task srv (CreateCommandEncoder _ _) = Finished (Ret RespOk)"

subsection \<open>A task that runs alone\<close>

lemma run_alone_creates:
  "run_alone (create_unlocked_task srv c upd i) = create_unlocked srv c upd i"
  "run_alone (create_locked_task srv resolve upd i) = create_locked srv resolve upd i"
  by (simp_all add: create_unlocked_task_def create_locked_task_def create_unlocked_def create_locked_def run_alone_simps
      del: step_simps)

lemma run_alone_submit:
  "run_alone (submit_task srv recordings cbs) =
     andThen (build_command_buffers srv recordings cbs) (\<lambda>command_buffers.
       andThen (on_gpu (gpu_exec (srv_device srv) (QueueSubmit command_buffers))) (\<lambda>_. ret RespOk))"
proof (induction recordings arbitrary: cbs)
  case Nil
  show ?case by (simp add: run_alone_simps del: step_simps)
next
  case (Cons payload recordings)
  show ?case
  proof (cases "decode_recording (srv_recordings srv) payload")
    case (Inl e)
    then show ?thesis by (auto simp: fun_eq_iff andThen_def fail_def)
  next
    case (Inr recording)
    then show ?thesis
      by (simp add: run_alone_simps replay_recording_def andThen_assoc Cons del: step_simps)
  qed
qed

lemma run_alone_map_result:
  "run_alone (case r of
         MapOk \<Rightarrow>
           atomically (andThen (lift_opt sl) (\<lambda>slice. on_gpu (gpu_mapped_range d slice))) (\<lambda>view.
           lastly (andThen (on_gpu (gpu_exec d (UnmapBuffer buf))) (\<lambda>_. ret (BufferData view))))
       | MapErr e \<Rightarrow> Finished (Ret (RespError Internal (''buffer map_async failed: '' @ e)))
       | MapDropped \<Rightarrow> Finished (Ret (RespError Internal ''map callback channel dropped''))) =
     (case r of
         MapOk \<Rightarrow>
           andThen (lift_opt sl) (\<lambda>slice. andThen (on_gpu (gpu_mapped_range d slice)) (\<lambda>view.
           andThen (on_gpu (gpu_exec d (UnmapBuffer buf))) (\<lambda>_. ret (BufferData view))))
       | MapErr e \<Rightarrow> ret (RespError Internal (''buffer map_async failed: '' @ e))
       | MapDropped \<Rightarrow> ret (RespError Internal ''map callback channel dropped''))"
  by (cases r) (simp_all add: run_alone_simps andThen_assoc fun_eq_iff del: step_simps)

lemma run_alone_read: "run_alone (read_buffer_task srv i off len) = read_buffer srv i off len"
  unfolding read_buffer_task_def read_buffer_def run_alone_simps andThen_assoc run_alone_map_result ..

lemma answer_answer: "answer (answer m) = answer m"
  by (auto simp: fun_eq_iff answer_def split: prod.split flow.split)

lemma run_alone_action: "answer (run_alone (action_task srv act)) = answer (handle_action srv act)"
proof (cases act)
  case (Submit recordings)
  show ?thesis by (simp add: Submit run_alone_submit submit_def answer_answer del: step_simps)
next
  case (Destroy r)
  show ?thesis
    by (cases r) (simp_all add: Destroy destroy_task_def run_alone_simps destroy_def Pair_Ret del: step_simps)
next
  case (CreateShaderModule i desc)
  show ?thesis
    by (cases "sm_source desc")
      (simp_all add: CreateShaderModule shader_module_task_def create_shader_module_def run_alone_creates Pair_Ret del: step_simps)
next
  case (WriteBuffer i off data)
  show ?thesis
    by (simp add: WriteBuffer write_buffer_task_def write_buffer_def run_alone_simps del: step_simps)
qed (simp_all add: create_defs run_alone_creates run_alone_read run_alone_simps del: step_simps)

subsection \<open>What a section does to the tables\<close>

fun granted :: "('s, 'e, response) task \<Rightarrow> bool" where
  "granted (Finished (Ret r)) \<longleftrightarrow> \<not> is_error r"
| "granted _ \<longleftrightarrow> False"

text \<open>
  Every section but the last leaves what the server knows alone, and so does one after which the task is
  refused; the last section of a task that is granted has the effect of its action.
\<close>

inductive sound :: "'w action \<Rightarrow> ('h, 'g) handler_task \<Rightarrow> bool" for act where
  sound_done: "t = Finished out \<Longrightarrow> \<not> granted t \<Longrightarrow> sound act t"
| sound_Section: "(\<And>s s' t. f s = (s', t) \<Longrightarrow>
      known s' = known s \<and> sound act t \<or> granted t \<and> known s' = after act (known s)) \<Longrightarrow> sound act (Section f)"

inductive_cases sound_FinishedE: "sound act (Finished out)"
inductive_cases sound_SectionE: "sound act (Section f)"

lemma sound_refused: "\<not> granted (Finished out :: ('h, 'g) handler_task) \<Longrightarrow> sound act (Finished out :: ('h, 'g) handler_task)"
  by (rule sound_done [OF refl])

abbreviation quiet :: "(('h, 'g) engine, response, 'a) step \<Rightarrow> bool" where
  "quiet m \<equiv> \<forall>t. triple (has_tables t) m (\<lambda>_. has_tables t) (has_tables t) (has_tables t)"

lemma sound_atomically:
  assumes "quiet m" and "\<And>b. sound act (k b)"
  shows "sound act (atomically m k)"
  unfolding atomically_def
proof (rule sound_Section, rule disjI1)
  fix s s' t
  assume run: "(case m s of (Ret b, s') \<Rightarrow> (s', k b) | (Fail e, s') \<Rightarrow> (s', Finished (Fail e))
      | (Panic, s') \<Rightarrow> (s', Finished Panic)) = (s', t)"
  obtain r s'' where m: "m s = (r, s'')" by (rule prod.exhaust)
  have "case r of Ret a \<Rightarrow> has_tables (eng_tables s) s'' | Fail e \<Rightarrow> has_tables (eng_tables s) s'' | Panic \<Rightarrow> has_tables (eng_tables s) s''"
    by (rule tripleD [OF assms(1) [rule_format, of "eng_tables s"] _ m]) (simp add: has_tables_def)
  then show "known s' = known s \<and> sound act t"
    using run m assms(2) by (auto simp: has_tables_def known_def split: flow.splits intro: sound_refused)
qed

lemma sound_lastly:
  fixes m :: "(('h, 'g) engine, response, response) step"
  assumes "\<And>t. effect act t m"
  shows "sound act (lastly m)"
  unfolding lastly_def atomically_def
proof (rule sound_Section)
  fix s s' and t :: "('h, 'g) handler_task"
  assume run: "(case m s of (Ret b, s') \<Rightarrow> (s', Finished (Ret b)) | (Fail e, s') \<Rightarrow> (s', Finished (Fail e))
      | (Panic, s') \<Rightarrow> (s', Finished Panic)) = (s', t)"
  obtain r s'' where m: "m s = (r, s'')" by (rule prod.exhaust)
  have post: "case r of Ret a \<Rightarrow> tables_after act (eng_tables s) a s'' | Fail e \<Rightarrow> has_tables (eng_tables s) s''
      | Panic \<Rightarrow> has_tables (eng_tables s) s''"
    by (rule tripleD [OF assms [of "eng_tables s"] _ m]) (simp add: has_tables_def)
  show "known s' = known s \<and> sound act t \<or> granted t \<and> known s' = after act (known s)"
  proof (cases r)
    case (Ret a)
    then show ?thesis
      using run m post by (cases "is_error a") (auto simp: tables_after_def known_def intro!: sound_refused)
  qed (use run m post in \<open>auto simp: has_tables_def known_def intro: sound_refused\<close>)
qed

lemma quiet_on_gpu: "never_fails m \<Longrightarrow> quiet (on_gpu m)"
  by (simp add: triple_on_gpu)

lemma quiet_resolve: "quiet (locked (\<lambda>t. andThen (lift_res (resolve t)) (\<lambda>call. on_gpu (gpu_create d call))))"
  by (intro allI triple_locked triple_lookup triple_on_gpu never_fails_gpu)

lemma sound_creates:
  assumes "creates act = Some r" and "destroys act = None"
    and "\<And>t x h. knows (insert_in upd i h t) x \<longleftrightarrow> x = r \<or> knows t x"
  shows "sound act (create_unlocked_task srv c upd i)" "sound act (create_locked_task srv resolve upd i)"
  unfolding create_unlocked_task_def create_locked_task_def
  by (intro sound_atomically quiet_on_gpu quiet_resolve never_fails_gpu sound_lastly effect_store_ok [OF assms(1,2)] assms(3))+

lemma effect_no_tables:
  assumes "creates act = None" and "destroys act = None" and "never_fails m"
  shows "effect act t (andThen (on_gpu m) (\<lambda>_. ret a))"
  by (rule triple_andThen [OF triple_on_gpu [OF assms(3)] triple_ret]) (rule tables_after_same [OF assms(1,2)])

lemma sound_submit_task: "sound (Submit rs) (submit_task srv recordings cbs)"
proof (induction recordings arbitrary: cbs)
  case Nil
  show ?case by (simp add: sound_lastly effect_no_tables del: step_simps)
next
  case (Cons payload recordings)
  show ?case
  proof (cases "decode_recording (srv_recordings srv) payload")
    case (Inl e)
    then show ?thesis by (simp add: sound_refused)
  next
    case (Inr recording)
    then show ?thesis
      by (auto intro!: sound_atomically quiet_on_gpu triple_locked_gpu Cons never_fails_gpu)
  qed
qed

lemma sound_read_buffer: "sound (MapBufferForRead i off len) (read_buffer_task srv i off len)"
proof -
  have checked: "quiet (andThen (lift_opt x) (\<lambda>slice. on_gpu (m slice)))" if "\<And>slice. never_fails (m slice)"
    for x and m :: "'b gpu_slice \<Rightarrow> ('c, response, 'd) step"
    using that by (intro allI triple_checked triple_on_gpu)
  show ?thesis
    unfolding read_buffer_task_def
    by (intro sound_atomically allI triple_locked_lookup triple_checked triple_on_gpu never_fails_map)
      (auto split: map_result.split simp del: step_simps
        intro!: sound_atomically triple_checked triple_on_gpu sound_lastly effect_no_tables sound_refused)
qed

lemma action_task_sound:
  "sound act (action_task srv act) \<or> granted (action_task srv act) \<and> (\<forall>K. after act K = K)"
proof (cases act)
  case (Destroy r)
  show ?thesis
    by (cases r) (auto simp: Destroy destroy_task_def after_def simp del: step_simps intro!: disjI1 sound_lastly effect_destroy)
next
  case (CreateShaderModule i desc)
  show ?thesis
    by (cases "sm_source desc")
      (auto simp: CreateShaderModule shader_module_task_def intro!: sound_refused sound_creates)
next
  case (Hello v)
  show ?thesis by (auto simp: Hello hello_def after_def intro: sound_refused)
next
  case (WriteBuffer i off data)
  have "quiet (with_buffer i (\<lambda>b. on_gpu (gpu_exec (srv_device srv) (QueueWriteBuffer b off data))))"
    unfolding with_buffer_def by (intro allI triple_locked triple_lookup triple_on_gpu never_fails_gpu)
  then show ?thesis
    by (auto simp: WriteBuffer write_buffer_task_def simp del: step_simps intro!: sound_atomically sound_lastly effect_no_tables)
qed (auto simp: after_def simp del: step_simps
    intro!: sound_creates sound_lastly sound_submit_task sound_read_buffer effect_write_texture effect_derive
    simp: derive_render_bind_group_layout_def derive_compute_bind_group_layout_def)

subsection \<open>Pools of tasks\<close>

record ('w, 'h, 'g) pool =
  po_engine :: "('h, 'g) engine"
  po_tasks :: "('w action \<times> ('h, 'g) handler_task) list"

text \<open>An action arrives on some stream, or a task that has not finished runs its next section.\<close>

inductive pool_step :: "('w, 'h, 'g) server \<Rightarrow> ('w, 'h, 'g) pool \<Rightarrow> ('w, 'h, 'g) pool \<Rightarrow> bool" for srv where
  arrive: "pool_step srv \<lparr>po_engine = s, po_tasks = ts\<rparr> \<lparr>po_engine = s, po_tasks = ts @ [(act, action_task srv act)]\<rparr>"
| advance: "k < length ts \<Longrightarrow> ts ! k = (act, Section f) \<Longrightarrow> f s = (s', t) \<Longrightarrow>
    pool_step srv \<lparr>po_engine = s, po_tasks = ts\<rparr> \<lparr>po_engine = s', po_tasks = ts[k := (act, t)]\<rparr>"

definition done_by :: "('w action \<times> ('h, 'g) handler_task) list \<Rightarrow> nat set" where
  "done_by ts = {k. k < length ts \<and> granted (snd (ts ! k))}"

definition serial :: "resource_id set \<Rightarrow> ('w, 'h, 'g) pool \<Rightarrow> nat list \<Rightarrow> bool" where
  "serial K p order \<longleftrightarrow> distinct order \<and> set order = done_by (po_tasks p)
     \<and> known (po_engine p) = fold (\<lambda>k. after (fst (po_tasks p ! k))) order K
     \<and> (\<forall>(act, t) \<in> set (po_tasks p). granted t \<or> sound act t)"

lemma fold_actions:
  assumes "\<And>k. k \<in> set order \<Longrightarrow> fst (ts' ! k) = fst (ts ! k)"
  shows "fold (\<lambda>k. after (fst (ts' ! k))) order K = fold (\<lambda>k. after (fst (ts ! k))) order K"
  using assms by (intro fold_cong) simp_all

lemma serial_arrive:
  assumes "serial K \<lparr>po_engine = s, po_tasks = ts\<rparr> order"
  shows "\<exists>order'. serial K \<lparr>po_engine = s, po_tasks = ts @ [(act, action_task srv act)]\<rparr> order'"
proof -
  let ?t = "action_task srv act" and ?ts = "ts @ [(act, action_task srv act)]"
  have old: "set order = done_by ts" "distinct order" "known s = fold (\<lambda>k. after (fst (ts ! k))) order K"
    "\<forall>(act, t) \<in> set ts. granted t \<or> sound act t"
    using assms by (simp_all add: serial_def)
  have below: "k < length ts" if "k \<in> set order" for k using that old(1) by (simp add: done_by_def)
  have new: "length ts \<notin> set order" using below by blast
  have same: "fold (\<lambda>k. after (fst (?ts ! k))) order K = known s"
    using below by (subst fold_actions [of order ?ts ts]) (simp_all add: nth_append old(3))
  have dones: "done_by ?ts = (if granted ?t then insert (length ts) (done_by ts) else done_by ts)"
    by (auto simp: done_by_def nth_append less_Suc_eq)
  show ?thesis
  proof (cases "granted ?t")
    case True
    then have "after act K' = K'" for K'
      using action_task_sound [of act srv] by (auto elim: sound_FinishedE elim!: granted.elims)
    then show ?thesis
      using True old same dones new
      by (intro exI [of _ "order @ [length ts]"]) (auto simp: serial_def)
  next
    case False
    then have "sound act ?t" using action_task_sound [of act srv] by simp
    then show ?thesis
      using False old same dones by (intro exI [of _ order]) (auto simp: serial_def)
  qed
qed

lemma serial_advance:
  assumes "serial K \<lparr>po_engine = s, po_tasks = ts\<rparr> order" and "k < length ts" and "ts ! k = (act, Section f)"
    and "f s = (s', t)"
  shows "\<exists>order'. serial K \<lparr>po_engine = s', po_tasks = ts[k := (act, t)]\<rparr> order'"
proof -
  let ?ts = "ts[k := (act, t)]"
  have old: "set order = done_by ts" "distinct order" "known s = fold (\<lambda>k. after (fst (ts ! k))) order K"
    "\<forall>(act, t) \<in> set ts. granted t \<or> sound act t"
    using assms(1) by (simp_all add: serial_def)
  have fsts: "fst (?ts ! j) = fst (ts ! j)" for j
    using assms(2,3) by (cases "j = k") simp_all
  have same: "fold (\<lambda>k. after (fst (?ts ! k))) order K = known s"
    using fsts by (subst fold_actions [of order ?ts ts]) (simp_all add: old(3))
  have fresh: "k \<notin> done_by ts" using assms(3) by (simp add: done_by_def)
  have dones: "done_by ?ts = (if granted t then insert k (done_by ts) else done_by ts)"
    using fresh assms(2) by (auto simp: done_by_def nth_list_update split: if_splits)
  have "(act, Section f) \<in> set ts" using assms(2,3) by (metis nth_mem)
  then have "sound act (Section f)" using old(4) by auto
  then have "known s' = known s \<and> sound act t \<or> granted t \<and> known s' = after act (known s)"
    using assms(4) by (blast elim: sound_SectionE)
  then show ?thesis
  proof
    assume quiet: "known s' = known s \<and> sound act t"
    then have "\<not> granted t" by (auto elim!: granted.elims elim: sound_FinishedE)
    then show ?thesis
      using quiet old same dones
      by (intro exI [of _ order]) (auto simp: serial_def dest!: set_update_subset_insert [THEN subsetD])
  next
    assume eff: "granted t \<and> known s' = after act (known s)"
    then show ?thesis
      using old same dones fresh assms(2)
      by (intro exI [of _ "order @ [k]"]) (auto simp: serial_def dest!: set_update_subset_insert [THEN subsetD])
  qed
qed

lemma serial_reachable:
  "(pool_step srv)\<^sup>*\<^sup>* p p' \<Longrightarrow> serial K p order \<Longrightarrow> \<exists>order'. serial K p' order'"
proof (induction arbitrary: order rule: converse_rtranclp_induct)
  case (step p q)
  from step.hyps(1) step.prems have "\<exists>order'. serial K q order'"
    by cases (auto intro: serial_arrive serial_advance)
  then show ?case using step.IH by blast
qed blast

text \<open>C17: concurrent actions take effect one after the other. However the tasks that handle actions
  interleave, section by section, from any state of the engine, there is an order of the actions granted
  so far, each once, such that what the server knows is what handling them in that order makes it know;
  actions that are still running, were refused, or panicked have no effect on it.\<close>

theorem interleaved_actions_serialise:
  assumes "(pool_step srv)\<^sup>*\<^sup>* \<lparr>po_engine = s, po_tasks = []\<rparr> p"
  shows "\<exists>order. distinct order \<and> set order = {k. k < length (po_tasks p) \<and> granted (snd (po_tasks p ! k))}
    \<and> known (po_engine p) = fold (\<lambda>k. after (fst (po_tasks p ! k))) order (known s)"
proof -
  have "serial (known s) \<lparr>po_engine = s, po_tasks = []\<rparr> []" by (simp add: serial_def done_by_def)
  from serial_reachable [OF assms this] show ?thesis by (auto simp: serial_def done_by_def)
qed

text \<open>Cutting the handlers into sections changes nothing for a task that runs alone: it gives the
  answer and leaves the engine that \<open>handle\<close> does, on every action, success, error and panic alike.\<close>

theorem sections_alone_are_the_handler:
  "andThen (answer (run_alone (action_task srv act))) (\<lambda>r. ret (Some r)) s = handle srv act s"
  by (simp add: handle_def run_alone_action del: step_simps)

subsection \<open>Witnesses\<close>

text \<open>One step of a pool, by hand.\<close>

definition arrive_at :: "('w, 'h, 'g) server \<Rightarrow> 'w action \<Rightarrow> ('w, 'h, 'g) pool \<Rightarrow> ('w, 'h, 'g) pool" where
  "arrive_at srv act p = p\<lparr>po_tasks := po_tasks p @ [(act, action_task srv act)]\<rparr>"

definition advance_at :: "nat \<Rightarrow> ('w, 'h, 'g) pool \<Rightarrow> ('w, 'h, 'g) pool" where
  "advance_at k p =
     (if k < length (po_tasks p)
      then case po_tasks p ! k of
          (act, Section f) \<Rightarrow> (case f (po_engine p) of (s, t) \<Rightarrow> \<lparr>po_engine = s, po_tasks = (po_tasks p)[k := (act, t)]\<rparr>)
        | _ \<Rightarrow> p
      else p)"

lemma arrive_at_step: "(pool_step srv)\<^sup>*\<^sup>* q p \<Longrightarrow> (pool_step srv)\<^sup>*\<^sup>* q (arrive_at srv act p)"
  using arrive [of srv "po_engine p" "po_tasks p" act] by (cases p) (simp add: arrive_at_def)

lemma advance_at_step:
  assumes "(pool_step srv)\<^sup>*\<^sup>* q p"
  shows "(pool_step srv)\<^sup>*\<^sup>* q (advance_at k p)"
proof (cases "k < length (po_tasks p) \<and> (\<exists>act f. po_tasks p ! k = (act, Section f))")
  case True
  then obtain act f where k: "k < length (po_tasks p)" "po_tasks p ! k = (act, Section f)" by blast
  obtain s t where f: "f (po_engine p) = (s, t)" by (rule prod.exhaust)
  then have "pool_step srv p (advance_at k p)"
    using advance [OF k f, of srv] k f by (cases p) (simp add: advance_at_def)
  then show ?thesis using assms by simp
next
  case False
  then have "advance_at k p = p"
    by (auto simp: advance_at_def split: prod.splits task.splits)
  then show ?thesis using assms by simp
qed

text \<open>A buffer is destroyed between the two sections of its creation: the creation counts as the later.\<close>

theorem interleaved_actions_serialise_witness:
  "\<exists>p order. (pool_step (demo_server good_device False copy_recording))\<^sup>*\<^sup>* \<lparr>po_engine = new_engine 0, po_tasks = []\<rparr> p
     \<and> distinct order \<and> set order = {0, 1} \<and> known (po_engine p) = {RBuffer (Id 1)}
     \<and> known (po_engine p) = fold (\<lambda>k. after (fst (po_tasks p ! k))) order {}"
proof -
  let ?srv = "demo_server good_device False copy_recording" and ?start = "\<lparr>po_engine = new_engine 0, po_tasks = []\<rparr>"
  let ?create = "CreateBuffer (Id 1) demo_buffer" and ?destroy = "Destroy (RBuffer (Id 1))"
  define p where "p = advance_at 0 (advance_at 1 (advance_at 0 (arrive_at ?srv ?destroy (arrive_at ?srv ?create ?start))))"
  have run: "(pool_step ?srv)\<^sup>*\<^sup>* ?start p"
    unfolding p_def by (intro advance_at_step arrive_at_step) simp
  have tasks: "length (po_tasks p) = 2" "granted (snd (po_tasks p ! 0))" "granted (snd (po_tasks p ! 1))"
    and known: "eng_tables (po_engine p) = insert_in buffers_update (Id 1) 0 empty_tables"
    by (simp_all add: p_def arrive_at_def advance_at_def create_unlocked_task_def destroy_task_def destroy_def lastly_def
        atomically_def demo_server_def good_device_def on_gpu_def gpu_create_def lift_opt_def store_def locked_def andThen_def
        new_engine_def empty_tables_def insert_in_def remove_in_def counting_device_def)
  have dones: "{k. k < length (po_tasks p) \<and> granted (snd (po_tasks p ! k))} = {0, 1}"
    using tasks by (auto simp: less_2_cases_iff)
  have "known (new_engine 0 :: (nat, nat) engine) = {}" by (auto simp: known_def new_engine_def)
  with interleaved_actions_serialise [OF run] dones obtain order where "distinct order" "set order = {0, 1}"
    "known (po_engine p) = fold (\<lambda>k. after (fst (po_tasks p ! k))) order {}" by auto
  moreover have "known (po_engine p) = {RBuffer (Id 1)}" by (auto simp: known_def known)
  ultimately show ?thesis using run by blast
qed

end
