(* ===== verification/Handles.thy ===== *)
theory Handles
  imports Mux
begin

section \<open>Resource handles\<close>

text \<open>
  \<open>client/resources.rs\<close>. A handle is an \<open>Arc\<close> of an inner struct: the shared inner structs are
  cells of a store, with their strong counts, and a handle is the address of its cell together with
  the fields it reads through it, which never change. Cloning a handle counts its cell up, dropping
  one counts it down, and the last drop runs the inner struct's \<open>Drop\<close>, which sends a
  \<open>Destroy\<close>. Handles that make children share their device's \<open>IdMinter\<close>; they hold its
  address in the list of minters.

  The low-level client is reached through \<open>link\<close>, whose state is the type parameter \<open>'c\<close>:
  \<open>Client::send\<close>, \<open>Client::request\<close> run to its end, the serializer of recordings, whether the
  build checks overflow, and the \<open>Debug\<close> text of a byte buffer. Dropping the last handle of the
  client itself closes the connection; that is not modelled.
\<close>

subsection \<open>State\<close>

record ('w, 'c) link =
  lk_send :: "'w action \<Rightarrow> 'c \<Rightarrow> 'c"
  lk_request :: "'w action \<Rightarrow> 'c \<Rightarrow> (client_error + response) \<times> 'c"
  lk_recordings :: "'w recording bincode"
  lk_overflow_checks :: bool
  lk_debug_bytes :: "bytes \<Rightarrow> string"

record cell =
  cell_resource :: resource_id
  cell_count :: nat

record 'c facade =
  fa_client :: 'c
  fa_minters :: "id_minter list"
  fa_cells :: "cell list"

record 'k handle =
  hd_cell :: nat
  hd_id :: "'k id"

record buffer = "buffer_kind handle" +
  buf_size :: u64

record 'k minting = "'k handle" +
  hd_minter :: nat

type_synonym shader_module = "shader_module_kind handle"
type_synonym bind_group_layout = "bind_group_layout_kind handle"
type_synonym bind_group = "bind_group_kind handle"
type_synonym pipeline_layout = "pipeline_layout_kind handle"
type_synonym sampler = "sampler_kind handle"
type_synonym texture_view = "texture_view_kind handle"
type_synonym render_pipeline = "render_pipeline_kind minting"
type_synonym compute_pipeline = "compute_pipeline_kind minting"
type_synonym texture = "texture_kind minting"

subsection \<open>Sending and minting\<close>

definition send_on :: "('w, 'c) link \<Rightarrow> 'w action \<Rightarrow> 'c facade \<Rightarrow> 'c facade" where
  "send_on lk act st = st\<lparr>fa_client := lk_send lk act (fa_client st)\<rparr>"

text \<open>\<open>client.request(..).await?\<close>\<close>

definition request_on :: "('w, 'c) link \<Rightarrow> 'w action \<Rightarrow> ('c facade, client_error, response) step" where
  "request_on lk act st =
     (case lk_request lk act (fa_client st) of
        (Inl e, c) \<Rightarrow> (Fail e, st\<lparr>fa_client := c\<rparr>)
      | (Inr r, c) \<Rightarrow> (Ret r, st\<lparr>fa_client := c\<rparr>))"

definition mint_with :: "nat \<Rightarrow> (id_minter \<Rightarrow> 'i \<times> id_minter) \<Rightarrow> 'c facade \<Rightarrow> 'i \<times> 'c facade" where
  "mint_with j mint st =
     (case mint (fa_minters st ! j) of (i, m) \<Rightarrow> (i, st\<lparr>fa_minters := (fa_minters st)[j := m]\<rparr>))"

subsection \<open>The cells\<close>

text \<open>\<open>Arc::new(Inner { id, .. })\<close>, \<open>Arc::clone\<close>, and the drop of an \<open>Arc\<close>.\<close>

definition new_cell :: "resource_id \<Rightarrow> 'c facade \<Rightarrow> nat \<times> 'c facade" where
  "new_cell r st = (length (fa_cells st), st\<lparr>fa_cells := fa_cells st @ [\<lparr>cell_resource = r, cell_count = 1\<rparr>]\<rparr>)"

definition clone_cell :: "nat \<Rightarrow> 'c facade \<Rightarrow> 'c facade" where
  "clone_cell a st = st\<lparr>fa_cells := (fa_cells st)[a := (fa_cells st ! a)\<lparr>cell_count := cell_count (fa_cells st ! a) + 1\<rparr>]\<rparr>"

definition spawn_destroy :: "('w, 'c) link \<Rightarrow> resource_id \<Rightarrow> 'c facade \<Rightarrow> 'c facade" where
  "spawn_destroy lk r = send_on lk (Destroy r)"

definition drop_cell :: "('w, 'c) link \<Rightarrow> nat \<Rightarrow> 'c facade \<Rightarrow> 'c facade" where
  "drop_cell lk a st =
     (let c = fa_cells st ! a;
          st = st\<lparr>fa_cells := (fa_cells st)[a := c\<lparr>cell_count := cell_count c - 1\<rparr>]\<rparr>
      in if cell_count c = 1 then spawn_destroy lk (cell_resource c) st else st)"

subsection \<open>Handles\<close>

definition new_handle :: "('k id \<Rightarrow> resource_id) \<Rightarrow> 'k id \<Rightarrow> 'c facade \<Rightarrow> 'k handle \<times> 'c facade" where
  "new_handle wrap i st = (case new_cell (wrap i) st of (a, st) \<Rightarrow> (\<lparr>hd_cell = a, hd_id = i\<rparr>, st))"

definition new_buffer :: "buffer_id \<Rightarrow> u64 \<Rightarrow> 'c facade \<Rightarrow> buffer \<times> 'c facade" where
  "new_buffer i sz st =
     (case new_cell (RBuffer i) st of (a, st) \<Rightarrow> (\<lparr>hd_cell = a, hd_id = i, buf_size = sz\<rparr>, st))"

definition new_minting :: "('k id \<Rightarrow> resource_id) \<Rightarrow> 'k id \<Rightarrow> nat \<Rightarrow> 'c facade \<Rightarrow> 'k minting \<times> 'c facade" where
  "new_minting wrap i j st =
     (case new_cell (wrap i) st of (a, st) \<Rightarrow> (\<lparr>hd_cell = a, hd_id = i, hd_minter = j\<rparr>, st))"

definition clone_handle :: "('k, 'z) handle_scheme \<Rightarrow> 'c facade \<Rightarrow> ('k, 'z) handle_scheme \<times> 'c facade" where
  "clone_handle h st = (h, clone_cell (hd_cell h) st)"

definition drop_handle :: "('w, 'c) link \<Rightarrow> ('k, 'z) handle_scheme \<Rightarrow> 'c facade \<Rightarrow> 'c facade" where
  "drop_handle lk h = drop_cell lk (hd_cell h)"

subsection \<open>Ranges\<close>

text \<open>\<open>std::ops::Bound\<close> and the two bounds of a \<open>RangeBounds<u64>\<close>.\<close>

datatype bound = Included u64 | Excluded u64 | Unbounded

definition bounds_to_offset_size :: "bool \<Rightarrow> bound \<times> bound \<Rightarrow> u64 \<Rightarrow> (u64 \<times> u64) option" where
  "bounds_to_offset_size oc rng whole =
     (case (case fst rng of
              Included n \<Rightarrow> Some n
            | Excluded n \<Rightarrow> add_u64 oc n 1
            | Unbounded \<Rightarrow> Some 0) of
        None \<Rightarrow> None
      | Some start \<Rightarrow>
          (case (case snd rng of
                   Included n \<Rightarrow> add_u64 oc n 1
                 | Excluded n \<Rightarrow> Some n
                 | Unbounded \<Rightarrow> Some whole) of
             None \<Rightarrow> None
           | Some stop \<Rightarrow> Some (start, saturating_sub_u64 stop start)))"

subsection \<open>Buffer\<close>

text \<open>The derived \<open>Debug\<close> text of a response that is not an \<open>Error\<close>.\<close>

fun debug_response :: "('w, 'c) link \<Rightarrow> response \<Rightarrow> string" where
  "debug_response lk (HelloAck v) = ''HelloAck { protocol_version: '' @ show_u32 v @ '' }''"
| "debug_response lk RespOk = ''Ok''"
| "debug_response lk (BufferData b) = ''BufferData { data: '' @ lk_debug_bytes lk b @ '' }''"
| "debug_response lk (SubmissionComplete n) = ''SubmissionComplete { fence_value: '' @ show_u64 n @ '' }''"
| "debug_response lk (RespError code msg) = ''Error''"

definition unexpected :: "('w, 'c) link \<Rightarrow> string \<Rightarrow> response \<Rightarrow> client_error" where
  "unexpected lk want got = ServerError Internal (''expected '' @ want @ '', got '' @ debug_response lk got)"

definition read_range :: "('w, 'c) link \<Rightarrow> buffer \<Rightarrow> bound \<times> bound \<Rightarrow> ('c facade, client_error, bytes) step" where
  "read_range lk b rng =
     andThen (lift_opt (bounds_to_offset_size (lk_overflow_checks lk) rng (buf_size b))) (\<lambda>(off, len).
     andThen (request_on lk (MapBufferForRead (hd_id b) off len)) (\<lambda>resp.
       case resp of
         BufferData d \<Rightarrow> ret d
       | RespError code msg \<Rightarrow> fail (ServerError code msg)
       | other \<Rightarrow> fail (unexpected lk ''BufferData'' other)))"

definition read_all :: "('w, 'c) link \<Rightarrow> buffer \<Rightarrow> ('c facade, client_error, bytes) step" where
  "read_all lk b = read_range lk b (Unbounded, Unbounded)"

definition write_range :: "('w, 'c) link \<Rightarrow> buffer \<Rightarrow> u64 \<Rightarrow> bytes \<Rightarrow> 'c facade \<Rightarrow> 'c facade" where
  "write_range lk b off data = send_on lk (WriteBuffer (hd_id b) off data)"

subsection \<open>Handles that make children\<close>

definition render_bind_group_layout ::
  "('w, 'c) link \<Rightarrow> render_pipeline \<Rightarrow> u32 \<Rightarrow> 'c facade \<Rightarrow> bind_group_layout \<times> 'c facade" where
  "render_bind_group_layout lk p index st =
     (case mint_with (hd_minter p) mint_bind_group_layout st of (i, st) \<Rightarrow>
        new_handle RBindGroupLayout i (send_on lk (DeriveRenderPipelineBindGroupLayout (hd_id p) index i) st))"

definition compute_bind_group_layout ::
  "('w, 'c) link \<Rightarrow> compute_pipeline \<Rightarrow> u32 \<Rightarrow> 'c facade \<Rightarrow> bind_group_layout \<times> 'c facade" where
  "compute_bind_group_layout lk p index st =
     (case mint_with (hd_minter p) mint_bind_group_layout st of (i, st) \<Rightarrow>
        new_handle RBindGroupLayout i (send_on lk (DeriveComputePipelineBindGroupLayout (hd_id p) index i) st))"

definition create_view ::
  "('w, 'c) link \<Rightarrow> texture \<Rightarrow> 'w texture_view_descriptor \<Rightarrow> 'c facade \<Rightarrow> texture_view \<times> 'c facade" where
  "create_view lk tex desc st =
     (case mint_with (hd_minter tex) mint_texture_view st of (i, st) \<Rightarrow>
        new_handle RTextureView i (send_on lk (CreateTextureView i (hd_id tex) desc) st))"

subsection \<open>The range arithmetic\<close>

text \<open>The positions a range covers in a buffer of a given size, and whether its bounds can be computed.\<close>

fun above :: "bound \<Rightarrow> nat \<Rightarrow> bool" where
  "above (Included n) k \<longleftrightarrow> unat n \<le> k"
| "above (Excluded n) k \<longleftrightarrow> unat n < k"
| "above Unbounded k \<longleftrightarrow> True"

fun below :: "bound \<Rightarrow> nat \<Rightarrow> nat \<Rightarrow> bool" where
  "below (Included n) whole k \<longleftrightarrow> k \<le> unat n"
| "below (Excluded n) whole k \<longleftrightarrow> k < unat n"
| "below Unbounded whole k \<longleftrightarrow> k < whole"

definition in_u64 :: "bound \<times> bound \<Rightarrow> bool" where
  "in_u64 rng \<longleftrightarrow> fst rng \<noteq> Excluded (- 1) \<and> snd rng \<noteq> Included (- 1)"

lemma unat_less_max: "(n :: u64) \<noteq> - 1 \<Longrightarrow> unat n + 1 < 2 ^ 64"
proof -
  assume "n \<noteq> - 1"
  then have "n + 1 \<noteq> 0"
    by (metis add_eq_0_iff2)
  then have "unat (n + 1) = Suc (unat n)"
    by (simp add: unatSuc add.commute)
  then show ?thesis
    using unsigned_less [of "n + 1", where ?'a = nat] by simp
qed

lemma add_one_u64:
  "(n :: u64) \<noteq> - 1 \<Longrightarrow> add_u64 oc n 1 = Some (n + 1)" "(n :: u64) \<noteq> - 1 \<Longrightarrow> unat (n + 1) = unat n + 1"
  using unat_less_max [of n] by (simp_all add: unat_word_ariths)

lemma bounds_covered:
  assumes "in_u64 rng" and "bounds_to_offset_size oc rng whole = Some (off, len)"
  shows "{unat off ..< unat off + unat len} = {k. above (fst rng) k \<and> below (snd rng) (unat whole) k}"
  using assms
  by (cases "fst rng"; cases "snd rng")
    (auto simp: bounds_to_offset_size_def in_u64_def add_one_u64 unat_saturating_sub_u64)

end
