(* ===== verification/Recorder.thy ===== *)
theory Recorder
  imports Handles
begin

section \<open>Recording command buffers\<close>

text \<open>
  \<open>client/encoder.rs\<close>. An encoder owns the list of commands recorded so far. A pass borrows the
  encoder mutably and has a list of its own; dropping it, which \<open>end\<close> does by taking it, pushes
  one \<open>Begin*Pass\<close> command with the list. In the model a pass holds its encoder, and its drop gives
  the encoder back. Recording only reads the ids of the handles it is given: a recording does not
  keep them alive.
\<close>

subsection \<open>CommandEncoder\<close>

record 'w command_encoder =
  enc_label :: "string option"
  enc_commands :: "'w encoder_command list"

definition new_encoder :: "string option \<Rightarrow> 'w command_encoder" where
  "new_encoder label = \<lparr>enc_label = label, enc_commands = []\<rparr>"

definition push_command :: "'w encoder_command \<Rightarrow> 'w command_encoder \<Rightarrow> 'w command_encoder" where
  "push_command c enc = enc\<lparr>enc_commands := enc_commands enc @ [c]\<rparr>"

definition copy_buffer_to_buffer ::
  "buffer \<Rightarrow> u64 \<Rightarrow> buffer \<Rightarrow> u64 \<Rightarrow> u64 \<Rightarrow> 'w command_encoder \<Rightarrow> 'w command_encoder" where
  "copy_buffer_to_buffer source source_off dest dest_off len =
     push_command (CopyBufferToBuffer (hd_id source) source_off (hd_id dest) dest_off len)"

definition clear_buffer :: "buffer \<Rightarrow> u64 \<Rightarrow> u64 option \<Rightarrow> 'w command_encoder \<Rightarrow> 'w command_encoder" where
  "clear_buffer buf off len = push_command (ClearBuffer (hd_id buf) off len)"

definition copy_texture_to_buffer ::
  "texture \<Rightarrow> u32 \<Rightarrow> 'w \<Rightarrow> 'w \<Rightarrow> buffer \<Rightarrow> 'w \<Rightarrow> 'w \<Rightarrow> 'w command_encoder \<Rightarrow> 'w command_encoder" where
  "copy_texture_to_buffer source mip org aspect dest layout copy_size =
     push_command (CopyTextureToBuffer
       \<lparr>ict_texture = hd_id source, ict_mip_level = mip, ict_origin = org, ict_aspect = aspect\<rparr>
       \<lparr>icb_buffer = hd_id dest, icb_layout = layout\<rparr> copy_size)"

text \<open>\<open>finish\<close>, and \<open>CommandBuffer::from_recording\<close> and \<open>into_recording\<close>.\<close>

record 'w command_buffer =
  cb_recording :: "'w recording"

definition finish :: "'w command_encoder \<Rightarrow> 'w command_buffer" where
  "finish enc = \<lparr>cb_recording = \<lparr>rec_label = enc_label enc, rec_commands = enc_commands enc\<rparr>\<rparr>"

definition from_recording :: "'w recording \<Rightarrow> 'w command_buffer" where
  "from_recording r = \<lparr>cb_recording = r\<rparr>"

definition into_recording :: "'w command_buffer \<Rightarrow> 'w recording" where
  "into_recording cb = cb_recording cb"

subsection \<open>ComputePass\<close>

record 'w compute_pass =
  cps_encoder :: "'w command_encoder"
  cps_label :: "string option"
  cps_commands :: "compute_command list"

definition begin_compute_pass :: "string option \<Rightarrow> 'w command_encoder \<Rightarrow> 'w compute_pass" where
  "begin_compute_pass label enc = \<lparr>cps_encoder = enc, cps_label = label, cps_commands = []\<rparr>"

definition push_compute :: "compute_command \<Rightarrow> 'w compute_pass \<Rightarrow> 'w compute_pass" where
  "push_compute c p = p\<lparr>cps_commands := cps_commands p @ [c]\<rparr>"

definition compute_set_pipeline :: "compute_pipeline \<Rightarrow> 'w compute_pass \<Rightarrow> 'w compute_pass" where
  "compute_set_pipeline pipeline = push_compute (CSetPipeline (hd_id pipeline))"

definition compute_set_bind_group :: "u32 \<Rightarrow> bind_group \<Rightarrow> u32 list \<Rightarrow> 'w compute_pass \<Rightarrow> 'w compute_pass" where
  "compute_set_bind_group index grp offsets = push_compute (CSetBindGroup index (hd_id grp) offsets)"

definition dispatch_workgroups :: "u32 \<Rightarrow> u32 \<Rightarrow> u32 \<Rightarrow> 'w compute_pass \<Rightarrow> 'w compute_pass" where
  "dispatch_workgroups x y z = push_compute (CDispatchWorkgroups x y z)"

definition drop_compute_pass :: "'w compute_pass \<Rightarrow> 'w command_encoder" where
  "drop_compute_pass p = push_command (BeginComputePass (cps_label p) (cps_commands p)) (cps_encoder p)"

subsection \<open>RenderPass\<close>

record 'w color_attachment_handles =
  cah_view :: texture_view
  cah_depth_slice :: "u32 option"
  cah_resolve_target :: "texture_view option"
  cah_ops :: 'w

record 'w depth_attachment_handles =
  dah_view :: texture_view
  dah_depth_ops :: "'w option"
  dah_stencil_ops :: "'w option"

record 'w render_pass_descriptor =
  rpd_label :: "string option"
  rpd_color_attachments :: "'w color_attachment_handles option list"
  rpd_depth_stencil_attachment :: "'w depth_attachment_handles option"

record 'w render_pass =
  rps_encoder :: "'w command_encoder"
  rps_label :: "string option"
  rps_color_attachments :: "'w color_attachment option list"
  rps_depth_stencil_attachment :: "'w depth_stencil_attachment option"
  rps_commands :: "'w render_command list"

definition color_attachment_ids :: "'w color_attachment_handles \<Rightarrow> 'w color_attachment" where
  "color_attachment_ids att =
     \<lparr>ca_view = hd_id (cah_view att), ca_depth_slice = cah_depth_slice att,
      ca_resolve_target = map_option hd_id (cah_resolve_target att), ca_ops = cah_ops att\<rparr>"

definition depth_attachment_ids :: "'w depth_attachment_handles \<Rightarrow> 'w depth_stencil_attachment" where
  "depth_attachment_ids att =
     \<lparr>da_view = hd_id (dah_view att), da_depth_ops = dah_depth_ops att, da_stencil_ops = dah_stencil_ops att\<rparr>"

definition begin_render_pass :: "'w render_pass_descriptor \<Rightarrow> 'w command_encoder \<Rightarrow> 'w render_pass" where
  "begin_render_pass desc enc =
     \<lparr>rps_encoder = enc, rps_label = rpd_label desc,
      rps_color_attachments = map (map_option color_attachment_ids) (rpd_color_attachments desc),
      rps_depth_stencil_attachment = map_option depth_attachment_ids (rpd_depth_stencil_attachment desc),
      rps_commands = []\<rparr>"

definition push_render :: "'w render_command \<Rightarrow> 'w render_pass \<Rightarrow> 'w render_pass" where
  "push_render c p = p\<lparr>rps_commands := rps_commands p @ [c]\<rparr>"

definition render_set_pipeline :: "render_pipeline \<Rightarrow> 'w render_pass \<Rightarrow> 'w render_pass" where
  "render_set_pipeline pipeline = push_render (RSetPipeline (hd_id pipeline))"

definition render_set_bind_group :: "u32 \<Rightarrow> bind_group \<Rightarrow> u32 list \<Rightarrow> 'w render_pass \<Rightarrow> 'w render_pass" where
  "render_set_bind_group index grp offsets = push_render (RSetBindGroup index (hd_id grp) offsets)"

definition set_vertex_buffer :: "u32 \<Rightarrow> buffer \<Rightarrow> u64 \<Rightarrow> u64 option \<Rightarrow> 'w render_pass \<Rightarrow> 'w render_pass" where
  "set_vertex_buffer slot buf off len = push_render (RSetVertexBuffer slot (hd_id buf) off len)"

definition set_index_buffer :: "buffer \<Rightarrow> 'w \<Rightarrow> u64 \<Rightarrow> u64 option \<Rightarrow> 'w render_pass \<Rightarrow> 'w render_pass" where
  "set_index_buffer buf format off len = push_render (RSetIndexBuffer (hd_id buf) format off len)"

definition draw :: "u32 \<times> u32 \<Rightarrow> u32 \<times> u32 \<Rightarrow> 'w render_pass \<Rightarrow> 'w render_pass" where
  "draw vertices instances = push_render (RDraw vertices instances)"

definition draw_indexed :: "u32 \<times> u32 \<Rightarrow> u32 \<Rightarrow> u32 \<times> u32 \<Rightarrow> 'w render_pass \<Rightarrow> 'w render_pass" where
  "draw_indexed indices base_vertex instances = push_render (RDrawIndexed indices base_vertex instances)"

definition drop_render_pass :: "'w render_pass \<Rightarrow> 'w command_encoder" where
  "drop_render_pass p =
     push_command (BeginRenderPass (rps_label p) (rps_color_attachments p) (rps_depth_stencil_attachment p)
       (rps_commands p)) (rps_encoder p)"

subsection \<open>Scripts\<close>

text \<open>
  A use of an encoder, as its callers write it: calls on the encoder, and passes, each a list of
  calls between its opening and its drop.
\<close>

datatype compute_call =
    UsePipeline compute_pipeline
  | UseBindGroup u32 bind_group "u32 list"
  | Dispatch u32 u32 u32

datatype 'w render_call =
    UseRenderPipeline render_pipeline
  | UseRenderBindGroup u32 bind_group "u32 list"
  | UseVertexBuffer u32 buffer u64 "u64 option"
  | UseIndexBuffer buffer 'w u64 "u64 option"
  | DrawCall "u32 \<times> u32" "u32 \<times> u32"
  | DrawIndexedCall "u32 \<times> u32" u32 "u32 \<times> u32"

datatype 'w encoder_call =
    CopyBuffers buffer u64 buffer u64 u64
  | Clear buffer u64 "u64 option"
  | ReadTexture texture u32 'w 'w buffer 'w 'w
  | ComputePassOf "string option" "compute_call list"
  | RenderPassOf "'w render_pass_descriptor" "'w render_call list"

fun on_compute_pass :: "compute_call \<Rightarrow> 'w compute_pass \<Rightarrow> 'w compute_pass" where
  "on_compute_pass (UsePipeline p) = compute_set_pipeline p"
| "on_compute_pass (UseBindGroup index grp offsets) = compute_set_bind_group index grp offsets"
| "on_compute_pass (Dispatch x y z) = dispatch_workgroups x y z"

fun on_render_pass :: "'w render_call \<Rightarrow> 'w render_pass \<Rightarrow> 'w render_pass" where
  "on_render_pass (UseRenderPipeline p) = render_set_pipeline p"
| "on_render_pass (UseRenderBindGroup index grp offsets) = render_set_bind_group index grp offsets"
| "on_render_pass (UseVertexBuffer slot buf off len) = set_vertex_buffer slot buf off len"
| "on_render_pass (UseIndexBuffer buf format off len) = set_index_buffer buf format off len"
| "on_render_pass (DrawCall vertices instances) = draw vertices instances"
| "on_render_pass (DrawIndexedCall indices base instances) = draw_indexed indices base instances"

fun on_encoder :: "'w encoder_call \<Rightarrow> 'w command_encoder \<Rightarrow> 'w command_encoder" where
  "on_encoder (CopyBuffers source source_off dest dest_off len) = copy_buffer_to_buffer source source_off dest dest_off len"
| "on_encoder (Clear buf off len) = clear_buffer buf off len"
| "on_encoder (ReadTexture source mip org aspect dest layout copy_size) =
     copy_texture_to_buffer source mip org aspect dest layout copy_size"
| "on_encoder (ComputePassOf label calls) =
     (\<lambda>enc. drop_compute_pass (fold on_compute_pass calls (begin_compute_pass label enc)))"
| "on_encoder (RenderPassOf desc calls) =
     (\<lambda>enc. drop_render_pass (fold on_render_pass calls (begin_render_pass desc enc)))"

definition record_script :: "string option \<Rightarrow> 'w encoder_call list \<Rightarrow> 'w command_buffer" where
  "record_script label script = finish (fold on_encoder script (new_encoder label))"

text \<open>What a script means: one command per call, with ids in place of handles.\<close>

fun compute_command_of :: "compute_call \<Rightarrow> compute_command" where
  "compute_command_of (UsePipeline p) = CSetPipeline (hd_id p)"
| "compute_command_of (UseBindGroup index grp offsets) = CSetBindGroup index (hd_id grp) offsets"
| "compute_command_of (Dispatch x y z) = CDispatchWorkgroups x y z"

fun render_command_of :: "'w render_call \<Rightarrow> 'w render_command" where
  "render_command_of (UseRenderPipeline p) = RSetPipeline (hd_id p)"
| "render_command_of (UseRenderBindGroup index grp offsets) = RSetBindGroup index (hd_id grp) offsets"
| "render_command_of (UseVertexBuffer slot buf off len) = RSetVertexBuffer slot (hd_id buf) off len"
| "render_command_of (UseIndexBuffer buf format off len) = RSetIndexBuffer (hd_id buf) format off len"
| "render_command_of (DrawCall vertices instances) = RDraw vertices instances"
| "render_command_of (DrawIndexedCall indices base instances) = RDrawIndexed indices base instances"

fun encoder_command_of :: "'w encoder_call \<Rightarrow> 'w encoder_command" where
  "encoder_command_of (CopyBuffers source source_off dest dest_off len) =
     CopyBufferToBuffer (hd_id source) source_off (hd_id dest) dest_off len"
| "encoder_command_of (Clear buf off len) = ClearBuffer (hd_id buf) off len"
| "encoder_command_of (ReadTexture source mip org aspect dest layout copy_size) =
     CopyTextureToBuffer
       \<lparr>ict_texture = hd_id source, ict_mip_level = mip, ict_origin = org, ict_aspect = aspect\<rparr>
       \<lparr>icb_buffer = hd_id dest, icb_layout = layout\<rparr> copy_size"
| "encoder_command_of (ComputePassOf label calls) = BeginComputePass label (map compute_command_of calls)"
| "encoder_command_of (RenderPassOf desc calls) =
     BeginRenderPass (rpd_label desc) (map (map_option color_attachment_ids) (rpd_color_attachments desc))
       (map_option depth_attachment_ids (rpd_depth_stencil_attachment desc)) (map render_command_of calls)"

lemma on_compute_pass_pushes: "on_compute_pass call = push_compute (compute_command_of call)"
  by (cases call) (simp_all add: compute_set_pipeline_def compute_set_bind_group_def dispatch_workgroups_def)

lemma on_render_pass_pushes: "on_render_pass call = push_render (render_command_of call)"
  by (cases call)
    (simp_all add: render_set_pipeline_def render_set_bind_group_def set_vertex_buffer_def set_index_buffer_def
      draw_def draw_indexed_def)

lemma fold_push_compute:
  "fold on_compute_pass calls p = p\<lparr>cps_commands := cps_commands p @ map compute_command_of calls\<rparr>"
  by (induction calls arbitrary: p) (simp_all add: on_compute_pass_pushes push_compute_def)

lemma fold_push_render:
  "fold on_render_pass calls p = p\<lparr>rps_commands := rps_commands p @ map render_command_of calls\<rparr>"
  by (induction calls arbitrary: p) (simp_all add: on_render_pass_pushes push_render_def)

lemma on_encoder_pushes: "on_encoder call enc = push_command (encoder_command_of call) enc"
  by (cases call)
    (simp_all add: copy_buffer_to_buffer_def clear_buffer_def copy_texture_to_buffer_def drop_compute_pass_def
      begin_compute_pass_def drop_render_pass_def begin_render_pass_def fold_push_compute fold_push_render)

lemma fold_on_encoder:
  "fold on_encoder script enc = enc\<lparr>enc_commands := enc_commands enc @ map encoder_command_of script\<rparr>"
  by (induction script arbitrary: enc) (simp_all add: on_encoder_pushes push_command_def)

lemma record_script_eq:
  "into_recording (record_script label script) = \<lparr>rec_label = label, rec_commands = map encoder_command_of script\<rparr>"
  by (simp add: record_script_def finish_def into_recording_def fold_on_encoder new_encoder_def)

end
