(* ===== verification/Device.thy ===== *)
theory Device
  imports Recorder Replay
begin

section \<open>Instance, adapter, device and queue\<close>

text \<open>
  \<open>client/instance.rs\<close>. An adapter is only the client; a device and its queue share the address
  of their \<open>IdMinter\<close>, a fresh one for every \<open>request_device\<close>.
\<close>

subsection \<open>Instance and Adapter\<close>

definition expect_ok ::
  "('w, 'c) link \<Rightarrow> response \<Rightarrow> ('c facade, client_error, unit) step" where
  "expect_ok lk resp =
     (case resp of
        RespOk \<Rightarrow> ret ()
      | RespError code msg \<Rightarrow> fail (ServerError code msg)
      | other \<Rightarrow> fail (unexpected lk ''Ok'' other))"

definition request_adapter :: "('w, 'c) link \<Rightarrow> ('c facade, client_error, unit) step" where
  "request_adapter lk =
     andThen (request_on lk (Hello PROTOCOL_VERSION)) (\<lambda>resp.
     andThen (case resp of
         HelloAck _ \<Rightarrow> ret ()
       | RespError code msg \<Rightarrow> fail (ServerError code msg)
       | other \<Rightarrow> fail (unexpected lk ''HelloAck'' other)) (\<lambda>_.
     andThen (request_on lk RequestAdapter) (expect_ok lk)))"

text \<open>The address of the new device's minter.\<close>

definition request_device :: "('w, 'c) link \<Rightarrow> ('c facade, client_error, nat) step" where
  "request_device lk =
     andThen (request_on lk (RequestDevice None)) (\<lambda>resp.
     andThen (expect_ok lk resp) (\<lambda>_ st.
       (Ret (length (fa_minters st)), st\<lparr>fa_minters := fa_minters st @ [new_minter]\<rparr>)))"

subsection \<open>Device\<close>

definition create_buffer_on ::
  "('w, 'c) link \<Rightarrow> nat \<Rightarrow> buffer_descriptor \<Rightarrow> 'c facade \<Rightarrow> buffer \<times> 'c facade" where
  "create_buffer_on lk dev desc st =
     (case mint_with dev mint_buffer st of (i, st) \<Rightarrow>
        new_buffer i (bd_size desc) (send_on lk (CreateBuffer i desc) st))"

definition create_shader_module_on ::
  "('w, 'c) link \<Rightarrow> nat \<Rightarrow> 'w shader_module_descriptor \<Rightarrow> 'c facade \<Rightarrow> shader_module \<times> 'c facade" where
  "create_shader_module_on lk dev desc st =
     (case mint_with dev mint_shader_module st of (i, st) \<Rightarrow>
        new_handle RShaderModule i (send_on lk (CreateShaderModule i desc) st))"

definition create_bind_group_layout_on ::
  "('w, 'c) link \<Rightarrow> nat \<Rightarrow> 'w bind_group_layout_descriptor \<Rightarrow> 'c facade \<Rightarrow> bind_group_layout \<times> 'c facade" where
  "create_bind_group_layout_on lk dev desc st =
     (case mint_with dev mint_bind_group_layout st of (i, st) \<Rightarrow>
        new_handle RBindGroupLayout i (send_on lk (CreateBindGroupLayout i desc) st))"

definition create_bind_group_on ::
  "('w, 'c) link \<Rightarrow> nat \<Rightarrow> bind_group_descriptor \<Rightarrow> 'c facade \<Rightarrow> bind_group \<times> 'c facade" where
  "create_bind_group_on lk dev desc st =
     (case mint_with dev mint_bind_group st of (i, st) \<Rightarrow>
        new_handle RBindGroup i (send_on lk (CreateBindGroup i desc) st))"

definition create_pipeline_layout_on ::
  "('w, 'c) link \<Rightarrow> nat \<Rightarrow> 'w pipeline_layout_descriptor \<Rightarrow> 'c facade \<Rightarrow> pipeline_layout \<times> 'c facade" where
  "create_pipeline_layout_on lk dev desc st =
     (case mint_with dev mint_pipeline_layout st of (i, st) \<Rightarrow>
        new_handle RPipelineLayout i (send_on lk (CreatePipelineLayout i desc) st))"

definition create_compute_pipeline_on ::
  "('w, 'c) link \<Rightarrow> nat \<Rightarrow> 'w compute_pipeline_descriptor \<Rightarrow> 'c facade \<Rightarrow> compute_pipeline \<times> 'c facade" where
  "create_compute_pipeline_on lk dev desc st =
     (case mint_with dev mint_compute_pipeline st of (i, st) \<Rightarrow>
        new_minting RComputePipeline i dev (send_on lk (CreateComputePipeline i desc) st))"

definition create_render_pipeline_on ::
  "('w, 'c) link \<Rightarrow> nat \<Rightarrow> 'w render_pipeline_descriptor \<Rightarrow> 'c facade \<Rightarrow> render_pipeline \<times> 'c facade" where
  "create_render_pipeline_on lk dev desc st =
     (case mint_with dev mint_render_pipeline st of (i, st) \<Rightarrow>
        new_minting RRenderPipeline i dev (send_on lk (CreateRenderPipeline i desc) st))"

definition create_texture_on ::
  "('w, 'c) link \<Rightarrow> nat \<Rightarrow> 'w texture_descriptor \<Rightarrow> 'c facade \<Rightarrow> texture \<times> 'c facade" where
  "create_texture_on lk dev desc st =
     (case mint_with dev mint_texture st of (i, st) \<Rightarrow>
        new_minting RTexture i dev (send_on lk (CreateTexture i desc) st))"

definition create_sampler_on ::
  "('w, 'c) link \<Rightarrow> nat \<Rightarrow> 'w sampler_descriptor \<Rightarrow> 'c facade \<Rightarrow> sampler \<times> 'c facade" where
  "create_sampler_on lk dev desc st =
     (case mint_with dev mint_sampler st of (i, st) \<Rightarrow>
        new_handle RSampler i (send_on lk (CreateSampler i desc) st))"

definition create_command_encoder :: "string option \<Rightarrow> 'w command_encoder" where
  "create_command_encoder label = new_encoder label"

subsection \<open>Queue\<close>

definition queue_write_buffer :: "('w, 'c) link \<Rightarrow> buffer \<Rightarrow> u64 \<Rightarrow> bytes \<Rightarrow> 'c facade \<Rightarrow> 'c facade" where
  "queue_write_buffer lk buf off data = send_on lk (WriteBuffer (hd_id buf) off data)"

definition queue_write_texture ::
  "('w, 'c) link \<Rightarrow> texture \<Rightarrow> u32 \<Rightarrow> 'w \<Rightarrow> 'w \<Rightarrow> bytes \<Rightarrow> 'w \<Rightarrow> 'w \<Rightarrow> 'c facade \<Rightarrow> 'c facade" where
  "queue_write_texture lk tex mip org aspect data data_layout extent =
     send_on lk (WriteTexture (hd_id tex) mip org aspect data data_layout extent)"

definition queue_submit ::
  "('w, 'c) link \<Rightarrow> 'w command_buffer list \<Rightarrow> ('c facade, client_error, unit) step" where
  "queue_submit lk command_buffers st =
     (case collect_res (\<lambda>cb. encode_recording (lk_recordings lk) (into_recording cb)) command_buffers of
        Inl e \<Rightarrow> (Fail (EncodeFailed e), st)
      | Inr recordings \<Rightarrow> (Ret (), send_on lk (Submit recordings) st))"

lemmas create_on_defs =
  create_buffer_on_def create_shader_module_on_def create_bind_group_layout_on_def create_bind_group_on_def
  create_pipeline_layout_on_def create_compute_pipeline_on_def create_render_pipeline_on_def create_texture_on_def
  create_sampler_on_def render_bind_group_layout_def compute_bind_group_layout_def create_view_def

lemmas new_handle_defs = new_handle_def new_buffer_def new_minting_def new_cell_def

end
