(* ===== verification/System.thy ===== *)
theory System
  imports Device Engine_Spec
begin

section \<open>Client programs\<close>

text \<open>
  A program of the facade is a sequence of calls on one device. The locale \<open>recorder\<close> is what the
  facade needs of the low-level client to be reasoned about: the actions issued so far, in order.
  Inside it: a resource is destroyed once, when its last handle is dropped.
\<close>

subsection \<open>Calls\<close>

datatype 'w facade_op =
    OpCreateBuffer buffer_descriptor
  | OpCreateTexture "'w texture_descriptor"
  | OpCreateSampler "'w sampler_descriptor"
  | OpCreateShaderModule "'w shader_module_descriptor"
  | OpCreateBindGroupLayout "'w bind_group_layout_descriptor"
  | OpCreateBindGroup bind_group_descriptor
  | OpCreatePipelineLayout "'w pipeline_layout_descriptor"
  | OpCreateRenderPipeline "'w render_pipeline_descriptor"
  | OpCreateComputePipeline "'w compute_pipeline_descriptor"
  | OpCreateView texture "'w texture_view_descriptor"
  | OpRenderLayout render_pipeline u32
  | OpComputeLayout compute_pipeline u32
  | OpClone nat
  | OpDrop nat
  | OpWriteBuffer buffer u64 bytes
  | OpWriteRange buffer u64 bytes
  | OpWriteTexture texture u32 'w 'w bytes 'w 'w
  | OpSubmit "'w command_buffer list"
  | OpRead buffer "bound \<times> bound"

fun facade_step :: "('w, 'c) link \<Rightarrow> nat \<Rightarrow> 'w facade_op \<Rightarrow> 'c facade \<Rightarrow> 'c facade" where
  "facade_step lk dev (OpCreateBuffer desc) st = snd (create_buffer_on lk dev desc st)"
| "facade_step lk dev (OpCreateTexture desc) st = snd (create_texture_on lk dev desc st)"
| "facade_step lk dev (OpCreateSampler desc) st = snd (create_sampler_on lk dev desc st)"
| "facade_step lk dev (OpCreateShaderModule desc) st = snd (create_shader_module_on lk dev desc st)"
| "facade_step lk dev (OpCreateBindGroupLayout desc) st = snd (create_bind_group_layout_on lk dev desc st)"
| "facade_step lk dev (OpCreateBindGroup desc) st = snd (create_bind_group_on lk dev desc st)"
| "facade_step lk dev (OpCreatePipelineLayout desc) st = snd (create_pipeline_layout_on lk dev desc st)"
| "facade_step lk dev (OpCreateRenderPipeline desc) st = snd (create_render_pipeline_on lk dev desc st)"
| "facade_step lk dev (OpCreateComputePipeline desc) st = snd (create_compute_pipeline_on lk dev desc st)"
| "facade_step lk dev (OpCreateView tex desc) st = snd (create_view lk tex desc st)"
| "facade_step lk dev (OpRenderLayout p index) st = snd (render_bind_group_layout lk p index st)"
| "facade_step lk dev (OpComputeLayout p index) st = snd (compute_bind_group_layout lk p index st)"
| "facade_step lk dev (OpClone a) st = clone_cell a st"
| "facade_step lk dev (OpDrop a) st = drop_cell lk a st"
| "facade_step lk dev (OpWriteBuffer buf off data) st = queue_write_buffer lk buf off data st"
| "facade_step lk dev (OpWriteRange buf off data) st = write_range lk buf off data st"
| "facade_step lk dev (OpWriteTexture tex mip org aspect data layout extent) st =
     queue_write_texture lk tex mip org aspect data layout extent st"
| "facade_step lk dev (OpSubmit cbs) st = snd (queue_submit lk cbs st)"
| "facade_step lk dev (OpRead buf rng) st = snd (read_range lk buf rng st)"

definition facade_run :: "('w, 'c) link \<Rightarrow> nat \<Rightarrow> 'w facade_op list \<Rightarrow> 'c facade \<Rightarrow> 'c facade" where
  "facade_run lk dev = fold (facade_step lk dev)"

text \<open>
  What a call asks of the server: the kind of resource it creates, the action it sends, given the
  number of a fresh id, and the resources it names.
\<close>

fun op_kind :: "'w facade_op \<Rightarrow> kind option" where
  "op_kind (OpCreateBuffer _) = Some KBuffer"
| "op_kind (OpCreateTexture _) = Some KTexture"
| "op_kind (OpCreateSampler _) = Some KSampler"
| "op_kind (OpCreateShaderModule _) = Some KShaderModule"
| "op_kind (OpCreateBindGroupLayout _) = Some KBindGroupLayout"
| "op_kind (OpCreateBindGroup _) = Some KBindGroup"
| "op_kind (OpCreatePipelineLayout _) = Some KPipelineLayout"
| "op_kind (OpCreateRenderPipeline _) = Some KRenderPipeline"
| "op_kind (OpCreateComputePipeline _) = Some KComputePipeline"
| "op_kind (OpCreateView _ _) = Some KTextureView"
| "op_kind (OpRenderLayout _ _) = Some KBindGroupLayout"
| "op_kind (OpComputeLayout _ _) = Some KBindGroupLayout"
| "op_kind _ = None"

fun op_action :: "'w facade_op \<Rightarrow> u64 \<Rightarrow> 'w action" where
  "op_action (OpCreateBuffer desc) n = CreateBuffer (Id n) desc"
| "op_action (OpCreateTexture desc) n = CreateTexture (Id n) desc"
| "op_action (OpCreateSampler desc) n = CreateSampler (Id n) desc"
| "op_action (OpCreateShaderModule desc) n = CreateShaderModule (Id n) desc"
| "op_action (OpCreateBindGroupLayout desc) n = CreateBindGroupLayout (Id n) desc"
| "op_action (OpCreateBindGroup desc) n = CreateBindGroup (Id n) desc"
| "op_action (OpCreatePipelineLayout desc) n = CreatePipelineLayout (Id n) desc"
| "op_action (OpCreateRenderPipeline desc) n = CreateRenderPipeline (Id n) desc"
| "op_action (OpCreateComputePipeline desc) n = CreateComputePipeline (Id n) desc"
| "op_action (OpCreateView tex desc) n = CreateTextureView (Id n) (hd_id tex) desc"
| "op_action (OpRenderLayout p index) n = DeriveRenderPipelineBindGroupLayout (hd_id p) index (Id n)"
| "op_action (OpComputeLayout p index) n = DeriveComputePipelineBindGroupLayout (hd_id p) index (Id n)"
| "op_action (OpWriteBuffer buf off data) n = WriteBuffer (hd_id buf) off data"
| "op_action (OpWriteRange buf off data) n = WriteBuffer (hd_id buf) off data"
| "op_action (OpWriteTexture tex mip org aspect data layout extent) n =
     WriteTexture (hd_id tex) mip org aspect data layout extent"
| "op_action (OpRead buf _) n = MapBufferForRead (hd_id buf) 0 0"
| "op_action _ n = Submit []"

fun op_refs :: "'w facade_op \<Rightarrow> resource_id list" where
  "op_refs (OpSubmit cbs) = concat (map (recording_refs \<circ> into_recording) cbs)"
| "op_refs op = action_refs (op_action op 0)"

fun op_minter :: "'w facade_op \<Rightarrow> nat \<Rightarrow> nat" where
  "op_minter (OpCreateView tex _) dev = hd_minter tex"
| "op_minter (OpRenderLayout p _) dev = hd_minter p"
| "op_minter (OpComputeLayout p _) dev = hd_minter p"
| "op_minter _ dev = dev"

fun numbered :: "kind \<Rightarrow> u64 \<Rightarrow> resource_id" where
  "numbered KBuffer n = RBuffer (Id n)"
| "numbered KTexture n = RTexture (Id n)"
| "numbered KTextureView n = RTextureView (Id n)"
| "numbered KSampler n = RSampler (Id n)"
| "numbered KShaderModule n = RShaderModule (Id n)"
| "numbered KBindGroupLayout n = RBindGroupLayout (Id n)"
| "numbered KBindGroup n = RBindGroup (Id n)"
| "numbered KPipelineLayout n = RPipelineLayout (Id n)"
| "numbered KRenderPipeline n = RRenderPipeline (Id n)"
| "numbered KComputePipeline n = RComputePipeline (Id n)"

text \<open>A call that creates mints an id, sends the action with it, and makes a cell for it.\<close>

lemma mint_kind_numbered: "\<exists>n m'. mint_kind k m = (numbered k n, m')"
  by (cases k) (auto simp: mint_defs new_id_def)

lemma facade_step_create:
  assumes "op_kind op = Some k" and "mint_kind k (fa_minters st ! op_minter op dev) = (numbered k n, m)"
  shows "facade_step lk dev op st = snd (new_cell (numbered k n)
    (send_on lk (op_action op n) (st\<lparr>fa_minters := (fa_minters st)[op_minter op dev := m]\<rparr>)))"
  using assms
  by (cases op) (auto simp: create_on_defs mint_with_def new_handle_defs mint_defs send_on_def)

lemma op_action_creates:
  assumes "op_kind op = Some k"
  shows "creates (op_action op n) = Some (numbered k n)" "destroys (op_action op n) = None"
    "action_refs (op_action op n) = op_refs op" "supported (op_action op n) = supported (op_action op 0)"
    "op_action op n \<noteq> Submit rs" "op_action op n \<noteq> Destroy r"
  using assms by (cases op; simp)+

subsection \<open>Handles and the resources they keep\<close>

definition live :: "'c facade \<Rightarrow> resource_id set" where
  "live st = {cell_resource c | c. c \<in> set (fa_cells st) \<and> 0 < cell_count c}"

definition dead :: "'c facade \<Rightarrow> resource_id set" where
  "dead st = {cell_resource c | c. c \<in> set (fa_cells st) \<and> cell_count c = 0}"

text \<open>A Rust program only clones and drops handles it holds.\<close>

fun holds_handles :: "'w facade_op \<Rightarrow> nat \<Rightarrow> 'c facade \<Rightarrow> bool" where
  "holds_handles (OpClone a) dev st \<longleftrightarrow> a < length (fa_cells st) \<and> 0 < cell_count (fa_cells st ! a)"
| "holds_handles (OpDrop a) dev st \<longleftrightarrow> a < length (fa_cells st) \<and> 0 < cell_count (fa_cells st ! a)"
| "holds_handles op dev st \<longleftrightarrow> op_minter op dev = dev"

text \<open>The cells of one device have distinct resources, all minted by it.\<close>

definition cells_ok :: "nat \<Rightarrow> 'c facade \<Rightarrow> bool" where
  "cells_ok dev st \<longleftrightarrow> dev < length (fa_minters st) \<and> distinct (map cell_resource (fa_cells st))
     \<and> (\<forall>c \<in> set (fa_cells st). minted_by (fa_minters st ! dev) (cell_resource c))"

definition minted :: "nat \<Rightarrow> 'c facade \<Rightarrow> nat" where
  "minted dev st = mints_used (fa_minters st ! dev)"

fun destroyed :: "'w action list \<Rightarrow> resource_id list" where
  "destroyed [] = []"
| "destroyed (Destroy r # acts) = r # destroyed acts"
| "destroyed (_ # acts) = destroyed acts"

lemma destroyed_append [simp]: "destroyed (acts @ acts') = destroyed acts @ destroyed acts'"
  by (induction acts rule: destroyed.induct) simp_all

lemma destroyed_other: "(\<And>r. act \<noteq> Destroy r) \<Longrightarrow> destroyed [act] = []"
  by (cases act) auto

text \<open>The cells after one count has changed.\<close>

definition set_count :: "nat \<Rightarrow> nat \<Rightarrow> 'c facade \<Rightarrow> 'c facade" where
  "set_count a n st = st\<lparr>fa_cells := (fa_cells st)[a := (fa_cells st ! a)\<lparr>cell_count := n\<rparr>]\<rparr>"

lemma set_count_resources [simp]:
  "map cell_resource (fa_cells (set_count a n st)) = map cell_resource (fa_cells st)"
  "fa_client (set_count a n st) = fa_client st" "fa_minters (set_count a n st) = fa_minters st"
proof -
  have "(map cell_resource (fa_cells st))[a := cell_resource (fa_cells st ! a)] = map cell_resource (fa_cells st)"
    by (cases "a < length (fa_cells st)") (simp_all add: list_update_same_conv list_update_beyond)
  then show "map cell_resource (fa_cells (set_count a n st)) = map cell_resource (fa_cells st)"
    by (simp add: set_count_def map_update)
qed (simp_all add: set_count_def)

lemma cells_ok_set_count: "cells_ok dev (set_count a n st) = cells_ok dev st"
proof -
  have "cell_resource ` set (fa_cells (set_count a n st)) = cell_resource ` set (fa_cells st)"
    using arg_cong [OF set_count_resources(1) [of a n st], of set] by (simp only: set_map)
  then have "(\<forall>c \<in> set (fa_cells (set_count a n st)). minted_by m (cell_resource c))
      \<longleftrightarrow> (\<forall>c \<in> set (fa_cells st). minted_by m (cell_resource c))" for m
    by (metis (no_types, lifting) image_iff)
  then show ?thesis by (simp add: cells_ok_def)
qed

lemma dead_nth: "r \<in> dead st \<longleftrightarrow> (\<exists>i < length (fa_cells st). cell_resource (fa_cells st ! i) = r \<and> cell_count (fa_cells st ! i) = 0)"
  unfolding dead_def by (auto simp: in_set_conv_nth)

lemma live_nth: "r \<in> live st \<longleftrightarrow> (\<exists>i < length (fa_cells st). cell_resource (fa_cells st ! i) = r \<and> 0 < cell_count (fa_cells st ! i))"
  unfolding live_def by (auto simp: in_set_conv_nth)

lemma cell_unique:
  assumes "cells_ok dev st" and "i < length (fa_cells st)" and "a < length (fa_cells st)"
    and "cell_resource (fa_cells st ! i) = cell_resource (fa_cells st ! a)"
  shows "i = a"
  using assms nth_eq_iff_index_eq [of "map cell_resource (fa_cells st)" i a] by (simp add: cells_ok_def)

lemma set_count_sets:
  assumes "cells_ok dev st" and "a < length (fa_cells st)" and "r = cell_resource (fa_cells st ! a)"
  shows "dead (set_count a n st) = (if n = 0 then insert r (dead st) else dead st - {r})"
    and "live (set_count a n st) = (if n = 0 then live st - {r} else insert r (live st))"
proof -
  have nth: "fa_cells (set_count a n st) ! i = (if i = a then (fa_cells st ! a)\<lparr>cell_count := n\<rparr> else fa_cells st ! i)"
    "length (fa_cells (set_count a n st)) = length (fa_cells st)" if "i < length (fa_cells st)" for i
    using that assms(2) by (auto simp: set_count_def)
  have len: "length (fa_cells (set_count a n st)) = length (fa_cells st)" by (simp add: set_count_def)
  have same: "i < length (fa_cells st) \<Longrightarrow> cell_resource (fa_cells st ! i) = r \<longleftrightarrow> i = a" for i
    using cell_unique [OF assms(1) _ assms(2), of i] assms(3) by auto
  show "dead (set_count a n st) = (if n = 0 then insert r (dead st) else dead st - {r})"
  proof (rule set_eqI)
    fix x
    have "x \<in> dead (set_count a n st) \<longleftrightarrow> (x = r \<and> n = 0) \<or> (\<exists>i < length (fa_cells st). i \<noteq> a
        \<and> cell_resource (fa_cells st ! i) = x \<and> cell_count (fa_cells st ! i) = 0)"
      unfolding dead_nth len using nth assms(2,3) by (auto split: if_splits)
    then show "x \<in> dead (set_count a n st) \<longleftrightarrow> x \<in> (if n = 0 then insert r (dead st) else dead st - {r})"
      unfolding dead_nth using same by (auto simp: dead_nth)
  qed
  show "live (set_count a n st) = (if n = 0 then live st - {r} else insert r (live st))"
  proof (rule set_eqI)
    fix x
    have "x \<in> live (set_count a n st) \<longleftrightarrow> (x = r \<and> 0 < n) \<or> (\<exists>i < length (fa_cells st). i \<noteq> a
        \<and> cell_resource (fa_cells st ! i) = x \<and> 0 < cell_count (fa_cells st ! i))"
      unfolding live_nth len using nth assms(2,3) by (auto split: if_splits)
    then show "x \<in> live (set_count a n st) \<longleftrightarrow> x \<in> (if n = 0 then live st - {r} else insert r (live st))"
      unfolding live_nth using same by (auto simp: live_nth)
  qed
qed

lemma clone_cell_eq: "clone_cell a st = set_count a (cell_count (fa_cells st ! a) + 1) st"
  by (simp add: clone_cell_def set_count_def)

lemma drop_cell_eq:
  "drop_cell lk a st =
     (if cell_count (fa_cells st ! a) = 1
      then send_on lk (Destroy (cell_resource (fa_cells st ! a))) (set_count a 0 st)
      else set_count a (cell_count (fa_cells st ! a) - 1) st)"
  by (simp add: drop_cell_def set_count_def spawn_destroy_def Let_def)

text \<open>A fresh cell.\<close>

lemma new_cell_sets:
  "snd (new_cell r st) = st\<lparr>fa_cells := fa_cells st @ [\<lparr>cell_resource = r, cell_count = 1\<rparr>]\<rparr>"
  "dead (snd (new_cell r st)) = dead st" "live (snd (new_cell r st)) = insert r (live st)"
  "fa_client (snd (new_cell r st)) = fa_client st" "fa_minters (snd (new_cell r st)) = fa_minters st"
proof -
  have "\<exists>c. r = cell_resource c \<and> (c = \<lparr>cell_resource = r, cell_count = Suc 0\<rparr> \<or> c \<in> set (fa_cells st)) \<and> 0 < cell_count c"
    by (rule exI [of _ "\<lparr>cell_resource = r, cell_count = Suc 0\<rparr>"]) simp
  then show "live (snd (new_cell r st)) = insert r (live st)"
    by (auto simp: new_cell_def live_def)
qed (auto simp: new_cell_def dead_def)

lemma cells_ok_create:
  assumes "cells_ok dev st" and "mint_kind k (fa_minters st ! dev) = (r, m)" and "minted dev st < id_capacity"
  shows "cells_ok dev (snd (new_cell r (st\<lparr>fa_minters := (fa_minters st)[dev := m]\<rparr>)))
    \<and> mints_used m \<le> Suc (minted dev st)"
proof -
  note fresh = client_ids.mint_fresh [OF assms(2)] and grows = client_ids.mint_minted [OF assms(2)]
    and used = client_ids.mint_used [OF assms(2)]
  have lt: "mints_used (fa_minters st ! dev) < id_capacity" using assms(3) by (simp add: minted_def)
  show ?thesis
    using assms(1) fresh [OF lt] grows [OF lt] used [OF lt]
    by (auto simp: cells_ok_def new_cell_sets(1) minted_def)
qed

fun disciplined :: "('w, 'c) link \<Rightarrow> nat \<Rightarrow> 'w facade_op list \<Rightarrow> 'c facade \<Rightarrow> bool" where
  "disciplined lk dev [] st \<longleftrightarrow> True"
| "disciplined lk dev (op # ops) st \<longleftrightarrow> holds_handles op dev st \<and> disciplined lk dev ops (facade_step lk dev op st)"

subsection \<open>What a program issues\<close>

locale recorder =
  fixes lk :: "('w, 'c) link"
    and trace :: "'c \<Rightarrow> 'w action list"
  assumes trace_send: "trace (lk_send lk act c) = trace c @ [act]"
    and trace_request: "trace (snd (lk_request lk act c)) = trace c @ [act]"
begin

lemma send_on_simps [simp]:
  "fa_minters (send_on lk act st) = fa_minters st" "fa_cells (send_on lk act st) = fa_cells st"
  "trace (fa_client (send_on lk act st)) = trace (fa_client st) @ [act]"
  by (simp_all add: send_on_def trace_send)

lemma request_on_state:
  assumes "request_on lk act st = (r, st')"
  shows "fa_minters st' = fa_minters st" "fa_cells st' = fa_cells st"
    "trace (fa_client st') = trace (fa_client st) @ [act]"
  using assms trace_request [of act "fa_client st"]
  by (auto simp: request_on_def split: prod.splits sum.splits)

lemma read_range_state:
  "fa_minters (snd (read_range lk b rng st)) = fa_minters st \<and> fa_cells (snd (read_range lk b rng st)) = fa_cells st
   \<and> destroyed (trace (fa_client (snd (read_range lk b rng st)))) = destroyed (trace (fa_client st))"
proof (cases "bounds_to_offset_size (lk_overflow_checks lk) rng (buf_size b)")
  case None
  then show ?thesis by (simp add: read_range_def andThen_def)
next
  case (Some p)
  obtain off len where p: "p = (off, len)" by (rule prod.exhaust)
  obtain r st' where run: "request_on lk (MapBufferForRead (hd_id b) off len) st = (r, st')" by (rule prod.exhaust)
  then have "snd (read_range lk b rng st) = st'"
    by (auto simp: read_range_def andThen_def Some p split: flow.splits response.splits)
  then show ?thesis using request_on_state [OF run] by simp
qed

text \<open>The invariant: every destroyed resource was destroyed once, and they are those without a handle.\<close>

definition accounted :: "nat \<Rightarrow> 'c facade \<Rightarrow> bool" where
  "accounted dev st \<longleftrightarrow> cells_ok dev st \<and> distinct (destroyed (trace (fa_client st)))
     \<and> set (destroyed (trace (fa_client st))) = dead st"

lemma accounted_step:
  assumes "accounted dev st" and "holds_handles op dev st" and "minted dev st < id_capacity"
  shows "accounted dev (facade_step lk dev op st) \<and> minted dev (facade_step lk dev op st) \<le> Suc (minted dev st)"
proof (cases "op_kind op")
  case (Some k)
  then have dev: "op_minter op dev = dev" using assms(2) by (cases op) auto
  obtain n m where mint: "mint_kind k (fa_minters st ! dev) = (numbered k n, m)"
    using mint_kind_numbered by blast
  let ?st = "st\<lparr>fa_minters := (fa_minters st)[dev := m]\<rparr>"
  have step: "facade_step lk dev op st = snd (new_cell (numbered k n) (send_on lk (op_action op n) ?st))"
    using facade_step_create [of op k st dev n m lk] Some mint by (simp add: dev)
  have none: "destroyed [op_action op n] = []"
    using op_action_creates(6) [OF Some] by (intro destroyed_other) blast
  have cells: "cells_ok dev (snd (new_cell (numbered k n) ?st)) \<and> mints_used m \<le> Suc (minted dev st)"
    using cells_ok_create [OF _ mint assms(3)] assms(1) by (simp add: accounted_def)
  have "dead (send_on lk (op_action op n) ?st) = dead st" by (simp add: dead_def send_on_def)
  moreover have "cells_ok dev (facade_step lk dev op st)"
    using cells by (auto simp: step cells_ok_def new_cell_sets(1))
  moreover have "dev < length (fa_minters st)"
    using assms(1) by (simp add: accounted_def cells_ok_def)
  ultimately show ?thesis
    using assms(1) cells none by (simp add: accounted_def step new_cell_sets(2-5) minted_def)
next
  case None
  have dev: "dev < length (fa_minters st)" using assms(1) by (simp add: accounted_def cells_ok_def)
  have same: "accounted dev (st'::'c facade)"
    if "fa_cells st' = fa_cells st" "fa_minters st' = fa_minters st"
      "destroyed (trace (fa_client st')) = destroyed (trace (fa_client st))" for st'
    using that assms(1) by (simp add: accounted_def cells_ok_def dead_def)
  show ?thesis
  proof (cases op)
    case (OpClone a)
    then have a: "a < length (fa_cells st)" "0 < cell_count (fa_cells st ! a)" using assms(2) by auto
    have "cell_resource (fa_cells st ! a) \<notin> dead st"
      using a assms(1) cell_unique [of dev st] by (auto simp: dead_nth accounted_def)
    then show ?thesis
      using assms(1) OpClone set_count_sets(1) [OF _ a(1) refl]
      by (auto simp: accounted_def clone_cell_eq cells_ok_set_count minted_def)
  next
    case (OpDrop a)
    then have a: "a < length (fa_cells st)" "0 < cell_count (fa_cells st ! a)" using assms(2) by auto
    have new: "cell_resource (fa_cells st ! a) \<notin> dead st"
      using a assms(1) cell_unique [of dev st] by (auto simp: dead_nth accounted_def)
    have ok: "cells_ok dev st" using assms(1) by (simp add: accounted_def)
    have send: "cells_ok dev (send_on lk act x) = cells_ok dev x" "dead (send_on lk act x) = dead x" for act x
      by (simp_all add: cells_ok_def dead_def)
    show ?thesis
      using assms(1) OpDrop new a set_count_sets(1) [OF ok a(1) refl]
      by (auto simp: accounted_def drop_cell_eq cells_ok_set_count minted_def send)
  next
    case (OpSubmit cbs)
    then show ?thesis
      using assms(1) by (auto simp: queue_submit_def minted_def intro!: same split: sum.splits)
  next
    case (OpRead b rng)
    then show ?thesis
      using read_range_state [of b rng st] by (auto simp: minted_def intro!: same)
  qed (use None assms(1) in \<open>auto simp: queue_write_buffer_def write_range_def queue_write_texture_def minted_def
      intro!: same\<close>)
qed

lemma accounted_run:
  assumes "accounted dev st" and "disciplined lk dev ops st" and "minted dev st + length ops \<le> id_capacity"
  shows "accounted dev (facade_run lk dev ops st)"
  using assms
proof (induction ops arbitrary: st)
  case (Cons op ops)
  have lt: "minted dev st < id_capacity" using Cons.prems(3) by simp
  note step = accounted_step [OF Cons.prems(1) _ lt, of op]
  show ?case
    using Cons.IH [of "facade_step lk dev op st"] step Cons.prems by (simp add: facade_run_def)
qed (simp add: facade_run_def)

end

end
