(* ===== verification/Discipline.thy ===== *)
theory Discipline
  imports System Engine_Properties Runs
begin

section \<open>Programs whose handles are alive\<close>

text \<open>
  What the calls of the facade send, over any link: one action at most, which a call that names only
  resources with live handles makes acceptable to a server that knows those resources. The theories of
  the links, \<open>Composed\<close> for one client and \<open>Clients\<close> for several, rest on \<open>allowed_call\<close>.
\<close>

subsection \<open>Allowed calls\<close>

definition op_allowed :: "'w facade_op \<Rightarrow> nat \<Rightarrow> 'c facade \<Rightarrow> bool" where
  "op_allowed op dev st \<longleftrightarrow>
     holds_handles op dev st \<and> supported (op_action op 0) \<and> set (op_refs op) \<subseteq> live st"

abbreviation all_allowed :: "('w, 'c) link \<Rightarrow> nat \<Rightarrow> 'w facade_op list \<Rightarrow> 'c facade \<Rightarrow> bool" where
  "all_allowed lk dev \<equiv> all_along (\<lambda>op. op_allowed op dev) (facade_step lk dev)"

subsection \<open>What an action needs\<close>

text \<open>
  The resources that have to be known for an action to be accepted, those named in the recordings of a
  submission included, and what else it takes.
\<close>

definition payload_refs :: "'w recording bincode \<Rightarrow> bytes \<Rightarrow> resource_id list" where
  "payload_refs rc payload = (case decode_recording rc payload of Inl _ \<Rightarrow> [] | Inr r \<Rightarrow> recording_refs r)"

definition act_needs :: "'w recording bincode \<Rightarrow> 'w action \<Rightarrow> resource_id set" where
  "act_needs rc act = set (action_refs act)
     \<union> (case act of Submit payloads \<Rightarrow> set (concat (map (payload_refs rc) payloads)) | _ \<Rightarrow> {})"

definition wellformed :: "'w recording bincode \<Rightarrow> 'w action \<Rightarrow> bool" where
  "wellformed rc act \<longleftrightarrow> supported act
     \<and> (case act of Submit payloads \<Rightarrow> list_all (\<lambda>b. \<exists>r. decode_recording rc b = Inr r) payloads | _ \<Rightarrow> True)"

lemma submittable_iff:
  "submittable srv (eng_tables s) b \<longleftrightarrow>
     (\<exists>r. decode_recording (srv_recordings srv) b = Inr r) \<and> set (payload_refs (srv_recordings srv) b) \<subseteq> known s"
  by (auto simp: submittable_def payload_refs_def known_def list_all_iff split: sum.split)

lemma acceptable_iff:
  "acceptable srv (eng_tables s) act \<longleftrightarrow> wellformed (srv_recordings srv) act \<and> act_needs (srv_recordings srv) act \<subseteq> known s"
proof -
  have "list_all (knows (eng_tables s)) (action_refs act) \<longleftrightarrow> set (action_refs act) \<subseteq> known s"
    by (auto simp: known_def list_all_iff)
  then show ?thesis
    by (cases act) (auto simp: acceptable_def wellformed_def act_needs_def submittable_iff list_all_iff)
qed

lemma act_needs_simps [simp]:
  "(\<And>rs. act \<noteq> Submit rs) \<Longrightarrow> act_needs rc act = set (action_refs act)"
  "(\<And>rs. act \<noteq> Submit rs) \<Longrightarrow> wellformed rc act = supported act"
  by (simp_all add: act_needs_def wellformed_def split: action.split)

subsection \<open>What a call sends\<close>

text \<open>The effect of a call on its client: one action at most, sent or requested.\<close>

lemma read_range_cases:
  obtains "snd (read_range lk b rng st) = st"
  | off len where "snd (read_range lk b rng st) = snd (request_on lk (MapBufferForRead (hd_id b) off len) st)"
proof (cases "bounds_to_offset_size (lk_overflow_checks lk) rng (buf_size b)")
  case None
  then show ?thesis by (intro that(1)) (simp add: read_range_def andThen_def)
next
  case (Some p)
  then show ?thesis
    by (cases p, intro that(2) [of "fst p" "snd p"])
      (auto simp: read_range_def andThen_def split: prod.splits flow.splits response.splits)
qed

lemma call_on_client:
  "fa_client (facade_step lk dev op st) = fa_client st
   \<or> (\<exists>act. fa_client (facade_step lk dev op st) = lk_send lk act (fa_client st))
   \<or> (\<exists>act. fa_client (facade_step lk dev op st) = snd (lk_request lk act (fa_client st)))"
proof (cases "op_kind op")
  case (Some k)
  obtain n m where mint: "mint_kind k (fa_minters st ! op_minter op dev) = (numbered k n, m)"
    using mint_kind_numbered by blast
  show ?thesis
    using facade_step_create [OF Some mint, of lk] by (auto simp: new_cell_sets(4) send_on_def)
next
  case None
  show ?thesis
  proof (cases op)
    case (OpRead b rng)
    have "fa_client (snd (request_on lk act st)) = snd (lk_request lk act (fa_client st))" for act
      by (simp add: request_on_def split: prod.split sum.split)
    then show ?thesis
      unfolding OpRead by (cases rule: read_range_cases [of lk b rng st]) auto
  qed (use None in \<open>auto simp: clone_cell_def drop_cell_def Let_def spawn_destroy_def send_on_def
      queue_write_buffer_def write_range_def queue_write_texture_def queue_submit_def split: sum.splits\<close>)
qed

definition issues :: "('w, 'c) link \<Rightarrow> 'w action \<Rightarrow> 'c facade \<Rightarrow> 'c facade \<Rightarrow> bool" where
  "issues lk act st st' \<longleftrightarrow>
     (fa_client st' = lk_send lk act (fa_client st)
      \<or> fa_client st' = snd (lk_request lk act (fa_client st)) \<and> creates act = None \<and> destroys act = None)
     \<and> wellformed (lk_recordings lk) act \<and> act_needs (lk_recordings lk) act \<subseteq> live st
     \<and> live st' \<subseteq> after act (live st) \<and> set_option (destroys act) \<inter> live st' = {}"

text \<open>
  What an allowed call does, to its own state and to the client: nothing is sent, or an action that is
  acceptable where the live resources are known, and after which those that are live are known.
\<close>

definition call_ok :: "('w, 'c) link \<Rightarrow> nat \<Rightarrow> 'c facade \<Rightarrow> 'c facade \<Rightarrow> bool" where
  "call_ok lk dev st st' \<longleftrightarrow> cells_ok dev st' \<and> minted dev st' \<le> Suc (minted dev st)
     \<and> (fa_client st' = fa_client st \<and> live st' \<subseteq> live st \<or> (\<exists>act. issues lk act st st'))"

lemma call_ok_quiet:
  "cells_ok dev st' \<Longrightarrow> minted dev st' \<le> Suc (minted dev st) \<Longrightarrow> fa_client st' = fa_client st \<Longrightarrow> live st' \<subseteq> live st \<Longrightarrow>
     call_ok lk dev st st'"
  by (simp add: call_ok_def)

text \<open>A call that touches no handle and creates and destroys nothing.\<close>

lemma call_ok_send:
  assumes "cells_ok dev st" and "fa_cells st' = fa_cells st" and "fa_minters st' = fa_minters st"
    and "fa_client st' = lk_send lk act (fa_client st) \<or> fa_client st' = snd (lk_request lk act (fa_client st))"
    and "creates act = None" and "destroys act = None"
    and "wellformed (lk_recordings lk) act" and "act_needs (lk_recordings lk) act \<subseteq> live st"
  shows "call_ok lk dev st st'"
proof -
  have "live st' = live st" by (simp add: live_def assms(2))
  then have "issues lk act st st'" using assms(4-8) by (auto simp: issues_def after_def)
  then show ?thesis using assms(1-3) by (auto simp: call_ok_def cells_ok_def minted_def)
qed

lemma call_ok_create:
  assumes "cells_ok dev st" and "op_kind op = Some k" and "op_allowed op dev st" and "minted dev st < id_capacity"
  shows "call_ok lk dev st (facade_step lk dev op st)"
proof -
  have dev: "op_minter op dev = dev" using assms(2,3) by (cases op) (auto simp: op_allowed_def)
  obtain n m where mint: "mint_kind k (fa_minters st ! dev) = (numbered k n, m)"
    using mint_kind_numbered by blast
  let ?act = "op_action op n" and ?st' = "facade_step lk dev op st"
  note acts = op_action_creates [OF assms(2), of n]
  have step: "?st' = snd (new_cell (numbered k n) (send_on lk ?act (st\<lparr>fa_minters := (fa_minters st)[dev := m]\<rparr>)))"
    using facade_step_create [of op k st dev n m lk] assms(2) mint by (simp add: dev)
  have cells: "cells_ok dev ?st'" "minted dev ?st' \<le> Suc (minted dev st)"
    using cells_ok_create [OF assms(1) mint assms(4)] assms(1)
    by (auto simp: step cells_ok_def new_cell_sets(1,5) minted_def send_on_def)
  have "live (send_on lk ?act (st\<lparr>fa_minters := (fa_minters st)[dev := m]\<rparr>)) = live st"
    by (simp add: live_def send_on_def)
  then have "issues lk ?act st ?st'"
    using assms(3) acts by (auto simp: issues_def step new_cell_sets(3,4) after_def send_on_def op_allowed_def)
  then show ?thesis using cells by (auto simp: call_ok_def)
qed

lemma destroys_Destroy: "destroys (Destroy r) = Some x \<Longrightarrow> x = r"
  by (cases r) auto

lemma call_ok_drop:
  assumes "cells_ok dev st" and "a < length (fa_cells st)" and "0 < cell_count (fa_cells st ! a)"
  shows "call_ok lk dev st (drop_cell lk a st)"
proof (cases "cell_count (fa_cells st ! a) = 1")
  case True
  let ?r = "cell_resource (fa_cells st ! a)" and ?st' = "send_on lk (Destroy (cell_resource (fa_cells st ! a))) (set_count a 0 st)"
  have live': "live ?st' = live st - {?r}"
    using set_count_sets(2) [OF assms(1,2) refl, of 0] by (simp add: live_def send_on_def)
  have "issues lk (Destroy ?r) st ?st'"
    unfolding issues_def live' by (auto simp: send_on_def after_def dest: destroys_Destroy)
  moreover have "cells_ok dev ?st'" "minted dev ?st' \<le> Suc (minted dev st)"
    using assms(1) cells_ok_set_count [of dev a 0 st] by (simp_all add: cells_ok_def send_on_def minted_def)
  ultimately show ?thesis using True by (auto simp: call_ok_def drop_cell_eq)
next
  case False
  have "live (set_count a (cell_count (fa_cells st ! a) - 1) st) = live st"
    using set_count_sets(2) [OF assms(1,2) refl, of "cell_count (fa_cells st ! a) - 1"] False assms(2,3)
    by (auto simp: live_nth)
  then show ?thesis
    using assms(1) False by (intro call_ok_quiet) (simp_all add: drop_cell_eq cells_ok_set_count minted_def)
qed

lemma call_ok_clone:
  assumes "cells_ok dev st" and "a < length (fa_cells st)" and "0 < cell_count (fa_cells st ! a)"
  shows "call_ok lk dev st (clone_cell a st)"
proof -
  have "live (clone_cell a st) = live st"
    using set_count_sets(2) [OF assms(1,2) refl, of "cell_count (fa_cells st ! a) + 1"] assms(2,3)
    by (auto simp: live_nth clone_cell_eq)
  then show ?thesis
    using assms(1) by (intro call_ok_quiet) (simp_all add: clone_cell_eq cells_ok_set_count minted_def)
qed

lemma submitted_payloads:
  assumes "bincode_ok rc"
    and "collect_res (\<lambda>cb. encode_recording rc (into_recording cb)) cbs = Inr payloads"
  shows "list_all2 (\<lambda>cb b. decode_recording rc b = Inr (into_recording cb)) cbs payloads"
  using assms(2)
proof (induction cbs arbitrary: payloads)
  case (Cons cb cbs)
  then show ?case
    by (auto simp: bind_res_eq_Inr intro: decode_encode_recording [OF assms(1)])
qed simp

lemma call_ok_submit:
  assumes "cells_ok dev st" and "bincode_ok (lk_recordings lk)" and "op_allowed (OpSubmit cbs) dev st"
  shows "call_ok lk dev st (snd (queue_submit lk cbs st))"
proof (cases "collect_res (\<lambda>cb. encode_recording (lk_recordings lk) (into_recording cb)) cbs")
  case (Inl e)
  then show ?thesis using assms(1) by (intro call_ok_quiet) (simp_all add: queue_submit_def)
next
  case (Inr payloads)
  have decoded: "\<exists>cb \<in> set cbs. decode_recording (lk_recordings lk) b = Inr (into_recording cb)" if "b \<in> set payloads" for b
    using submitted_payloads [OF assms(2) Inr] that
    by (auto simp: list_all2_conv_all_nth in_set_conv_nth) (metis nth_mem)
  have "wellformed (lk_recordings lk) (Submit payloads)"
    using decoded by (fastforce simp: wellformed_def list_all_iff)
  moreover have "act_needs (lk_recordings lk) (Submit payloads) \<subseteq> live st"
  proof -
    have "set (payload_refs (lk_recordings lk) b) \<subseteq> live st" if b: "b \<in> set payloads" for b
      using decoded [OF b] assms(3) by (fastforce simp: payload_refs_def op_allowed_def)
    then show ?thesis by (auto simp: act_needs_def)
  qed
  ultimately show ?thesis
    using Inr by (intro call_ok_send [OF assms(1), where act = "Submit payloads"]) (simp_all add: queue_submit_def send_on_def)
qed

theorem allowed_call:
  assumes "cells_ok dev st" and "op_allowed op dev st" and "bincode_ok (lk_recordings lk)" and "minted dev st < id_capacity"
  shows "call_ok lk dev st (facade_step lk dev op st)"
proof (cases "op_kind op")
  case (Some k)
  then show ?thesis using call_ok_create [OF assms(1) _ assms(2,4)] by blast
next
  case None
  note send = call_ok_send [OF assms(1)]
  show ?thesis
  proof (cases op)
    case (OpClone a)
    then show ?thesis using assms(2) call_ok_clone [OF assms(1), of a] by (simp add: op_allowed_def)
  next
    case (OpDrop a)
    then show ?thesis using assms(2) call_ok_drop [OF assms(1), of a] by (simp add: op_allowed_def)
  next
    case (OpSubmit cbs)
    then show ?thesis using call_ok_submit [OF assms(1,3)] assms(2) by simp
  next
    case (OpRead b rng)
    have "call_ok lk dev st (snd (request_on lk (MapBufferForRead (hd_id b) off len) st))" for off len
      using assms(2) OpRead
      by (intro send [where act = "MapBufferForRead (hd_id b) off len"])
        (auto simp: op_allowed_def request_on_def split: prod.split sum.split)
    then show ?thesis
      using assms(1) OpRead call_ok_quiet [OF assms(1), of st]
      by (cases rule: read_range_cases [of lk b rng st]) simp_all
  next
    case (OpWriteBuffer b off data)
    then show ?thesis using assms(2)
      by (intro send [where act = "WriteBuffer (hd_id b) off data"]) (auto simp: op_allowed_def queue_write_buffer_def send_on_def)
  next
    case (OpWriteRange b off data)
    then show ?thesis using assms(2)
      by (intro send [where act = "WriteBuffer (hd_id b) off data"]) (auto simp: op_allowed_def write_range_def send_on_def)
  next
    case (OpWriteTexture t mip org aspect data layout extent)
    then show ?thesis using assms(2)
      by (intro send [where act = "WriteTexture (hd_id t) mip org aspect data layout extent"])
        (auto simp: op_allowed_def queue_write_texture_def send_on_def)
  qed (use None in simp_all)
qed

end
