(* ===== verification/Composed.thy ===== *)
theory Composed
  imports Discipline Mux
begin

section \<open>Client and engine together\<close>

text \<open>
  The link \<open>served\<close> connects the facade to the engine as \<open>Client::request\<close> and \<open>Client::send\<close>
  (\<open>client/client.rs\<close>) and \<open>handle_stream\<close> (\<open>server/handler.rs\<close>) do, over one in-order stream, for one
  client: the server's work on a frame is not seen before the answer to a later request, so the link
  lets the server handle a frame when it is issued. Several clients of one server, whose frames wait
  while others are handled, are the subject of \<open>Clients\<close>. That the frames on the stream are those
  that were issued, in this order, is \<open>Mux\<close>'s theorem, that the server handles them in this order is
  \<open>Handler\<close>'s, and \<open>Stack\<close> puts both together over bytes.

  What can go wrong on the way is part of the link: a frame that does not encode is never sent; a
  response that does not encode, a panic, and a transport that fails end the stream. The invariant
  \<open>in_step\<close> of the composed system: as long as no create was lost, every resource with a live handle is
  known to the engine, and no answer was an error.
\<close>

subsection \<open>The engine at the other end\<close>

text \<open>
  What is not under \<open>src/\<close>: bincode, for the two kinds of frames, and the transport, as what happens
  to each request by its id: nothing, \<open>open_bi\<close> fails (which only matters for the request that opens
  the stream), or the connection is lost before its frame or its answer arrives.
\<close>

datatype transport_fault = Works | OpenFails | FrameLost | AnswerLost

record 'w net =
  nt_codec :: "'w client_codec"
  nt_fault :: "u64 \<Rightarrow> transport_fault"

text \<open>
  The wire between the client and the engine: the actions issued on it with the answers that the client
  got to see, the state of the stream, and the client's next request id. The stream is opened by the
  first request; it has ended when the server's task does not read it any more, or the connection is lost.
\<close>

datatype stream_state = Unopened | Opened | Ended

record ('w, 'h, 'g) wire =
  wi_engine :: "('h, 'g) engine"
  wi_log :: "('w action \<times> response option) list"
  wi_stream :: stream_state
  wi_next :: u64

text \<open>The client's half: mint an id, encode the frame, get the stream, queue the frame.\<close>

definition posts :: "'w net \<Rightarrow> 'w action \<Rightarrow> ('w, 'h, 'g) wire \<Rightarrow> (client_error + u64) \<times> ('w, 'h, 'g) wire" where
  "posts net act w =
     (let rid = wi_next w; w' = w\<lparr>wi_next := rid + 1\<rparr> in
      case encode_frame (cc_frames (nt_codec net)) \<lparr>fr_request_id = Some (RequestId rid), fr_action = act\<rparr> of
        Inl e \<Rightarrow> (Inl (CodecError e), w')
      | Inr _ \<Rightarrow>
          if wi_stream w = Unopened then
            if nt_fault net rid = OpenFails then (Inl TransportFailed, w')
            else (Inr rid, w'\<lparr>wi_stream := Opened\<rparr>)
          else (Inr rid, w'))"

text \<open>
  The server's half: dispatch the frame, encode the response, send it back. A frame on a stream that
  has ended is not read, and its request fails with \<open>ConnectionClosed\<close>; it may also wait for ever,
  \<open>Mux.late_request_hangs\<close>, and then the program stops there.
\<close>

definition arrives ::
  "'w net \<Rightarrow> ('w, 'h, 'g) server \<Rightarrow> u64 \<Rightarrow> 'w action \<Rightarrow> ('w, 'h, 'g) wire \<Rightarrow> (client_error + response) \<times> ('w, 'h, 'g) wire" where
  "arrives net srv rid act w =
     (if wi_stream w = Ended \<or> nt_fault net rid = FrameLost then (Inl ConnectionClosed, w\<lparr>wi_stream := Ended\<rparr>)
      else case handle srv act (wi_engine w) of
        (Ret (Some r), s) \<Rightarrow>
          (case encode_frame (cc_responses (nt_codec net)) \<lparr>rf_request_id = RequestId rid, rf_response = r\<rparr> of
             Inl _ \<Rightarrow> (Inl ConnectionClosed, w\<lparr>wi_engine := s, wi_stream := Ended\<rparr>)
           | Inr _ \<Rightarrow>
               if nt_fault net rid = AnswerLost then (Inl ConnectionClosed, w\<lparr>wi_engine := s, wi_stream := Ended\<rparr>)
               else (Inr r, w\<lparr>wi_engine := s\<rparr>))
      | (_, s) \<Rightarrow> (Inl ConnectionClosed, w\<lparr>wi_engine := s, wi_stream := Ended\<rparr>))"

fun answer_of :: "client_error + response \<Rightarrow> response option" where
  "answer_of (Inl _) = None"
| "answer_of (Inr r) = Some r"

definition logged :: "'w action \<Rightarrow> response option \<Rightarrow> ('w, 'h, 'g) wire \<Rightarrow> ('w, 'h, 'g) wire" where
  "logged act x w = w\<lparr>wi_log := wi_log w @ [(act, x)]\<rparr>"

definition deliver ::
  "'w net \<Rightarrow> ('w, 'h, 'g) server \<Rightarrow> 'w action \<Rightarrow> ('w, 'h, 'g) wire \<Rightarrow> (client_error + response) \<times> ('w, 'h, 'g) wire" where
  "deliver net srv act w =
     (case (case posts net act w of (Inl e, w') \<Rightarrow> (Inl e, w') | (Inr rid, w') \<Rightarrow> arrives net srv rid act w') of
        (x, w') \<Rightarrow> (x, logged act (answer_of x) w'))"

text \<open>
  \<open>send\<close>: the same without waiting. Before the first request it does not use the stream: the task it
  spawns opens one of its own, on which the frame may be lost (\<open>Mux.sends_before_first_request\<close>); a
  client that has a device is past that.
\<close>

definition transmit :: "'w net \<Rightarrow> ('w, 'h, 'g) server \<Rightarrow> 'w action \<Rightarrow> ('w, 'h, 'g) wire \<Rightarrow> ('w, 'h, 'g) wire" where
  "transmit net srv act w =
     (if wi_stream w = Unopened then logged act None (w\<lparr>wi_next := wi_next w + 1\<rparr>) else snd (deliver net srv act w))"

definition served ::
  "'w net \<Rightarrow> ('w, 'h, 'g) server \<Rightarrow> bool \<Rightarrow> (bytes \<Rightarrow> string) \<Rightarrow> ('w, ('w, 'h, 'g) wire) link" where
  "served net srv oc dbg =
     \<lparr>lk_send = transmit net srv, lk_request = deliver net srv,
      lk_recordings = srv_recordings srv, lk_overflow_checks = oc, lk_debug_bytes = dbg\<rparr>"

definition issued_on :: "('w, 'h, 'g) wire \<Rightarrow> 'w action list" where
  "issued_on w = map fst (wi_log w)"

lemma posts_keeps:
  "posts net act w = (x, w') \<Longrightarrow> wi_log w' = wi_log w \<and> wi_engine w' = wi_engine w \<and> wi_next w' = wi_next w + 1"
  by (auto simp: posts_def Let_def split: sum.splits if_splits)

lemma arrives_keeps: "arrives net srv rid act w = (x, w') \<Longrightarrow> wi_log w' = wi_log w \<and> wi_next w' = wi_next w"
  by (auto simp: arrives_def split: sum.splits if_splits prod.splits flow.splits option.splits)

lemma deliver_log:
  assumes "deliver net srv act w = (x, w')"
  shows "wi_log w' = wi_log w @ [(act, answer_of x)]" "wi_next w' = wi_next w + 1"
  using assms
  by (auto simp: deliver_def logged_def dest!: posts_keeps arrives_keeps split: prod.splits sum.splits)

lemma issued_on_deliver: "issued_on (snd (deliver net srv act w)) = issued_on w @ [act]"
  using deliver_log(1) [of net srv act w "fst (deliver net srv act w)" "snd (deliver net srv act w)"]
  by (simp add: issued_on_def)

lemma issued_on_transmit: "issued_on (transmit net srv act w) = issued_on w @ [act]"
  by (simp add: transmit_def issued_on_deliver) (simp add: issued_on_def logged_def)

interpretation served_wire: recorder "served net srv oc dbg" issued_on for net srv oc dbg
  by unfold_locales (simp_all add: served_def issued_on_deliver issued_on_transmit)

text \<open>Opening a device on a fresh server.\<close>

definition fresh_client :: "'g \<Rightarrow> ('w, 'h, 'g) wire facade" where
  "fresh_client g =
     \<lparr>fa_client = \<lparr>wi_engine = new_engine g, wi_log = [], wi_stream = Unopened, wi_next = 1\<rparr>, fa_minters = [], fa_cells = []\<rparr>"

definition connect_device :: "('w, 'c) link \<Rightarrow> ('c facade, client_error, nat) step" where
  "connect_device lk = andThen (request_adapter lk) (\<lambda>_. request_device lk)"

subsection \<open>What the client can rely on\<close>

text \<open>
  An entry of the log without an answer is a frame that was not sent or not handled, or whose answer did
  not reach the client. What follows a create of this kind may be refused: the log is undisturbed up to it.
\<close>

definition no_error :: "('w action \<times> response option) list \<Rightarrow> bool" where
  "no_error log \<longleftrightarrow> (\<forall>r. Some r \<in> snd ` set log \<longrightarrow> \<not> is_error r)"

definition lost_create :: "'w action \<times> response option \<Rightarrow> bool" where
  "lost_create e \<longleftrightarrow> snd e = None \<and> creates (fst e) \<noteq> None"

definition intact :: "('w action \<times> response option) list \<Rightarrow> bool" where
  "intact log \<longleftrightarrow> (\<forall>e \<in> set log. \<not> lost_create e)"

definition undisturbed :: "('w action \<times> response option) list \<Rightarrow> ('w action \<times> response option) list" where
  "undisturbed log = takeWhile (\<lambda>e. \<not> lost_create e) log"

definition all_answered :: "('w action \<times> response option) list \<Rightarrow> bool" where
  "all_answered log \<longleftrightarrow> None \<notin> snd ` set log"

lemma all_answered_intact: "all_answered log \<Longrightarrow> intact log \<and> undisturbed log = log"
  by (force simp: all_answered_def intact_def undisturbed_def lost_create_def takeWhile_eq_all_conv)

lemma undisturbed_intact: "intact log \<Longrightarrow> undisturbed log = log"
  by (simp add: undisturbed_def intact_def takeWhile_eq_all_conv)

lemma undisturbed_snoc:
  "undisturbed (log @ [e]) = (if intact log \<and> \<not> lost_create e then log @ [e] else undisturbed log)"
  "intact (log @ [e]) \<longleftrightarrow> intact log \<and> \<not> lost_create e"
  by (auto simp: undisturbed_def intact_def takeWhile_append takeWhile_eq_all_conv [THEN iffD2])

lemma no_error_snoc: "no_error (log @ [(act, x)]) \<longleftrightarrow> no_error log \<and> (\<forall>r. x = Some r \<longrightarrow> \<not> is_error r)"
  by (auto simp: no_error_def)

lemma all_answered_snoc: "all_answered (log @ [(act, x)]) \<longleftrightarrow> all_answered log \<and> x \<noteq> None"
  by (auto simp: all_answered_def)

text \<open>The invariant of the composed system.\<close>

definition in_step :: "nat \<Rightarrow> ('w, 'h, 'g) wire facade \<Rightarrow> bool" where
  "in_step dev st \<longleftrightarrow>
     cells_ok dev st \<and> \<not> eng_poisoned (wi_engine (fa_client st)) \<and> no_error (undisturbed (wi_log (fa_client st)))
     \<and> (intact (wi_log (fa_client st)) \<longrightarrow> live st \<subseteq> known (wi_engine (fa_client st)))"

definition benign :: "('w, 'h, 'g) server \<Rightarrow> bool" where
  "benign srv \<longleftrightarrow> never_panics (srv_device srv) \<and> maps_succeed (srv_device srv) \<and> \<not> srv_overflow_checks srv
     \<and> bincode_ok (srv_recordings srv)"

text \<open>What an action has done, by its answer; without one, it may have been handled or not.\<close>

definition processed ::
  "('w, 'h, 'g) server \<Rightarrow> 'w action \<Rightarrow> response option \<Rightarrow> ('h, 'g) engine \<Rightarrow> ('h, 'g) engine \<Rightarrow> bool" where
  "processed srv act x s s' \<longleftrightarrow> \<not> eng_poisoned s'
     \<and> (case x of
          None \<Rightarrow> known s' = known s \<or> known s' = after act (known s)
        | Some r \<Rightarrow> (is_error r \<longleftrightarrow> \<not> acceptable srv (eng_tables s) act)
            \<and> known s' = (if is_error r then known s else after act (known s)))"

definition delivers ::
  "('w, 'h, 'g) server \<Rightarrow> 'w action \<Rightarrow> ('w, 'h, 'g) wire \<Rightarrow> ('w, 'h, 'g) wire \<Rightarrow> bool" where
  "delivers srv act w w' \<longleftrightarrow>
     (\<exists>x. wi_log w' = wi_log w @ [(act, x)] \<and> processed srv act x (wi_engine w) (wi_engine w'))"

lemma processed_same: "\<not> eng_poisoned s \<Longrightarrow> processed srv act None s s"
  by (simp add: processed_def)

lemma arrives_processed:
  assumes "benign srv" and "\<not> eng_poisoned (wi_engine w)" and "arrives net srv rid act w = (x, w')"
  shows "processed srv act (answer_of x) (wi_engine w) (wi_engine w')"
proof -
  obtain r s where run: "handle srv act (wi_engine w) = (Ret (Some r), s)" and ok: "\<not> eng_poisoned s"
    "is_error r \<longleftrightarrow> \<not> acceptable srv (eng_tables (wi_engine w)) act"
    using handle_acceptance [OF assms(2), of srv act] assms(1) by (auto simp: benign_def)
  have "known s = (if is_error r then known (wi_engine w) else after act (known (wi_engine w)))"
    using handle_outcome [OF run] by (auto simp: known_def)
  with run ok assms(2,3) show ?thesis
    by (auto simp: arrives_def processed_def split: if_splits sum.splits)
qed

lemma deliver_processed:
  assumes "benign srv" and "\<not> eng_poisoned (wi_engine w)" and "deliver net srv act w = (x, w')"
  shows "processed srv act (answer_of x) (wi_engine w) (wi_engine w')"
proof -
  obtain y w1 where p: "posts net act w = (y, w1)" by (rule prod.exhaust)
  have w1: "wi_engine w1 = wi_engine w" using posts_keeps [OF p] by simp
  show ?thesis
  proof (cases y)
    case (Inl e)
    then show ?thesis using assms(2,3) w1 by (auto simp: deliver_def p logged_def processed_same)
  next
    case (Inr rid)
    obtain z w2 where a: "arrives net srv rid act w1 = (z, w2)" by (rule prod.exhaust)
    then have "x = z" "wi_engine w' = wi_engine w2" using assms(3) by (auto simp: deliver_def p Inr logged_def)
    then show ?thesis using arrives_processed [OF assms(1) _ a] assms(2) w1 by simp
  qed
qed

lemma deliver_delivers:
  assumes "benign srv" and "\<not> eng_poisoned (wi_engine w)"
  shows "delivers srv act w (snd (deliver net srv act w))"
proof -
  obtain x w' where d: "deliver net srv act w = (x, w')" by (rule prod.exhaust)
  show ?thesis
    using deliver_log(1) [OF d] deliver_processed [OF assms d] by (auto simp: delivers_def d)
qed

lemma transmit_delivers:
  assumes "benign srv" and "\<not> eng_poisoned (wi_engine w)"
  shows "delivers srv act w (transmit net srv act w)"
  using deliver_delivers [OF assms] assms(2)
  by (simp add: transmit_def) (simp add: delivers_def logged_def processed_same)

lemma delivers_answered:
  assumes "delivers srv act w w'" and "wi_log w' = wi_log w @ [(act, Some r)]"
  shows "is_error r \<longleftrightarrow> \<not> acceptable srv (eng_tables (wi_engine w)) act"
    "known (wi_engine w') = (if is_error r then known (wi_engine w) else after act (known (wi_engine w)))"
  using assms by (auto simp: delivers_def processed_def)

lemma in_step_deliver:
  assumes "in_step dev st" and "delivers srv act (fa_client st) (fa_client st')"
    and "intact (wi_log (fa_client st)) \<Longrightarrow> acceptable srv (eng_tables (wi_engine (fa_client st))) act"
    and "cells_ok dev st'" and "live st' \<subseteq> after act (live st)" and "set_option (destroys act) \<inter> live st' = {}"
  shows "in_step dev st'"
proof -
  let ?log = "wi_log (fa_client st)" and ?K = "known (wi_engine (fa_client st))"
  obtain x where log: "wi_log (fa_client st') = ?log @ [(act, x)]"
    and p: "processed srv act x (wi_engine (fa_client st)) (wi_engine (fa_client st'))"
    using assms(2) by (auto simp: delivers_def)
  have ok: "\<not> eng_poisoned (wi_engine (fa_client st'))" using p by (simp add: processed_def)
  have old: "no_error (undisturbed ?log)" "intact ?log \<Longrightarrow> live st \<subseteq> ?K" using assms(1) by (simp_all add: in_step_def)
  show ?thesis
  proof (cases "intact ?log \<and> \<not> lost_create (act, x)")
    case False
    then show ?thesis using assms(4) ok old(1) by (auto simp: in_step_def log undisturbed_snoc)
  next
    case True
    have "live st' \<subseteq> known (wi_engine (fa_client st')) \<and> (\<forall>r. x = Some r \<longrightarrow> \<not> is_error r)"
    proof (cases x)
      case None
      then have "creates act = None" using True by (simp add: lost_create_def)
      then show ?thesis
        using None p old(2) True assms(5,6) by (auto simp: processed_def after_def)
    next
      case (Some r)
      then show ?thesis
        using p old(2) True assms(3,5,6) by (auto simp: processed_def after_def)
    qed
    then show ?thesis
      using True assms(4) ok old(1) by (auto simp: in_step_def log undisturbed_snoc undisturbed_intact no_error_snoc)
  qed
qed

lemma served_simps [simp]:
  "lk_send (served net srv oc dbg) = transmit net srv"
  "lk_request (served net srv oc dbg) = deliver net srv"
  "lk_recordings (served net srv oc dbg) = srv_recordings srv"
  "lk_overflow_checks (served net srv oc dbg) = oc"
  by (simp_all add: served_def)

text \<open>A call keeps the invariant, by what it issues.\<close>

lemma served_issues:
  assumes "issues (served net srv oc dbg) act st st'" and "benign srv" and "\<not> eng_poisoned (wi_engine (fa_client st))"
  shows "delivers srv act (fa_client st) (fa_client st')"
  using assms(1) transmit_delivers [OF assms(2,3)] deliver_delivers [OF assms(2,3)] by (auto simp: issues_def)

lemma in_step_call:
  assumes "in_step dev st" and "benign srv" and "call_ok (served net srv oc dbg) dev st st'"
  shows "in_step dev st'"
proof -
  let ?lk = "served net srv oc dbg"
  have ok: "cells_ok dev st'" using assms(3) by (simp add: call_ok_def)
  have sound: "\<not> eng_poisoned (wi_engine (fa_client st))" using assms(1) by (simp add: in_step_def)
  consider "fa_client st' = fa_client st" "live st' \<subseteq> live st" | act where "issues ?lk act st st'"
    using assms(3) by (auto simp: call_ok_def)
  then show ?thesis
  proof cases
    case 1
    then show ?thesis using assms(1) ok by (auto simp: in_step_def)
  next
    case (2 act)
    have "acceptable srv (eng_tables (wi_engine (fa_client st))) act" if "intact (wi_log (fa_client st))"
      using 2 assms(1) that by (auto simp: issues_def in_step_def acceptable_iff)
    then show ?thesis
      using in_step_deliver [OF assms(1) served_issues [OF 2 assms(2) sound] _ ok] 2 by (simp add: issues_def)
  qed
qed

lemma in_step_step:
  assumes "in_step dev st" and "benign srv" and "op_allowed op dev st" and "minted dev st < id_capacity"
  shows "in_step dev (facade_step (served net srv oc dbg) dev op st)"
proof (rule in_step_call [OF assms(1,2)])
  show "call_ok (served net srv oc dbg) dev st (facade_step (served net srv oc dbg) dev op st)"
    using assms by (intro allowed_call) (simp_all add: in_step_def benign_def)
qed

lemma minted_step:
  assumes "in_step dev st" and "benign srv" and "op_allowed op dev st" and "minted dev st < id_capacity"
  shows "minted dev (facade_step (served net srv oc dbg) dev op st) \<le> Suc (minted dev st)"
  using allowed_call [of dev st op "served net srv oc dbg"] assms by (simp add: in_step_def benign_def call_ok_def)

lemma in_step_drop:
  assumes "in_step dev st" and "benign srv" and "a < length (fa_cells st)" and "0 < cell_count (fa_cells st ! a)"
  shows "in_step dev (drop_cell (served net srv oc dbg) a st)"
proof (rule in_step_call [OF assms(1,2)])
  show "call_ok (served net srv oc dbg) dev st (drop_cell (served net srv oc dbg) a st)"
    using assms by (intro call_ok_drop) (simp_all add: in_step_def)
qed

lemma in_step_clone:
  assumes "in_step dev st" and "a < length (fa_cells st)" and "0 < cell_count (fa_cells st ! a)"
  shows "in_step dev (clone_cell a st)"
proof -
  have ok: "cells_ok dev st" using assms(1) by (simp add: in_step_def)
  have "cells_ok dev (clone_cell a st)" "live (clone_cell a st) \<subseteq> live st"
    using set_count_sets(2) [OF ok assms(2) refl, of "cell_count (fa_cells st ! a) + 1"] assms(2,3) ok
    by (auto simp: live_nth clone_cell_eq cells_ok_set_count)
  then show ?thesis using assms(1) by (auto simp: in_step_def clone_cell_eq)
qed

subsection \<open>What a call does to the wire\<close>

inductive wire_step :: "'w net \<Rightarrow> ('w, 'h, 'g) server \<Rightarrow> ('w, 'h, 'g) wire \<Rightarrow> ('w, 'h, 'g) wire \<Rightarrow> bool" for net srv where
  requested: "wire_step net srv w (snd (deliver net srv act w))"
| sent: "wire_step net srv w (transmit net srv act w)"

text \<open>Steps of the client that use the wire only to request and to send.\<close>

definition wired :: "'w net \<Rightarrow> ('w, 'h, 'g) server \<Rightarrow> (('w, 'h, 'g) wire facade \<Rightarrow> ('w, 'h, 'g) wire facade) \<Rightarrow> bool" where
  "wired net srv f \<longleftrightarrow> (\<forall>st. (wire_step net srv)\<^sup>*\<^sup>* (fa_client st) (fa_client (f st)))"

lemma wired_facade_step: "wired net srv (facade_step (served net srv oc dbg) dev op)"
  unfolding wired_def
proof
  fix st :: "('a, 'b, 'c) wire facade"
  show "(wire_step net srv)\<^sup>*\<^sup>* (fa_client st) (fa_client (facade_step (served net srv oc dbg) dev op st))"
    using call_on_client [of "served net srv oc dbg" dev op st] by (auto simp: r_into_rtranclp requested sent)
qed

lemma wire_step_log: "wire_step net srv w w' \<Longrightarrow> \<exists>act x. wi_log w' = wi_log w @ [(act, x)]"
proof (induction rule: wire_step.induct)
  case (requested w act)
  then show ?case using deliver_log(1) [of net srv act w] by (cases "deliver net srv act w") auto
next
  case (sent w act)
  then show ?case using deliver_log(1) [of net srv act w]
    by (cases "deliver net srv act w") (auto simp: transmit_def logged_def)
qed

lemma wire_run_log: "(wire_step net srv)\<^sup>*\<^sup>* w w' \<Longrightarrow> \<exists>log. wi_log w' = wi_log w @ log"
proof (induction rule: rtranclp_induct)
  case (step w1 w2)
  then show ?case using wire_step_log [OF step.hyps(2)] by auto
qed simp

lemma wire_run_answered:
  assumes "(wire_step net srv)\<^sup>*\<^sup>* w w'" and "all_answered (wi_log w')"
  shows "all_answered (wi_log w)"
  using wire_run_log [OF assms(1)] assms(2) by (auto simp: all_answered_def)

text \<open>On a transport that works, with frames and responses that fit, every action is answered.\<close>

definition dependable :: "'w net \<Rightarrow> bool" where
  "dependable net \<longleftrightarrow> (\<forall>f. \<exists>b. encode_frame (cc_frames (nt_codec net)) f = Inr b)
     \<and> (\<forall>f. \<exists>b. encode_frame (cc_responses (nt_codec net)) f = Inr b) \<and> (\<forall>rid. nt_fault net rid = Works)"

definition working :: "('w, 'h, 'g) wire \<Rightarrow> bool" where
  "working w \<longleftrightarrow> wi_stream w = Opened \<and> \<not> eng_poisoned (wi_engine w) \<and> all_answered (wi_log w)"

lemma dependable_deliver:
  assumes "dependable net" and "wi_stream w \<noteq> Ended" and "handle srv act (wi_engine w) = (Ret (Some r), s)"
  shows "deliver net srv act w =
    (Inr r, w\<lparr>wi_engine := s, wi_log := wi_log w @ [(act, Some r)], wi_stream := Opened, wi_next := wi_next w + 1\<rparr>)"
proof -
  obtain b where b: "encode_frame (cc_frames (nt_codec net)) \<lparr>fr_request_id = Some (RequestId (wi_next w)), fr_action = act\<rparr> = Inr b"
    using assms(1) unfolding dependable_def by blast
  obtain b' where b': "encode_frame (cc_responses (nt_codec net)) \<lparr>rf_request_id = RequestId (wi_next w), rf_response = r\<rparr> = Inr b'"
    using assms(1) unfolding dependable_def by blast
  show ?thesis
    using assms b b' by (cases "wi_stream w") (simp_all add: deliver_def posts_def arrives_def logged_def dependable_def Let_def)
qed

lemma working_step:
  assumes "dependable net" and "benign srv" and "working w" and "wire_step net srv w w'"
  shows "working w'"
proof -
  have w: "wi_stream w = Opened" "\<not> eng_poisoned (wi_engine w)" using assms(3) by (simp_all add: working_def)
  have kept: "working (snd (deliver net srv act w))" for act
  proof -
    obtain r s where run: "handle srv act (wi_engine w) = (Ret (Some r), s)" and ok: "\<not> eng_poisoned s"
      using handle_acceptance [OF w(2), of srv act] assms(2) by (auto simp: benign_def)
    show ?thesis
      using dependable_deliver [OF assms(1) _ run] w(1) ok assms(3) by (simp add: working_def all_answered_snoc)
  qed
  from assms(4) show ?thesis by cases (simp_all add: kept transmit_def w(1))
qed

lemma working_run: "(wire_step net srv)\<^sup>*\<^sup>* w w' \<Longrightarrow> dependable net \<Longrightarrow> benign srv \<Longrightarrow> working w \<Longrightarrow> working w'"
  by (induction rule: rtranclp_induct) (auto intro: working_step)

lemma wired_run: "(wire_step net srv)\<^sup>*\<^sup>* (fa_client st) (fa_client (facade_run (served net srv oc dbg) dev ops st))"
proof (induction ops arbitrary: st)
  case (Cons op ops)
  show ?case
    using rtranclp_trans [OF wired_facade_step [of net srv oc dbg dev op, unfolded wired_def, rule_format] Cons]
    by (simp add: facade_run_def)
qed (simp add: facade_run_def)

text \<open>A program of the facade is a run whose budget is the ids.\<close>

interpretation served_program: budgeted
  "\<lambda>n st. benign srv \<and> in_step dev st \<and> minted dev st \<le> n" "\<lambda>op. op_allowed op dev" "facade_step (served net srv oc dbg) dev" id_capacity
  for net srv oc dbg dev
proof
  fix n and op :: "'a facade_op" and st :: "('a, 'b, 'c) wire facade"
  assume "benign srv \<and> in_step dev st \<and> minted dev st \<le> n" and "op_allowed op dev st" and "n < id_capacity"
  then show "benign srv \<and> in_step dev (facade_step (served net srv oc dbg) dev op st)
      \<and> minted dev (facade_step (served net srv oc dbg) dev op st) \<le> Suc n"
    using in_step_step [of dev st srv op net oc dbg] minted_step [of dev st srv op net oc dbg] by simp
qed

lemma in_step_run:
  assumes "in_step dev st" and "benign srv" and "all_allowed (served net srv oc dbg) dev ops st"
    and "minted dev st + length ops \<le> id_capacity"
  shows "in_step dev (facade_run (served net srv oc dbg) dev ops st)"
  using served_program.run_keeps_ok [OF _ assms(3,4)] assms(1,2) by (simp add: facade_run_def)

end
