(* ===== verification/Client_Properties.thy ===== *)
theory Client_Properties
  imports Composed
begin

section \<open>Properties of client programs\<close>

text \<open>
  The theorems about the facade, alone and connected to the engine: the handshake, recordings, ranges,
  the destruction of resources, programs whose handles are alive, and the two ways in which a program
  loses a buffer it still uses.
\<close>

subsection \<open>The handshake\<close>

lemma deliver_Inr:
  assumes "deliver net srv act w = (Inr r, w')"
  shows "\<exists>s. handle srv act (wi_engine w) = (Ret (Some r), s)
    \<and> w' = w\<lparr>wi_engine := s, wi_log := wi_log w @ [(act, Some r)], wi_stream := Opened, wi_next := wi_next w + 1\<rparr>"
  using assms
  by (cases "wi_stream w")
    (auto simp: deliver_def posts_def arrives_def logged_def Let_def
      split: sum.splits if_splits prod.splits flow.splits option.splits)

lemma deliver_Inl:
  assumes "deliver net srv act w = (Inl e, w')" and "\<And>r s. handle srv act (wi_engine w) = (r, s) \<Longrightarrow> s = wi_engine w"
  shows "wi_engine w' = wi_engine w \<and> wi_log w' = wi_log w @ [(act, None)]"
  using assms(1) assms(2) [of "fst (handle srv act (wi_engine w))"]
  by (auto simp: deliver_def posts_def arrives_def logged_def Let_def
      split: sum.splits if_splits prod.splits flow.splits option.splits)

text \<open>What the engine says to the requests of the handshake.\<close>

fun greets :: "'w action \<Rightarrow> response option" where
  "greets (Hello v) = (if v = PROTOCOL_VERSION then Some (HelloAck PROTOCOL_VERSION) else None)"
| "greets RequestAdapter = Some RespOk"
| "greets (RequestDevice None) = Some RespOk"
| "greets _ = None"

lemma handle_greets: "greets act = Some r \<Longrightarrow> handle srv act s = (Ret (Some r), s)"
  by (cases act rule: greets.cases) (auto simp: handle_def hello_def answer_def andThen_def split: if_splits)

text \<open>The log of requests of the handshake: those that were answered got what the engine says.\<close>

definition greetings :: "('w action \<times> response option) list \<Rightarrow> bool" where
  "greetings log \<longleftrightarrow> (\<forall>(act, x) \<in> set log. greets act \<noteq> None \<and> (x = None \<or> x = greets act))"

lemma greetings_simps [simp]:
  "greetings []" "greetings (log @ log') \<longleftrightarrow> greetings log \<and> greetings log'"
  "greetings [(act, x)] \<longleftrightarrow> greets act \<noteq> None \<and> (x = None \<or> x = greets act)"
  by (auto simp: greetings_def)

lemma greets_harmless: "greets act = Some r \<Longrightarrow> creates act = None \<and> \<not> is_error r"
  by (cases act rule: greets.cases) (auto split: if_splits)

lemma greetings_harmless:
  assumes "greetings log"
  shows "no_error log" "intact log" "undisturbed log = log"
proof -
  show "no_error log" using assms by (fastforce simp: greetings_def no_error_def dest: greets_harmless)
  show "intact log" using assms by (fastforce simp: greetings_def intact_def lost_create_def dest: greets_harmless)
  then show "undisturbed log = log" by (rule undisturbed_intact)
qed

text \<open>A request of the handshake changes nothing but the log.\<close>

definition only_greets :: "('w, 'h, 'g) wire facade \<Rightarrow> ('w, 'h, 'g) wire facade \<Rightarrow> bool" where
  "only_greets st st' \<longleftrightarrow> wi_engine (fa_client st') = wi_engine (fa_client st) \<and> fa_cells st' = fa_cells st
     \<and> (\<exists>log. greetings log \<and> wi_log (fa_client st') = wi_log (fa_client st) @ log)"

lemma only_greets_trans: "only_greets st st' \<Longrightarrow> only_greets st' st'' \<Longrightarrow> only_greets st st''"
  unfolding only_greets_def by (metis append_assoc greetings_simps(2))

lemma request_on_greets:
  assumes "request_on (served net srv oc dbg) act st = (r, st')" and "greets act = Some x"
  shows "only_greets st st'" "fa_minters st' = fa_minters st"
    "(\<exists>e. r = Fail e) \<and> \<not> all_answered (wi_log (fa_client st')) \<or> (r = Ret x \<and> st' = st\<lparr>fa_client := (fa_client st)\<lparr>
        wi_log := wi_log (fa_client st) @ [(act, Some x)], wi_stream := Opened, wi_next := wi_next (fa_client st) + 1\<rparr>\<rparr>)"
proof -
  have handled: "handle srv act s = (Ret (Some x), s)" for s using assms(2) by (rule handle_greets)
  obtain y w where d: "deliver net srv act (fa_client st) = (y, w)" by (rule prod.exhaust)
  then have st': "st' = st\<lparr>fa_client := w\<rparr>" and r: "r = (case y of Inl e \<Rightarrow> Fail e | Inr z \<Rightarrow> Ret z)"
    using assms(1) by (auto simp: request_on_def split: sum.splits)
  then show "fa_minters st' = fa_minters st" by simp
  show "(\<exists>e. r = Fail e) \<and> \<not> all_answered (wi_log (fa_client st')) \<or> (r = Ret x \<and> st' = st\<lparr>fa_client := (fa_client st)\<lparr>
        wi_log := wi_log (fa_client st) @ [(act, Some x)], wi_stream := Opened, wi_next := wi_next (fa_client st) + 1\<rparr>\<rparr>)"
    using d r st' handled deliver_log(1) [OF d] by (cases y) (auto dest!: deliver_Inr simp: all_answered_def)
  show "only_greets st st'"
  proof (cases y)
    case (Inl e)
    then show ?thesis using d st' handled assms(2) by (auto simp: only_greets_def dest!: deliver_Inl)
  next
    case (Inr z)
    then show ?thesis using d st' handled assms(2) by (auto simp: only_greets_def dest!: deliver_Inr)
  qed
qed

lemma request_adapter_greets:
  assumes "request_adapter (served net srv oc dbg) st = (r, st')"
  shows "only_greets st st'" "fa_minters st' = fa_minters st"
    "(\<exists>e. r = Fail e) \<and> \<not> all_answered (wi_log (fa_client st')) \<or> (r = Ret () \<and> st' = st\<lparr>fa_client := (fa_client st)\<lparr>
        wi_log := wi_log (fa_client st) @ [(Hello PROTOCOL_VERSION, Some (HelloAck PROTOCOL_VERSION)), (RequestAdapter, Some RespOk)],
        wi_stream := Opened, wi_next := wi_next (fa_client st) + 2\<rparr>\<rparr>)"
proof -
  obtain r1 st1 where h: "request_on (served net srv oc dbg) (Hello PROTOCOL_VERSION) st = (r1, st1)" by (rule prod.exhaust)
  obtain r2 st2 where a: "request_on (served net srv oc dbg) RequestAdapter st1 = (r2, st2)" by (rule prod.exhaust)
  note hello = request_on_greets [OF h, of "HelloAck PROTOCOL_VERSION"] and adapter = request_on_greets [OF a, of RespOk]
  note run = assms [unfolded request_adapter_def andThen_def h]
  show "only_greets st st'" "fa_minters st' = fa_minters st"
    "(\<exists>e. r = Fail e) \<and> \<not> all_answered (wi_log (fa_client st')) \<or> (r = Ret () \<and> st' = st\<lparr>fa_client := (fa_client st)\<lparr>
        wi_log := wi_log (fa_client st) @ [(Hello PROTOCOL_VERSION, Some (HelloAck PROTOCOL_VERSION)), (RequestAdapter, Some RespOk)],
        wi_stream := Opened, wi_next := wi_next (fa_client st) + 2\<rparr>\<rparr>)"
    using run hello adapter a
    by (auto simp: expect_ok_def intro: only_greets_trans split: flow.splits)
qed

lemma request_device_greets:
  assumes "request_device (served net srv oc dbg) st = (r, st')"
  shows "only_greets st st'"
    "(\<exists>e. r = Fail e) \<and> fa_minters st' = fa_minters st \<and> \<not> all_answered (wi_log (fa_client st'))
     \<or> r = Ret (length (fa_minters st)) \<and> st' = st\<lparr>fa_minters := fa_minters st @ [new_minter], fa_client := (fa_client st)\<lparr>
        wi_log := wi_log (fa_client st) @ [(RequestDevice None, Some RespOk)],
        wi_stream := Opened, wi_next := wi_next (fa_client st) + 1\<rparr>\<rparr>"
proof -
  obtain r1 st1 where d: "request_on (served net srv oc dbg) (RequestDevice None) st = (r1, st1)" by (rule prod.exhaust)
  note device = request_on_greets [OF d, of RespOk]
  note run = assms [unfolded request_device_def andThen_def d]
  show "only_greets st st'"
    using run device by (auto simp: expect_ok_def only_greets_def split: flow.splits)
  show "(\<exists>e. r = Fail e) \<and> fa_minters st' = fa_minters st \<and> \<not> all_answered (wi_log (fa_client st'))
     \<or> r = Ret (length (fa_minters st)) \<and> st' = st\<lparr>fa_minters := fa_minters st @ [new_minter], fa_client := (fa_client st)\<lparr>
        wi_log := wi_log (fa_client st) @ [(RequestDevice None, Some RespOk)],
        wi_stream := Opened, wi_next := wi_next (fa_client st) + 1\<rparr>\<rparr>"
    using run device by (auto simp: expect_ok_def split: flow.splits)
qed

text \<open>The handshake, on any wire: it only adds its three requests to the log, and when it succeeds the
  stream is open, and the device has a fresh minter.\<close>

lemma connect_device_greets:
  assumes "connect_device (served net srv oc dbg) st = (r, st')"
  shows "only_greets st st'"
    "(\<exists>e. r = Fail e) \<and> fa_minters st' = fa_minters st \<and> \<not> all_answered (wi_log (fa_client st'))
     \<or> r = Ret (length (fa_minters st)) \<and> st' = st\<lparr>fa_minters := fa_minters st @ [new_minter], fa_client := (fa_client st)\<lparr>
        wi_log := wi_log (fa_client st) @ [(Hello PROTOCOL_VERSION, Some (HelloAck PROTOCOL_VERSION)), (RequestAdapter, Some RespOk),
          (RequestDevice None, Some RespOk)],
        wi_stream := Opened, wi_next := wi_next (fa_client st) + 3\<rparr>\<rparr>"
proof -
  obtain r1 st1 where a: "request_adapter (served net srv oc dbg) st = (r1, st1)" by (rule prod.exhaust)
  obtain r2 st2 where d: "request_device (served net srv oc dbg) st1 = (r2, st2)" by (rule prod.exhaust)
  note run = assms [unfolded connect_device_def andThen_def a] and adapter = request_adapter_greets [OF a]
    and device = request_device_greets [OF d]
  show "only_greets st st'"
    using run adapter(1,3) device(1) d by (auto intro: only_greets_trans split: flow.splits)
  show "(\<exists>e. r = Fail e) \<and> fa_minters st' = fa_minters st \<and> \<not> all_answered (wi_log (fa_client st'))
     \<or> r = Ret (length (fa_minters st)) \<and> st' = st\<lparr>fa_minters := fa_minters st @ [new_minter], fa_client := (fa_client st)\<lparr>
        wi_log := wi_log (fa_client st) @ [(Hello PROTOCOL_VERSION, Some (HelloAck PROTOCOL_VERSION)), (RequestAdapter, Some RespOk),
          (RequestDevice None, Some RespOk)],
        wi_stream := Opened, wi_next := wi_next (fa_client st) + 3\<rparr>\<rparr>"
    using run adapter(2,3) device(2) d by (auto split: flow.splits)
qed

text \<open>A client that has got its first device from a fresh server.\<close>

lemma connected:
  assumes "connect_device (served net srv oc dbg) (fresh_client g) = (Ret dev, st)"
  shows "dev = 0"
    "st = \<lparr>fa_client = \<lparr>wi_engine = new_engine g,
         wi_log = [(Hello PROTOCOL_VERSION, Some (HelloAck PROTOCOL_VERSION)), (RequestAdapter, Some RespOk),
           (RequestDevice None, Some RespOk)], wi_stream = Opened, wi_next = 4\<rparr>,
       fa_minters = [new_minter], fa_cells = []\<rparr>"
  using connect_device_greets(2) [OF assms] by (simp_all add: fresh_client_def)

lemma connected_state:
  assumes "connect_device (served net srv oc dbg) (fresh_client g) = (Ret dev, st)"
  shows "fa_minters st = [new_minter]" "fa_cells st = []" "wi_engine (fa_client st) = new_engine g"
    "minted 0 st = 0" "cells_ok 0 st" "live st = {}" "dead st = {}" "in_step 0 st"
    "destroyed (issued_on (fa_client st)) = []"
  using greetings_harmless [of "wi_log (fa_client st)"]
  by (simp_all add: connected(2) [OF assms] minted_def mints_used_def new_minter_def cells_ok_def live_def dead_def
      in_step_def new_engine_def no_error_def issued_on_def greetings_def)

lemma run_budget: "connect_device (served net srv oc dbg) (fresh_client g) = (Ret dev, st) \<Longrightarrow> length ops < 2 ^ 64 \<Longrightarrow>
    minted 0 st + length ops \<le> id_capacity"
  by (simp add: connected_state(4) id_capacity_def)

text \<open>The handshake. Connecting a device to a fresh server, whatever its wgpu device does, makes at most
  three requests, \<open>Hello\<close> with the client's protocol version, \<open>RequestAdapter\<close> and \<open>RequestDevice\<close>; the
  engine accepts them all and stays as it was. It succeeds when all three are answered, and yields a
  device with a fresh minter; otherwise it fails with the error of the request that was not.\<close>

theorem handshake_succeeds:
  assumes "connect_device (served net srv oc dbg) (fresh_client g) = (r, st)"
  shows "wi_engine (fa_client st) = new_engine g \<and> greetings (wi_log (fa_client st))
    \<and> ((\<exists>e. r = Fail e) \<and> fa_minters st = [] \<and> \<not> all_answered (wi_log (fa_client st))
       \<or> r = Ret 0 \<and> fa_minters st = [new_minter] \<and> all_answered (wi_log (fa_client st)))"
  using connect_device_greets [OF assms] by (auto simp: only_greets_def fresh_client_def all_answered_def)

subsection \<open>Programs\<close>

text \<open>C7: programs that keep their handles get no errors. On a device that does not panic and whose
  maps succeed, over fewer than \<open>2\<^sup>6\<^sup>4\<close> calls, when every call and every submitted recording only
  names resources that have a live handle when it is made (and shaders are WGSL, bindings are not
  arrays), no answer the server gives is an error, although the client waits for none of its creates,
  up to the first create that is lost: whose frame does not encode, or which is made when the stream has
  ended, by a readback too large for a frame, say, or a fault of the transport. When no create was
  lost, whatever else was, every resource with a live handle is known to the server at the end.\<close>

theorem live_programs_get_no_errors:
  assumes "benign srv" and "connect_device (served net srv oc dbg) (fresh_client g) = (Ret dev, st0)"
    and "all_allowed (served net srv oc dbg) dev ops st0" and "length ops < 2 ^ 64"
    and "st = facade_run (served net srv oc dbg) dev ops st0"
  shows "no_error (undisturbed (wi_log (fa_client st)))
    \<and> (intact (wi_log (fa_client st)) \<longrightarrow> live st \<subseteq> known (wi_engine (fa_client st)))"
  using in_step_run [OF connected_state(8) [OF assms(2)] assms(1) _ run_budget [OF assms(2,4)]] assms(3,5)
  by (simp add: in_step_def connected(1) [OF assms(2)])

text \<open>C11: a resource is destroyed exactly once, when its last handle is dropped. Over any program of
  fewer than \<open>2\<^sup>6\<^sup>4\<close> calls that clones and drops only handles it holds, whatever the server and the
  transport do, the resources for which a \<open>Destroy\<close> was issued are those whose handles have all been
  dropped, and each was issued once.\<close>

theorem destroyed_with_last_handle:
  assumes "connect_device (served net srv oc dbg) (fresh_client g) = (Ret dev, st0)"
    and "disciplined (served net srv oc dbg) dev ops st0" and "length ops < 2 ^ 64"
    and "st = facade_run (served net srv oc dbg) dev ops st0"
  shows "distinct (destroyed (issued_on (fa_client st))) \<and> set (destroyed (issued_on (fa_client st))) = dead st"
proof -
  have dev: "dev = 0" by (rule connected(1) [OF assms(1)])
  have "served_wire.accounted 0 st0"
    using connected_state [OF assms(1)] by (simp add: served_wire.accounted_def)
  from served_wire.accounted_run [OF this assms(2) [unfolded dev] run_budget [OF assms(1,3)]] show ?thesis
    by (simp add: served_wire.accounted_def assms(4) dev)
qed

subsection \<open>Recordings do not keep resources alive\<close>

text \<open>A submission of a recording that names what the server does not know is refused.\<close>

lemma not_acceptable_submit:
  assumes "bincode_ok (srv_recordings srv)" and "r \<notin> known s"
    and "cb \<in> set cbs" and "r \<in> set (recording_refs (into_recording cb))"
    and "collect_res (\<lambda>cb. encode_recording (srv_recordings srv) (into_recording cb)) cbs = Inr payloads"
  shows "\<not> acceptable srv (eng_tables s) (Submit payloads)"
proof -
  have decoded: "list_all2 (\<lambda>cb b. decode_recording (srv_recordings srv) b = Inr (into_recording cb)) cbs payloads"
    by (rule submitted_payloads [OF assms(1,5)])
  obtain j where j: "j < length cbs" "cbs ! j = cb" using assms(3) by (auto simp: in_set_conv_nth)
  define b where "b = payloads ! j"
  have b: "b \<in> set payloads" "decode_recording (srv_recordings srv) b = Inr (into_recording cb)"
    using decoded j by (auto simp: list_all2_conv_all_nth b_def)
  have "\<not> submittable srv (eng_tables s) b"
    using assms(2,4) b(2) by (auto simp: submittable_def known_def list_all_iff intro!: bexI [of _ r])
  then show ?thesis using b(1) by (auto simp: acceptable_def list_all_iff)
qed

text \<open>An action that was answered, with what the answer tells.\<close>

lemma answered_action:
  assumes "benign srv" and "\<not> eng_poisoned (wi_engine w)" and "all_answered (wi_log (transmit net srv act w))"
  obtains r where "wi_log (transmit net srv act w) = wi_log w @ [(act, Some r)]" and "all_answered (wi_log w)"
    and "is_error r \<longleftrightarrow> \<not> acceptable srv (eng_tables (wi_engine w)) act"
    and "known (wi_engine (transmit net srv act w)) = (if is_error r then known (wi_engine w) else after act (known (wi_engine w)))"
    and "\<not> eng_poisoned (wi_engine (transmit net srv act w))"
proof -
  note d = transmit_delivers [OF assms(1,2), where net = net and act = act]
  obtain x where x: "wi_log (transmit net srv act w) = wi_log w @ [(act, x)]"
    and p: "processed srv act x (wi_engine w) (wi_engine (transmit net srv act w))"
    using d by (auto simp: delivers_def)
  obtain r where "x = Some r" using assms(3) by (auto simp: x all_answered_snoc)
  with x p assms(3) show ?thesis by (intro that [of r]) (auto simp: processed_def all_answered_snoc)
qed

text \<open>C10: dropping a buffer before the submission that uses it makes the submission fail. After any
  program whose handles are alive, when the last handle of a buffer is dropped and then command buffers
  are submitted of which one names it, the \<open>Destroy\<close> overtakes the \<open>Submit\<close>, and the server answers the
  submission with an error, if nothing was lost on the way.\<close>

theorem dropped_buffer_breaks_submit:
  assumes "benign srv" and "connect_device (served net srv oc dbg) (fresh_client g) = (Ret dev, st0)"
    and "all_allowed (served net srv oc dbg) dev ops st0" and "length ops < 2 ^ 64"
    and "st = facade_run (served net srv oc dbg) dev ops st0"
    and "a < length (fa_cells st)" and "fa_cells st ! a = \<lparr>cell_resource = RBuffer i, cell_count = 1\<rparr>"
    and "cb \<in> set cbs" and "RBuffer i \<in> set (recording_refs (into_recording cb))"
    and "collect_res (\<lambda>cb. encode_recording (srv_recordings srv) (into_recording cb)) cbs = Inr payloads"
    and "st' = facade_run (served net srv oc dbg) dev [OpDrop a, OpSubmit cbs] st"
    and "all_answered (wi_log (fa_client st'))"
  shows "\<exists>r. last (wi_log (fa_client st')) = (Submit payloads, Some r) \<and> is_error r"
proof -
  let ?lk = "served net srv oc dbg"
  have st: "in_step 0 st"
    using in_step_run [OF connected_state(8) [OF assms(2)] assms(1) _ run_budget [OF assms(2,4)]] assms(3,5)
    by (simp add: connected(1) [OF assms(2)])
  then have sound: "\<not> eng_poisoned (wi_engine (fa_client st))" by (simp add: in_step_def)
  let ?w1 = "transmit net srv (Destroy (RBuffer i)) (fa_client st)"
  have w: "fa_client st' = transmit net srv (Submit payloads) ?w1"
    using assms(7,10) by (simp add: assms(11) facade_run_def drop_cell_eq send_on_def queue_submit_def)
  have sound1: "\<not> eng_poisoned (wi_engine ?w1)"
    using transmit_delivers [OF assms(1) sound] by (auto simp: delivers_def processed_def)
  obtain r where r: "wi_log (fa_client st') = wi_log ?w1 @ [(Submit payloads, Some r)]" "all_answered (wi_log ?w1)"
    "is_error r \<longleftrightarrow> \<not> acceptable srv (eng_tables (wi_engine ?w1)) (Submit payloads)"
    using answered_action [OF assms(1) sound1] assms(12) unfolding w by metis
  have "RBuffer i \<notin> known (wi_engine ?w1)"
    by (rule answered_action [OF assms(1) sound r(2)]) (auto simp: acceptable_def after_def)
  then have "is_error r"
    using r(3) not_acceptable_submit [OF _ _ assms(8,9,10)] assms(1) by (simp add: benign_def)
  with r(1) show ?thesis by simp
qed

subsection \<open>Two devices\<close>

text \<open>Two devices of one connection mint the same ids. After a second \<open>request_device\<close> on a fresh
  connection, creating a buffer on each device gives two handles with one id; dropping the first
  removes from the server the buffer the second handle, still alive, names.\<close>

theorem second_device_collides:
  assumes "benign srv" and "connect_device (served net srv oc dbg) (fresh_client g) = (Ret dev0, st0)"
    and "request_device (served net srv oc dbg) st0 = (Ret dev, st1)"
    and "create_buffer_on (served net srv oc dbg) dev0 desc1 st1 = (b1, st2)"
    and "create_buffer_on (served net srv oc dbg) dev desc2 st2 = (b2, st3)"
    and "st4 = drop_handle (served net srv oc dbg) b1 st3" and "all_answered (wi_log (fa_client st4))"
  shows "hd_id b1 = hd_id b2 \<and> hd_cell b1 \<noteq> hd_cell b2
    \<and> RBuffer (hd_id b2) \<in> live st4 \<and> RBuffer (hd_id b2) \<notin> known (wi_engine (fa_client st4))"
proof -
  let ?i = "Id 1 :: buffer_id" and ?cell = "\<lambda>n. \<lparr>cell_resource = RBuffer (Id 1), cell_count = n\<rparr>"
  have st1: "dev0 = 0" "dev = 1" "fa_minters st1 = [new_minter, new_minter]" "fa_cells st1 = []"
    "wi_engine (fa_client st1) = new_engine g"
    using request_device_greets(2) [OF assms(3)] connected [OF assms(2)] connected_state [OF assms(2)] by auto
  have id: "mint_buffer new_minter = (?i, new_minter\<lparr>next_buffer := 1\<rparr>)"
    by (simp add: mint_defs new_minter_def new_id_def)
  have b1: "b1 = \<lparr>hd_cell = 0, hd_id = ?i, buf_size = bd_size desc1\<rparr>"
    and st2: "fa_client st2 = transmit net srv (CreateBuffer ?i desc1) (fa_client st1)"
      "fa_cells st2 = [?cell 1]" "fa_minters st2 = [new_minter\<lparr>next_buffer := 1\<rparr>, new_minter]"
    using assms(4) by (auto simp: create_buffer_on_def mint_with_def st1 id new_handle_defs send_on_def)
  have b2: "b2 = \<lparr>hd_cell = 1, hd_id = ?i, buf_size = bd_size desc2\<rparr>"
    and st3: "fa_client st3 = transmit net srv (CreateBuffer ?i desc2) (fa_client st2)" "fa_cells st3 = [?cell 1, ?cell 1]"
    using assms(5) by (auto simp: create_buffer_on_def mint_with_def st1(2) st2 id new_handle_defs send_on_def)
  have st4: "fa_cells st4 = [?cell 0, ?cell 1]" "fa_client st4 = transmit net srv (Destroy (RBuffer ?i)) (fa_client st3)"
    by (simp_all add: assms(6) drop_handle_def b1 drop_cell_def st3(2) spawn_destroy_def send_on_def)
  have keeps: "\<not> eng_poisoned (wi_engine (transmit net srv act w))" if "\<not> eng_poisoned (wi_engine w)" for act w
    using transmit_delivers [OF assms(1) that] by (auto simp: delivers_def processed_def)
  have "\<not> eng_poisoned (wi_engine (fa_client st1))" by (simp add: st1(5) new_engine_def)
  then have sound: "\<not> eng_poisoned (wi_engine (fa_client st3))" by (simp add: st3(1) st2(1) keeps)
  have "RBuffer ?i \<notin> known (wi_engine (fa_client st4))"
    unfolding st4(2) by (rule answered_action [OF assms(1) sound assms(7) [unfolded st4(2)]]) (auto simp: acceptable_def after_def)
  moreover have "RBuffer ?i \<in> live st4"
    by (auto simp: live_def st4(1) intro!: exI [of _ "?cell 1"])
  ultimately show ?thesis by (simp add: b1 b2)
qed

subsection \<open>Recordings and ranges\<close>

text \<open>C12: what is recorded is what the server decodes. Scripts of calls on encoders, with their passes,
  recorded and submitted together, are sent as one \<open>Submit\<close>, with one payload per script, in order;
  each payload decodes to one command per call of the script, in order, the calls of a pass nested in
  its \<open>Begin\<close> command, with the ids of the handles that were used.\<close>

theorem submitted_scripts_arrive:
  assumes "bincode_ok (lk_recordings lk)"
    and "queue_submit lk (map (\<lambda>(label, script). record_script label script) scripts) st = (Ret (), st')"
  shows "\<exists>payloads. st' = send_on lk (Submit payloads) st
    \<and> map (decode_recording (lk_recordings lk)) payloads =
        map (\<lambda>(label, script). Inr \<lparr>rec_label = label, rec_commands = map encoder_command_of script\<rparr>) scripts"
proof -
  let ?enc = "\<lambda>cb. encode_recording (lk_recordings lk) (into_recording cb)"
  obtain payloads where all: "collect_res ?enc (map (\<lambda>(label, script). record_script label script) scripts) = Inr payloads"
    and st': "st' = send_on lk (Submit payloads) st"
    using assms(2) by (auto simp: queue_submit_def split: sum.splits)
  have "map (decode_recording (lk_recordings lk)) payloads =
      map (\<lambda>(label, script). Inr \<lparr>rec_label = label, rec_commands = map encoder_command_of script\<rparr>) scripts"
    using all
  proof (induction scripts arbitrary: payloads)
    case (Cons x scripts)
    then show ?case
      by (auto simp: bind_res_eq_Inr record_script_eq dest: decode_encode_recording [OF assms(1)] split: prod.splits)
  qed simp
  with st' show ?thesis by blast
qed

text \<open>C31: range arithmetic. When neither bound is past the last \<open>u64\<close>, \<open>bounds_to_offset_size\<close> returns,
  in either build, and the offset and size it gives cover exactly the positions the range covers,
  where an open end is the size of the buffer; at that limit it panics with overflow checks, and
  wraps to zero without.\<close>

theorem range_is_covered:
  "(in_u64 rng \<longrightarrow> (\<exists>off len. bounds_to_offset_size oc rng whole = Some (off, len)
      \<and> {unat off ..< unat off + unat len} = {k. above (fst rng) k \<and> below (snd rng) (unat whole) k}))
   \<and> bounds_to_offset_size True (lo, Included (- 1)) whole = None
   \<and> (n \<noteq> 0 \<longrightarrow> bounds_to_offset_size False (Included n, Included (- 1)) whole = Some (n, 0))"
proof (intro conjI impI)
  assume rng: "in_u64 rng"
  then have "\<exists>p. bounds_to_offset_size oc rng whole = Some p"
    by (cases "fst rng"; cases "snd rng"; simp add: bounds_to_offset_size_def in_u64_def add_one_u64)
  then obtain off len where r: "bounds_to_offset_size oc rng whole = Some (off, len)" by auto
  then show "\<exists>off len. bounds_to_offset_size oc rng whole = Some (off, len)
      \<and> {unat off ..< unat off + unat len} = {k. above (fst rng) k \<and> below (snd rng) (unat whole) k}"
    using bounds_covered [OF rng r] by blast
next
  have "unat (- 1 :: u64) + unat (1 :: u64) = 2 ^ 64"
    by (simp add: unsigned_minus_1_eq_mask mask_eq_exp_minus_1)
  then have "add_u64 True (- 1) 1 = None" by (simp add: add_u64_def)
  then show "bounds_to_offset_size True (lo, Included (- 1)) whole = None"
    by (simp add: bounds_to_offset_size_def split: option.split)
next
  assume "n \<noteq> 0"
  then show "bounds_to_offset_size False (Included n, Included (- 1)) whole = Some (n, 0)"
    by (simp add: bounds_to_offset_size_def add_u64_def saturating_sub_u64_def word_greater_zero_iff)
qed

subsection \<open>Witnesses\<close>

text \<open>A program that makes two buffers and a compute pipeline and submits the recording that uses them.\<close>

definition demo_debug :: "bytes \<Rightarrow> string" where
  "demo_debug bs = []"

abbreviation demo_service :: "(nat, nat, nat) server" where
  "demo_service \<equiv> demo_server good_device False copy_recording"

definition demo_ops :: "nat facade_op list" where
  "demo_ops =
     [OpCreateBuffer demo_buffer, OpCreateBuffer demo_buffer,
      OpCreateShaderModule \<lparr>sm_label = None, sm_source = Wgsl ''fn main() {}''\<rparr>,
      OpCreateComputePipeline \<lparr>cp_label = None, cp_layout = None, cp_module = Id 1, cp_entry_point = None, cp_constants = []\<rparr>,
      OpSubmit [from_recording copy_recording]]"

lemma demo_benign: "benign demo_service"
  using table_bincode_ok [of "[(copy_recording, [1])]"] by (simp add: benign_def demo_server_def)

lemma live_eq: "live st = set (map cell_resource (filter (\<lambda>c. 0 < cell_count c) (fa_cells st)))"
  and dead_eq: "dead st = set (map cell_resource (filter (\<lambda>c. cell_count c = 0) (fa_cells st)))"
  by (auto simp: live_def dead_def)

lemmas facade_eval =
  create_on_defs mint_with_def new_handle_defs mint_defs new_id_def send_on_def clone_cell_def drop_cell_def
  spawn_destroy_def queue_write_buffer_def write_range_def op_allowed_def live_eq dead_eq facade_run_def

lemma demo_submit: "snd (queue_submit (served net demo_service oc dbg) [from_recording copy_recording] st)
    = send_on (served net demo_service oc dbg) (Submit [[1]]) st"
  by (simp add: queue_submit_def demo_server_def encode_recording_def table_bincode_def from_recording_def into_recording_def)

text \<open>
  A transport that works, with an encoding that stamps a frame with its id. The link asks only whether
  a frame can be encoded, and in how many bytes; an encoding with which all can is enough for it.
\<close>

definition demo_net :: "'w net" where
  "demo_net =
     \<lparr>nt_codec = \<lparr>
        cc_frames = \<lparr>bc_encode = \<lambda>f. Inr (case fr_request_id f of None \<Rightarrow> [] | Some rid \<Rightarrow> [ucast (req_raw rid)]),
          bc_decode = \<lambda>_. Inl ''stamps cannot be decoded''\<rparr>,
        cc_responses = \<lparr>bc_encode = \<lambda>f. Inr [ucast (req_raw (rf_request_id f))], bc_decode = \<lambda>_. Inl ''stamps cannot be decoded''\<rparr>\<rparr>,
      nt_fault = \<lambda>_. Works\<rparr>"

lemma demo_dependable: "dependable demo_net"
  by (simp add: dependable_def demo_net_def encode_frame_def MAX_FRAME_BYTES_def split: option.split)

definition demo_start :: "'g \<Rightarrow> ('w, 'h, 'g) wire facade" where
  "demo_start g = \<lparr>fa_client = \<lparr>wi_engine = new_engine g,
       wi_log = [(Hello PROTOCOL_VERSION, Some (HelloAck PROTOCOL_VERSION)), (RequestAdapter, Some RespOk),
         (RequestDevice None, Some RespOk)], wi_stream = Opened, wi_next = 4\<rparr>,
     fa_minters = [new_minter], fa_cells = []\<rparr>"

lemma demo_connected: "connect_device (served demo_net srv oc dbg) (fresh_client g) = (Ret 0, demo_start g)"
  by (simp add: connect_device_def request_adapter_def request_device_def request_on_def expect_ok_def andThen_def
      fresh_client_def demo_start_def dependable_deliver [OF demo_dependable _ handle_greets])

lemma demo_start_simps [simp]:
  "fa_cells (demo_start g) = []" "fa_minters (demo_start g) = [new_minter]"
  by (simp_all add: demo_start_def)

lemma demo_answered:
  assumes "benign srv"
  shows "all_answered (wi_log (fa_client (facade_run (served demo_net srv oc dbg) dev ops (demo_start g))))"
proof -
  have "working (fa_client (demo_start g :: ('a, 'b, 'c) wire facade))"
    by (simp add: working_def demo_start_def new_engine_def all_answered_def)
  from working_run [OF wired_run demo_dependable assms this] show ?thesis by (simp add: working_def)
qed

lemma demo_allowed: "all_allowed (served demo_net demo_service False dbg) 0 demo_ops (demo_start 0)"
  by (simp add: demo_ops_def facade_eval demo_submit new_minter_def layout_refs_def from_recording_def into_recording_def
      copy_recording_def recording_refs_def)

theorem live_programs_get_no_errors_witness:
  "no_error (wi_log (fa_client (facade_run (served demo_net demo_service False demo_debug) 0 demo_ops (demo_start 0))))"
  using live_programs_get_no_errors [OF demo_benign demo_connected demo_allowed _ refl]
    all_answered_intact [OF demo_answered [OF demo_benign]]
  by (simp add: demo_ops_def)

lemma distinct_singleton: "distinct xs \<Longrightarrow> set xs = {x} \<Longrightarrow> xs = [x]"
  by (cases xs) (auto simp: subset_singleton_iff)

theorem destroyed_with_last_handle_witness:
  "destroyed (issued_on (fa_client (facade_run (served demo_net demo_service False demo_debug) 0
      [OpCreateBuffer demo_buffer, OpClone 0, OpDrop 0, OpDrop 0, OpCreateBuffer demo_buffer] (demo_start 0))))
   = [RBuffer (Id 1)]"
proof -
  let ?ops = "[OpCreateBuffer demo_buffer, OpClone 0, OpDrop 0, OpDrop 0, OpCreateBuffer demo_buffer]"
  let ?st = "facade_run (served demo_net demo_service False demo_debug) 0 ?ops (demo_start 0)"
  have "disciplined (served demo_net demo_service False demo_debug) 0 ?ops (demo_start 0)"
    by (simp add: facade_eval new_minter_def)
  from destroyed_with_last_handle [OF demo_connected this _ refl]
  have "distinct (destroyed (issued_on (fa_client ?st)))" and "set (destroyed (issued_on (fa_client ?st))) = dead ?st"
    by simp_all
  moreover have "dead ?st = {RBuffer (Id 1)}"
    by (simp add: facade_eval new_minter_def)
  ultimately show ?thesis by (intro distinct_singleton) simp_all
qed

theorem dropped_buffer_breaks_submit_witness:
  "\<exists>r. last (wi_log (fa_client (facade_run (served demo_net demo_service False demo_debug) 0
      (take 4 demo_ops @ [OpDrop 0, OpSubmit [from_recording copy_recording]]) (demo_start 0))))
     = (Submit [[1]], Some r) \<and> is_error r"
proof -
  let ?lk = "served demo_net demo_service False demo_debug" and ?start = "demo_start 0 :: (nat, nat, nat) wire facade"
  have allowed: "all_allowed ?lk 0 (take 4 demo_ops) ?start"
    using demo_allowed [of demo_debug] by (simp add: demo_ops_def)
  have len: "length (take 4 demo_ops) < 2 ^ 64" by (simp add: demo_ops_def)
  let ?st = "facade_run ?lk 0 (take 4 demo_ops) ?start"
  have a: "0 < length (fa_cells ?st)" "fa_cells ?st ! 0 = \<lparr>cell_resource = RBuffer (Id 1), cell_count = 1\<rparr>"
    by (simp_all add: demo_ops_def facade_eval new_minter_def)
  have cb: "from_recording copy_recording \<in> set [from_recording copy_recording]"
    "RBuffer (Id 1) \<in> set (recording_refs (into_recording (from_recording copy_recording)))"
    by (simp_all add: from_recording_def into_recording_def copy_recording_def recording_refs_def)
  have enc: "collect_res (\<lambda>cb. encode_recording (srv_recordings demo_service) (into_recording cb)) [from_recording copy_recording]
      = Inr [[1]]"
    by (simp add: demo_server_def encode_recording_def table_bincode_def from_recording_def into_recording_def)
  have run: "facade_run ?lk 0 [OpDrop 0, OpSubmit [from_recording copy_recording]] ?st
      = facade_run ?lk 0 (take 4 demo_ops @ [OpDrop 0, OpSubmit [from_recording copy_recording]]) ?start"
    by (simp add: facade_run_def)
  show ?thesis
    unfolding run [symmetric]
    by (rule dropped_buffer_breaks_submit [OF demo_benign demo_connected allowed len refl a cb enc refl])
      (unfold run, rule demo_answered [OF demo_benign])
qed

theorem second_device_collides_witness:
  "\<exists>dev st1. request_device (served demo_net demo_service False demo_debug) (demo_start 0) = (Ret dev, st1)
    \<and> hd_id (fst (create_buffer_on (served demo_net demo_service False demo_debug) 0 demo_buffer st1)) =
      hd_id (fst (create_buffer_on (served demo_net demo_service False demo_debug) dev demo_buffer
        (snd (create_buffer_on (served demo_net demo_service False demo_debug) 0 demo_buffer st1))))"
proof -
  let ?lk = "served demo_net demo_service False demo_debug"
  obtain dev and st1 :: "(nat, nat, nat) wire facade" where dev: "request_device ?lk (demo_start 0) = (Ret dev, st1)"
    and working1: "working (fa_client st1)"
    by (simp add: request_device_def request_on_def andThen_def expect_ok_def demo_start_def working_def new_engine_def
        dependable_deliver [OF demo_dependable _ handle_greets] all_answered_def)
  obtain b1 st2 where b1: "create_buffer_on ?lk 0 demo_buffer st1 = (b1, st2)" by (rule prod.exhaust)
  obtain b2 st3 where b2: "create_buffer_on ?lk dev demo_buffer st2 = (b2, st3)" by (rule prod.exhaust)
  have wired: "(wire_step demo_net demo_service)\<^sup>*\<^sup>* (fa_client st1) (fa_client (drop_handle ?lk b1 st3))"
  proof -
    have steps: "st2 = facade_step ?lk 0 (OpCreateBuffer demo_buffer) st1" "st3 = facade_step ?lk dev (OpCreateBuffer demo_buffer) st2"
      "drop_handle ?lk b1 st3 = facade_step ?lk dev (OpDrop (hd_cell b1)) st3"
      by (simp_all add: b1 b2 drop_handle_def)
    note wired = wired_facade_step [where net = demo_net and srv = demo_service and oc = False and dbg = demo_debug,
        unfolded wired_def, rule_format]
    have "(wire_step demo_net demo_service)\<^sup>*\<^sup>* (fa_client st1) (fa_client st3)"
      unfolding steps(2) unfolding steps(1) by (rule rtranclp_trans [OF wired wired])
    then show ?thesis unfolding steps(3) by (rule rtranclp_trans [OF _ wired])
  qed
  have "all_answered (wi_log (fa_client (drop_handle ?lk b1 st3)))"
    using working_run [OF wired demo_dependable demo_benign working1] by (simp add: working_def)
  from second_device_collides [OF demo_benign demo_connected dev b1 b2 refl this] dev b1 b2 show ?thesis by auto
qed

theorem submitted_scripts_arrive_witness:
  "\<exists>payloads. map (decode_recording (srv_recordings (demo_server good_device False
       \<lparr>rec_label = None, rec_commands = [BeginComputePass None [CDispatchWorkgroups 1 2 3]]\<rparr>))) payloads
     = [Inr \<lparr>rec_label = None, rec_commands = [BeginComputePass None [CDispatchWorkgroups 1 2 3]]\<rparr>]"
proof -
  let ?r = "\<lparr>rec_label = None, rec_commands = [BeginComputePass None [CDispatchWorkgroups 1 2 3]]\<rparr> :: nat recording"
  let ?lk = "served demo_net (demo_server good_device False ?r) False (\<lambda>_. [])"
  have ok: "bincode_ok (lk_recordings ?lk)"
    using table_bincode_ok [of "[(?r, [1])]"] by (simp add: demo_server_def)
  have "into_recording (record_script None [ComputePassOf None [Dispatch 1 2 3]]) = ?r"
    by (simp add: record_script_eq)
  then have run: "queue_submit ?lk (map (\<lambda>(label, script). record_script label script) [(None, [ComputePassOf None [Dispatch 1 2 3]])])
      (fresh_client 0) = (Ret (), send_on ?lk (Submit [[1]]) (fresh_client 0))"
    by (simp add: queue_submit_def demo_server_def encode_recording_def table_bincode_def)
  from submitted_scripts_arrive [OF ok run] obtain payloads where
    "map (decode_recording (lk_recordings ?lk)) payloads = map (\<lambda>(label, script).
       Inr \<lparr>rec_label = label, rec_commands = map encoder_command_of script\<rparr>) [(None, [ComputePassOf None [Dispatch 1 2 3]])]"
    by blast
  then show ?thesis by (intro exI [of _ payloads]) simp
qed

theorem range_is_covered_witness:
  "\<exists>off len. bounds_to_offset_size True (Excluded 3, Unbounded) 16 = Some (off, len)
     \<and> {unat off ..< unat off + unat len} = {k. 3 < k \<and> k < 16}"
proof -
  have "in_u64 (Excluded 3, Unbounded)" by (simp add: in_u64_def)
  with range_is_covered [of "(Excluded 3, Unbounded)" True 16] show ?thesis by auto
qed

end
