(* ===== verification/Response_Types.thy ===== *)
theory Response_Types
  imports Client_Properties
begin

section \<open>The types of responses\<close>

text \<open>
  The protocol pairs every action with the response that answers it, but the wire carries one type
  \<open>Response\<close>, and the client matches on it: what it does not expect it reports as an error of the
  server (\<open>client/instance.rs\<close>, \<open>client/resources.rs\<close>). The theorem of this theory: the engine
  (\<open>server/engine.rs\<close>) only sends what the client expects, whatever its state and its device do.
\<close>

subsection \<open>what answers an action\<close>

fun answered_by :: "'w action \<Rightarrow> response \<Rightarrow> bool" where
  "answered_by (Hello _) r \<longleftrightarrow> r = HelloAck PROTOCOL_VERSION"
| "answered_by (MapBufferForRead _ _ _) r \<longleftrightarrow> (\<exists>bs. r = BufferData bs)"
| "answered_by _ r \<longleftrightarrow> r = RespOk"

definition fits :: "'w action \<Rightarrow> response \<Rightarrow> bool" where
  "fits act r \<longleftrightarrow> is_error r \<or> answered_by act r"

text \<open>All results that a step can return.\<close>

definition returns_only :: "('a \<Rightarrow> bool) \<Rightarrow> ('s, 'e, 'a) step \<Rightarrow> bool" where
  "returns_only R m \<longleftrightarrow> (\<forall>s a. fst (m s) = Ret a \<longrightarrow> R a)"

named_theorems returns_intros \<open>results of steps\<close>

lemma returns_only_pure [returns_intros]:
  "R a \<Longrightarrow> returns_only R (ret a)" "returns_only R (fail e)" "returns_only R panic"
  by (simp_all add: returns_only_def)

lemma returns_only_andThen [returns_intros]:
  "(\<And>a. returns_only R (f a)) \<Longrightarrow> returns_only R (andThen m f)"
  unfolding returns_only_def andThen_def by (auto split: prod.splits flow.splits)

lemma returns_only_locked [returns_intros]:
  assumes "\<And>t. returns_only R (body t)"
  shows "returns_only R (locked body)"
  unfolding returns_only_def
proof (intro allI impI)
  fix s a
  assume ret: "fst (locked body s) = Ret a"
  obtain r s' where run: "locked body s = (r, s')" by (rule prod.exhaust)
  then show "R a"
  proof (cases rule: locked_cases)
    case body
    then show ?thesis using assms ret run unfolding returns_only_def by (metis fst_conv)
  qed (use ret run in auto)
qed

lemma returns_only_answer:
  assumes "returns_only R m" and "errors_only m" and "\<And>r. is_error r \<Longrightarrow> R r"
  shows "returns_only R (answer m)"
  unfolding returns_only_def
proof (intro allI impI)
  fix s a
  assume ret: "fst (answer m s) = Ret a"
  obtain s' where "answer m s = (Ret a, s')" using ret by (metis prod.collapse)
  then show "R a"
  proof (cases rule: answer_cases)
    case (Ret b)
    then show ?thesis using assms(1) unfolding returns_only_def by (metis flow.inject(1) fst_conv)
  next
    case (Fail b)
    then show ?thesis using assms(2,3) unfolding errors_only_def by (metis flow.inject(1) fst_conv)
  qed simp
qed

lemma fits_simps [simp]: "fits act (RespError code msg)" "answered_by act r \<Longrightarrow> fits act r" "is_error r \<Longrightarrow> fits act r"
  by (simp_all add: fits_def)

subsection \<open>The engine keeps to the types\<close>

lemma returns_only_creates:
  "returns_only (\<lambda>r. r = RespOk) (create_unlocked srv c upd i)"
  "returns_only (\<lambda>r. r = RespOk) (create_locked srv resolve upd i)"
  unfolding create_unlocked_def create_locked_def by (intro returns_intros refl)+

lemma returns_only_weaken: "returns_only (\<lambda>r. r = a) m \<Longrightarrow> R a \<Longrightarrow> returns_only R m"
  by (auto simp: returns_only_def)

lemma submit_with_returns:
  assumes "submit_with srv t recordings g = (r, g')"
  shows "case r of Ret a \<Rightarrow> a = RespOk | Fail e \<Rightarrow> is_error e | Panic \<Rightarrow> True"
proof (cases r)
  case (Ret a)
  then show ?thesis using assms by (auto simp: submit_with_def andThen_eq_Ret)
next
  case (Fail e)
  then have "submit_plan srv t recordings = Inl e"
    using assms by (intro realises_FailD [OF realises_submit_with never_fails_issue_submission]) simp
  then show ?thesis using Fail refuses_is_error [OF submit_plan_refuses] by simp
qed simp

lemma submit_fits: "returns_only (fits (Submit recordings)) (submit srv recordings)"
  unfolding returns_only_def
proof (intro allI impI)
  fix s r
  assume ret: "fst (submit srv recordings s) = Ret r"
  show "fits (Submit recordings) r"
  proof (cases "eng_poisoned s")
    case True
    have "\<not> needs_lock srv (Submit recordings)"
      using stuck_submit [of srv recordings] True ret
      by (cases "submit srv recordings s") (auto simp: stuck_def dest!: tripleD)
    moreover have "is_error e" if "andThen (on_gpu (gpu_exec (srv_device srv) (QueueSubmit []))) (\<lambda>_. ret RespOk) s = (Fail e, s')"
      for e s'
    proof -
      have "errors_only (andThen (on_gpu (gpu_exec (srv_device srv) (QueueSubmit []))) (\<lambda>_ :: unit. ret RespOk))"
        by (intro errors_only_intros)
      then show ?thesis using that unfolding errors_only_def by (metis fst_conv)
    qed
    ultimately show ?thesis
      using ret by (auto simp: submit_def answer_def decodes_def andThen_eq_Ret split: list.splits sum.splits prod.splits flow.splits)
  next
    case False
    obtain p where "submit srv recordings s =
        (case submit_with srv (eng_tables s) recordings (eng_gpu s) of
           (Ret r, g) \<Rightarrow> (Ret r, s\<lparr>eng_gpu := g\<rparr>)
         | (Fail r, g) \<Rightarrow> (Ret r, s\<lparr>eng_gpu := g\<rparr>)
         | (Panic, g) \<Rightarrow> (Panic, s\<lparr>eng_gpu := g, eng_poisoned := p\<rparr>))"
      using submit_on_gpu [OF False] by blast
    then show ?thesis
      using ret submit_with_returns [of srv "eng_tables s" recordings "eng_gpu s"]
      by (auto split: prod.splits flow.splits)
  qed
qed

lemma handle_action_fits: "returns_only (fits act) (handle_action srv act)"
proof (cases act)
  case (Submit recordings)
  then show ?thesis by (simp add: submit_fits)
next
  case (MapBufferForRead i off len)
  show ?thesis unfolding MapBufferForRead handle_action.simps read_buffer_def
    by (intro returns_intros) (auto intro!: returns_intros split: map_result.split simp del: step_simps)
next
  case (Hello v)
  show ?thesis unfolding Hello handle_action.simps by (rule returns_intros) (simp add: hello_def)
next
  case (Destroy r)
  show ?thesis unfolding Destroy handle_action.simps destroy_def
    by (cases r) (auto intro!: returns_intros simp del: step_simps)
next
  case (CreateShaderModule i desc)
  show ?thesis unfolding CreateShaderModule handle_action.simps create_shader_module_def
    by (cases "sm_source desc") (auto intro!: returns_intros returns_only_weaken [OF returns_only_creates(1)] simp del: step_simps)
qed (auto simp: create_buffer_def create_texture_def create_sampler_def create_bind_group_layout_def
    create_texture_view_def create_bind_group_def create_pipeline_layout_def create_compute_pipeline_def
    create_render_pipeline_def derive_render_bind_group_layout_def derive_compute_bind_group_layout_def
    write_buffer_def write_texture_def simp del: step_simps
    intro!: returns_intros returns_only_weaken [OF returns_only_creates(1)] returns_only_weaken [OF returns_only_creates(2)])

lemma handle_fits: "handle srv act s = (Ret r, s') \<Longrightarrow> \<exists>x. r = Some x \<and> fits act x"
  using returns_only_answer [OF handle_action_fits [of act srv] handle_action_errors_only]
  unfolding returns_only_def handle_def by (auto simp: andThen_eq_Ret) (metis fits_simps(3) fst_conv)

text \<open>C18: every answer has the type of its action. Whatever the state of the engine and whatever its
  device does, an action that is handled is answered, by an error or by the response of its own type:
  the acknowledgement of the server's version, the data of the buffer, or \<open>Ok\<close>.\<close>

theorem responses_have_their_types:
  assumes "handle srv act s = (Ret r, s')"
  shows "\<exists>x. r = Some x \<and> (is_error x \<or> answered_by act x)"
  using handle_fits [OF assms] by (simp add: fits_def)

subsection \<open>The client is never surprised\<close>

text \<open>The last entry of the log: the last request, and its answer.\<close>

definition last_answer :: "('w, 'h, 'g) wire facade \<Rightarrow> response option" where
  "last_answer st = (if wi_log (fa_client st) = [] then None else snd (last (wi_log (fa_client st))))"

text \<open>
  Why a request has no answer: its frame, with the id it was given, does not encode; it was to open the
  stream, and \<open>open_bi\<close> failed; or the stream has ended.
\<close>

definition unanswered :: "'w net \<Rightarrow> client_error \<Rightarrow> ('w, 'h, 'g) wire \<Rightarrow> bool" where
  "unanswered net e w \<longleftrightarrow> (\<exists>act. wi_log w \<noteq> [] \<and> last (wi_log w) = (act, None)
     \<and> ((\<exists>ce. e = CodecError ce \<and> encode_frame (cc_frames (nt_codec net))
            \<lparr>fr_request_id = Some (RequestId (wi_next w - 1)), fr_action = act\<rparr> = Inl ce)
        \<or> e = TransportFailed \<and> wi_stream w = Unopened \<and> nt_fault net (wi_next w - 1) = OpenFails
        \<or> e = ConnectionClosed \<and> wi_stream w = Ended))"

definition reports :: "'w net \<Rightarrow> client_error \<Rightarrow> ('w, 'h, 'g) wire facade \<Rightarrow> bool" where
  "reports net e st \<longleftrightarrow> unanswered net e (fa_client st)
     \<or> (\<exists>code msg. e = ServerError code msg \<and> last_answer st = Some (RespError code msg))"

lemma deliver_unanswered:
  assumes "deliver net srv act w = (Inl e, w')"
  shows "unanswered net e w'"
  using assms
  by (auto simp: deliver_def posts_def arrives_def logged_def unanswered_def Let_def
      split: sum.splits if_splits prod.splits flow.splits option.splits)

lemma request_on_answer:
  assumes "request_on (served net srv oc dbg) act st = (r, st')"
  shows "case r of Ret x \<Rightarrow> last_answer st' = Some x \<and> fits act x | Fail e \<Rightarrow> reports net e st' | Panic \<Rightarrow> False"
proof -
  obtain x w where d: "deliver net srv act (fa_client st) = (x, w)" by (rule prod.exhaust)
  show ?thesis
  proof (cases x)
    case (Inl e)
    then show ?thesis
      using assms d deliver_unanswered [of net srv act "fa_client st" e w] by (auto simp: request_on_def reports_def)
  next
    case (Inr y)
    then obtain s where h: "handle srv act (wi_engine (fa_client st)) = (Ret (Some y), s)"
      and "wi_log w = wi_log (fa_client st) @ [(act, Some y)]"
      using deliver_Inr [of net srv act "fa_client st" y w] d by auto
    then show ?thesis
      using assms d Inr handle_fits [OF h] by (auto simp: request_on_def last_answer_def)
  qed
qed

lemma reports_answer: "last_answer st = Some (RespError code msg) \<Longrightarrow> reports net (ServerError code msg) st"
  by (simp add: reports_def)

lemma request_on_reports:
  assumes "request_on (served net srv oc dbg) act st = (Fail e, st')"
  shows "reports net e st'"
  using request_on_answer [OF assms] by simp

lemma expect_ok_reports:
  assumes "expect_ok (served net srv oc dbg) r st = (Fail e, st')" and "last_answer st = Some r" and "fits act r"
    and "\<And>x. answered_by act x \<longleftrightarrow> x = RespOk"
  shows "reports net e st'"
proof -
  have "is_error r \<or> r = RespOk" using assms(3,4) by (simp add: fits_def)
  then show ?thesis
    using assms(1,2) by (cases r) (auto simp: expect_ok_def is_error_def reports_answer)
qed

lemma request_ok_reports:
  assumes "andThen (request_on (served net srv oc dbg) act) (expect_ok (served net srv oc dbg)) st = (Fail e, st')"
    and "\<And>x. answered_by act x \<longleftrightarrow> x = RespOk"
  shows "reports net e st'"
  using assms(1)
proof (cases rule: andThen_cases)
  case (Ret a s)
  then show ?thesis
    using request_on_answer [OF Ret(1)] expect_ok_reports [OF Ret(2) _ _ assms(2)] by simp
qed (use request_on_reports in auto)

lemma request_adapter_reports:
  assumes "request_adapter (served net srv oc dbg) st = (Fail e, st')"
  shows "reports net e st'"
  using assms unfolding request_adapter_def
proof (cases rule: andThen_cases)
  case (Ret r s)
  note hello = request_on_answer [OF Ret(1)]
  from Ret(2) show ?thesis
  proof (cases rule: andThen_cases)
    case (Ret u s'')
    show ?thesis by (rule request_ok_reports [OF Ret(2)]) simp
  next
    case (Fail x)
    then show ?thesis using hello by (cases r) (auto simp: fits_def reports_answer)
  qed simp
qed (use request_on_reports in auto)

lemma request_device_reports:
  assumes "request_device (served net srv oc dbg) st = (Fail e, st')"
  shows "reports net e st'"
proof -
  have "andThen (andThen (request_on (served net srv oc dbg) (RequestDevice None)) (expect_ok (served net srv oc dbg)))
      (\<lambda>_ st. (Ret (length (fa_minters st)), st\<lparr>fa_minters := fa_minters st @ [new_minter]\<rparr>)) st = (Fail e, st')"
    using assms by (simp add: request_device_def andThen_assoc)
  then show ?thesis
    by (cases rule: andThen_cases) (auto intro: request_ok_reports)
qed

lemma read_range_reports:
  assumes "read_range (served net srv oc dbg) b rng st = (Fail e, st')"
  shows "reports net e st'"
proof -
  obtain off len where "andThen (request_on (served net srv oc dbg) (MapBufferForRead (hd_id b) off len)) (\<lambda>resp.
       case resp of
         BufferData d \<Rightarrow> ret d
       | RespError code msg \<Rightarrow> fail (ServerError code msg)
       | other \<Rightarrow> fail (unexpected (served net srv oc dbg) ''BufferData'' other)) st = (Fail e, st')"
    using assms by (auto simp: read_range_def andThen_def lift_opt_def split: option.splits prod.splits)
  then show ?thesis
  proof (cases rule: andThen_cases)
    case (Ret r s)
    then show ?thesis using request_on_answer [OF Ret(1)] by (cases r) (auto simp: fits_def reports_answer)
  qed (use request_on_reports in auto)
qed

text \<open>C19: the client reports what happened. A call of the facade that waits for the server, connected to
  the engine in whatever state it and the stream are, fails only with the error that the server has just
  answered, with its code and its message, or because its last request got no answer: with the codec's
  error when its frame does not encode, with a transport error when the stream could not be opened, and
  with \<open>ConnectionClosed\<close> when the stream has ended. The branches of the client for a response of another
  type are never taken.\<close>

theorem client_reports_server_errors:
  "(request_adapter (served net srv oc dbg) st = (Fail e, st') \<longrightarrow> reports net e st')
   \<and> (request_device (served net srv oc dbg) st = (Fail e, st') \<longrightarrow> reports net e st')
   \<and> (read_range (served net srv oc dbg) b rng st = (Fail e, st') \<longrightarrow> reports net e st')"
  by (intro conjI impI) (erule request_adapter_reports request_device_reports read_range_reports)+

subsection \<open>Witnesses\<close>

theorem responses_have_their_types_witness:
  "\<exists>r s'. handle demo_service (MapBufferForRead (Id 7) 0 4) (new_engine 0) = (Ret r, s')
    \<and> (\<exists>x. r = Some x \<and> (is_error x \<or> (\<exists>bs. x = BufferData bs)))"
proof -
  obtain r s' where run: "handle demo_service (MapBufferForRead (Id 7) 0 4) (new_engine 0) = (Ret r, s')"
    by (simp add: handle_def answer_def read_buffer_def locked_def new_engine_def empty_tables_def lookup_in_def andThen_def)
  with responses_have_their_types [OF run] show ?thesis by auto
qed

text \<open>A readback of a buffer the server does not know, and a transport on which no stream opens.\<close>

definition unreachable_net :: "'w net" where
  "unreachable_net = demo_net\<lparr>nt_fault := \<lambda>_. OpenFails\<rparr>"

theorem client_reports_server_errors_witness:
  "(\<exists>e st'. read_range (served demo_net demo_service False demo_debug) \<lparr>hd_cell = 0, hd_id = Id 7, buf_size = 4\<rparr> (Unbounded, Unbounded)
      (demo_start 0) = (Fail e, st') \<and> reports demo_net e st')
   \<and> (\<exists>st'. request_adapter (served unreachable_net demo_service False demo_debug) (fresh_client 0) = (Fail TransportFailed, st')
      \<and> reports unreachable_net TransportFailed st')"
proof
  let ?b = "\<lparr>hd_cell = 0, hd_id = Id 7, buf_size = 4\<rparr> :: buffer"
  have "\<exists>code msg. handle demo_service (MapBufferForRead (Id 7) 0 4) (new_engine 0) = (Ret (Some (RespError code msg)), new_engine 0)"
    by (simp add: handle_def answer_def read_buffer_def locked_def new_engine_def empty_tables_def lookup_in_def andThen_def
        unknown_resource_def)
  then obtain code msg where refused: "handle demo_service (MapBufferForRead (Id 7) 0 4) (new_engine 0)
      = (Ret (Some (RespError code msg)), new_engine 0)" by blast
  have "wi_stream (fa_client (demo_start 0)) \<noteq> Ended" by (simp add: demo_start_def)
  note answered = dependable_deliver [OF demo_dependable this, where srv = demo_service, unfolded demo_start_def facade.simps wire.simps, OF refused]
  obtain e st' where run: "read_range (served demo_net demo_service False demo_debug) ?b (Unbounded, Unbounded) (demo_start 0)
      = (Fail e, st')"
    by (simp add: read_range_def bounds_to_offset_size_def saturating_sub_u64_def request_on_def demo_start_def andThen_def
        answered)
  with client_reports_server_errors
  show "\<exists>e st'. read_range (served demo_net demo_service False demo_debug) ?b (Unbounded, Unbounded) (demo_start 0) = (Fail e, st')
      \<and> reports demo_net e st'" by blast
  obtain st' where "request_adapter (served unreachable_net demo_service False demo_debug) (fresh_client 0)
      = (Fail TransportFailed, st')"
    by (simp add: request_adapter_def request_on_def deliver_def posts_def fresh_client_def andThen_def unreachable_net_def
        demo_net_def encode_frame_def MAX_FRAME_BYTES_def)
  with client_reports_server_errors
  show "\<exists>st'. request_adapter (served unreachable_net demo_service False demo_debug) (fresh_client 0) = (Fail TransportFailed, st')
      \<and> reports unreachable_net TransportFailed st'" by blast
qed

end
