(* ===== verification/Clients.thy ===== *)
theory Clients
  imports Client_Properties
begin

section \<open>Several clients of one server\<close>

text \<open>
  The server makes one \<open>Engine\<close> and hands a clone of its \<open>Arc\<close> to the tasks of every connection
  (\<open>serve_quic\<close> and \<open>serve_iroh\<close> in \<open>bin/wgpu-remote-server.rs\<close>, \<open>run_connection\<close> in
  \<open>server/handler.rs\<close>), so all clients share one set of tables, while every client counts its own ids
  from 1. A hub is the engine and the clients, each with the frames it has sent and the server has not
  handled yet. An event is a client that connects, a call of one client, the server's handling of the
  next frame of one client, or a client that goes away. Nothing in the server reacts to the last: the
  resources stay, and the frames that are on their way may still be handled, or never.

  A call that only sends (\<open>Client::send\<close>, and so every create, write, submission and drop) queues its
  frame, and the frames of different clients are handled in any order. A readback waits, and so ends
  when all its client's frames have been handled; the other clients' frames can come before it.
\<close>

subsection \<open>Queued frames\<close>

record ('w, 'h, 'g) mailbox =
  mb_wire :: "('w, 'h, 'g) wire"
  mb_queue :: "(u64 \<times> 'w action) list"

text \<open>The server takes a frame, and the client's log gets its answer.\<close>

definition take_frame ::
  "'w net \<Rightarrow> ('w, 'h, 'g) server \<Rightarrow> u64 \<times> 'w action \<Rightarrow> ('w, 'h, 'g) wire \<Rightarrow> ('w, 'h, 'g) wire" where
  "take_frame net srv = (\<lambda>(rid, act) w. case arrives net srv rid act w of (x, w') \<Rightarrow> logged act (answer_of x) w')"

definition enqueue_frame :: "'w net \<Rightarrow> 'w action \<Rightarrow> ('w, 'h, 'g) mailbox \<Rightarrow> ('w, 'h, 'g) mailbox" where
  "enqueue_frame net act m =
     (if wi_stream (mb_wire m) = Unopened
      then m\<lparr>mb_wire := logged act None ((mb_wire m)\<lparr>wi_next := wi_next (mb_wire m) + 1\<rparr>)\<rparr>
      else case posts net act (mb_wire m) of
        (Inl e, w) \<Rightarrow> m\<lparr>mb_wire := logged act None w\<rparr>
      | (Inr rid, w) \<Rightarrow> \<lparr>mb_wire = w, mb_queue = mb_queue m @ [(rid, act)]\<rparr>)"

definition await_answer ::
  "'w net \<Rightarrow> ('w, 'h, 'g) server \<Rightarrow> 'w action \<Rightarrow> ('w, 'h, 'g) mailbox \<Rightarrow> (client_error + response) \<times> ('w, 'h, 'g) mailbox" where
  "await_answer net srv act m =
     (case posts net act (mb_wire m) of
        (Inl e, w) \<Rightarrow> (Inl e, m\<lparr>mb_wire := logged act None w\<rparr>)
      | (Inr rid, w) \<Rightarrow>
          (case arrives net srv rid act (fold (take_frame net srv) (mb_queue m) w) of
             (x, w') \<Rightarrow> (x, \<lparr>mb_wire = logged act (answer_of x) w', mb_queue = []\<rparr>)))"

definition queued ::
  "'w net \<Rightarrow> ('w, 'h, 'g) server \<Rightarrow> bool \<Rightarrow> (bytes \<Rightarrow> string) \<Rightarrow> ('w, ('w, 'h, 'g) mailbox) link" where
  "queued net srv oc dbg =
     \<lparr>lk_send = enqueue_frame net, lk_request = await_answer net srv,
      lk_recordings = srv_recordings srv, lk_overflow_checks = oc, lk_debug_bytes = dbg\<rparr>"

lemma queued_simps [simp]:
  "lk_send (queued net srv oc dbg) = enqueue_frame net" "lk_request (queued net srv oc dbg) = await_answer net srv"
  "lk_recordings (queued net srv oc dbg) = srv_recordings srv"
  by (simp_all add: queued_def)

subsection \<open>Hubs\<close>

record ('w, 'h, 'g) hub =
  hub_engine :: "('h, 'g) engine"
  hub_clients :: "('w, 'h, 'g) mailbox facade list"
  hub_gone :: "nat set"

definition enter :: "('h, 'g) engine \<Rightarrow> ('w, 'h, 'g) mailbox facade \<Rightarrow> ('w, 'h, 'g) mailbox facade" where
  "enter s st = st\<lparr>fa_client := (fa_client st)\<lparr>mb_wire := (mb_wire (fa_client st))\<lparr>wi_engine := s\<rparr>\<rparr>\<rparr>"

definition unconnected :: "('h, 'g) engine \<Rightarrow> ('w, 'h, 'g) mailbox facade" where
  "unconnected s =
     \<lparr>fa_client = \<lparr>mb_wire = \<lparr>wi_engine = s, wi_log = [], wi_stream = Unopened, wi_next = 1\<rparr>, mb_queue = []\<rparr>,
      fa_minters = [], fa_cells = []\<rparr>"

abbreviation wire_of :: "('w, 'h, 'g) mailbox facade \<Rightarrow> ('w, 'h, 'g) wire" where
  "wire_of st \<equiv> mb_wire (fa_client st)"

abbreviation queue_of :: "('w, 'h, 'g) mailbox facade \<Rightarrow> (u64 \<times> 'w action) list" where
  "queue_of st \<equiv> mb_queue (fa_client st)"

text \<open>\<open>let engine = engine.clone(); tokio::spawn(run_connection(engine, conn))\<close>, and the handshake of the client.\<close>

definition hub_join ::
  "'w net \<Rightarrow> ('w, 'h, 'g) server \<Rightarrow> bool \<Rightarrow> (bytes \<Rightarrow> string) \<Rightarrow> ('w, 'h, 'g) hub \<Rightarrow> ('w, 'h, 'g) hub" where
  "hub_join net srv oc dbg h =
     (let st = snd (connect_device (queued net srv oc dbg) (unconnected (hub_engine h))) in
      h\<lparr>hub_engine := wi_engine (wire_of st), hub_clients := hub_clients h @ [st]\<rparr>)"

definition hub_turn ::
  "'w net \<Rightarrow> ('w, 'h, 'g) server \<Rightarrow> bool \<Rightarrow> (bytes \<Rightarrow> string) \<Rightarrow> nat \<Rightarrow> 'w facade_op \<Rightarrow> ('w, 'h, 'g) hub \<Rightarrow> ('w, 'h, 'g) hub" where
  "hub_turn net srv oc dbg k op h =
     (let st = facade_step (queued net srv oc dbg) 0 op (enter (hub_engine h) (hub_clients h ! k)) in
      h\<lparr>hub_engine := wi_engine (wire_of st), hub_clients := (hub_clients h)[k := st]\<rparr>)"

text \<open>One iteration of the handler of client \<open>k\<close>'s stream.\<close>

definition handle_next ::
  "'w net \<Rightarrow> ('w, 'h, 'g) server \<Rightarrow> ('w, 'h, 'g) mailbox facade \<Rightarrow> ('w, 'h, 'g) mailbox facade" where
  "handle_next net srv st =
     (case queue_of st of
        [] \<Rightarrow> st
      | frame # queue \<Rightarrow> st\<lparr>fa_client := \<lparr>mb_wire = take_frame net srv frame (wire_of st), mb_queue = queue\<rparr>\<rparr>)"

definition hub_handle :: "'w net \<Rightarrow> ('w, 'h, 'g) server \<Rightarrow> nat \<Rightarrow> ('w, 'h, 'g) hub \<Rightarrow> ('w, 'h, 'g) hub" where
  "hub_handle net srv k h =
     (let st = handle_next net srv (enter (hub_engine h) (hub_clients h ! k)) in
      h\<lparr>hub_engine := wi_engine (wire_of st), hub_clients := (hub_clients h)[k := st]\<rparr>)"

datatype 'w hub_event = Join | Turn nat "'w facade_op" | Handle nat | Gone nat

fun hub_step ::
  "'w net \<Rightarrow> ('w, 'h, 'g) server \<Rightarrow> bool \<Rightarrow> (bytes \<Rightarrow> string) \<Rightarrow> 'w hub_event \<Rightarrow> ('w, 'h, 'g) hub \<Rightarrow> ('w, 'h, 'g) hub" where
  "hub_step net srv oc dbg Join h = hub_join net srv oc dbg h"
| "hub_step net srv oc dbg (Turn k op) h = hub_turn net srv oc dbg k op h"
| "hub_step net srv oc dbg (Handle k) h = hub_handle net srv k h"
| "hub_step net srv oc dbg (Gone k) h = h\<lparr>hub_gone := insert k (hub_gone h)\<rparr>"

definition hub_run ::
  "'w net \<Rightarrow> ('w, 'h, 'g) server \<Rightarrow> bool \<Rightarrow> (bytes \<Rightarrow> string) \<Rightarrow> 'w hub_event list \<Rightarrow> ('w, 'h, 'g) hub \<Rightarrow> ('w, 'h, 'g) hub" where
  "hub_run net srv oc dbg = fold (hub_step net srv oc dbg)"

definition new_hub :: "'g \<Rightarrow> ('w, 'h, 'g) hub" where
  "new_hub g = \<lparr>hub_engine = new_engine g, hub_clients = [], hub_gone = {}\<rparr>"

subsection \<open>Clients that do not free what others use\<close>

text \<open>What the frames on their way make the server forget, and what a client still needs.\<close>

definition freeing :: "('w, 'h, 'g) mailbox facade \<Rightarrow> resource_id set" where
  "freeing st = {r. \<exists>act \<in> set (map snd (queue_of st)). destroys act = Some r}"

definition in_use :: "'w recording bincode \<Rightarrow> ('w, 'h, 'g) mailbox facade \<Rightarrow> resource_id set" where
  "in_use rc st = live st \<union> \<Union> (act_needs rc ` set (map snd (queue_of st)))"

text \<open>No client has a \<open>Destroy\<close> under way for a buffer that another one, still there, has a handle for or
  has named in a frame.\<close>

definition apart :: "'w recording bincode \<Rightarrow> ('w, 'h, 'g) hub \<Rightarrow> bool" where
  "apart rc h \<longleftrightarrow> (\<forall>j < length (hub_clients h). \<forall>k < length (hub_clients h). j \<noteq> k \<longrightarrow> k \<notin> hub_gone h \<longrightarrow>
     freeing (hub_clients h ! j) \<inter> in_use rc (hub_clients h ! k) = {})"

text \<open>A call is made by a client that is there and has a device, names only what it has live handles for,
  and keeps the clients apart.\<close>

fun event_allowed ::
  "'w net \<Rightarrow> ('w, 'h, 'g) server \<Rightarrow> bool \<Rightarrow> (bytes \<Rightarrow> string) \<Rightarrow> 'w hub_event \<Rightarrow> ('w, 'h, 'g) hub \<Rightarrow> bool" where
  "event_allowed net srv oc dbg (Turn k op) h \<longleftrightarrow>
     k < length (hub_clients h) \<and> k \<notin> hub_gone h \<and> fa_minters (hub_clients h ! k) \<noteq> [] \<and> op_allowed op 0 (hub_clients h ! k)
     \<and> apart (srv_recordings srv) (hub_turn net srv oc dbg k op h)"
| "event_allowed net srv oc dbg (Handle k) h \<longleftrightarrow> k < length (hub_clients h)"
| "event_allowed net srv oc dbg _ h \<longleftrightarrow> True"

abbreviation events_allowed ::
  "'w net \<Rightarrow> ('w, 'h, 'g) server \<Rightarrow> bool \<Rightarrow> (bytes \<Rightarrow> string) \<Rightarrow> 'w hub_event list \<Rightarrow> ('w, 'h, 'g) hub \<Rightarrow> bool" where
  "events_allowed net srv oc dbg \<equiv> all_along (event_allowed net srv oc dbg) (hub_step net srv oc dbg)"

subsection \<open>Frames that will be accepted\<close>

text \<open>
  The frames of a client, handled one after the other from a server that knows \<open>K\<close>, are all acceptable,
  and then the resources of \<open>L\<close> are known.
\<close>

fun admitted :: "'w recording bincode \<Rightarrow> 'w action list \<Rightarrow> resource_id set \<Rightarrow> resource_id set \<Rightarrow> bool" where
  "admitted rc [] K L \<longleftrightarrow> L \<subseteq> K"
| "admitted rc (act # acts) K L \<longleftrightarrow> wellformed rc act \<and> act_needs rc act \<subseteq> K \<and> admitted rc acts (after act K) L"

lemma after_mono: "K \<subseteq> K' \<Longrightarrow> after act K \<subseteq> after act K'"
  by (auto simp: after_def)

lemma admitted_mono: "admitted rc acts K L \<Longrightarrow> K \<subseteq> K' \<Longrightarrow> L' \<subseteq> L \<Longrightarrow> admitted rc acts K' L'"
proof (induction acts arbitrary: K K')
  case (Cons act acts)
  then show ?case using after_mono [OF Cons.prems(2), of act] by auto
qed auto

lemma admitted_without:
  "admitted rc acts K L \<Longrightarrow> D \<inter> (L \<union> \<Union> (act_needs rc ` set acts)) = {} \<Longrightarrow> admitted rc acts (K - D) L"
proof (induction acts arbitrary: K)
  case (Cons act acts)
  have "after act K - D \<subseteq> after act (K - D)" by (auto simp: after_def)
  moreover have "D \<inter> (L \<union> \<Union> (act_needs rc ` set acts)) = {}" using Cons.prems(2) by auto
  then have "admitted rc acts (after act K - D) L" using Cons.IH Cons.prems(1) by simp
  ultimately have "admitted rc acts (after act (K - D)) L" using admitted_mono by blast
  then show ?case using Cons.prems by auto
qed auto

lemma admitted_snoc:
  "admitted rc acts K L \<Longrightarrow> wellformed rc act \<Longrightarrow> act_needs rc act \<subseteq> L \<Longrightarrow> L' \<subseteq> after act L \<Longrightarrow> admitted rc (acts @ [act]) K L'"
proof (induction acts arbitrary: K)
  case Nil
  then show ?case using after_mono [of L K act] by auto
qed simp

lemma admitted_live: "admitted rc acts K L \<Longrightarrow> L \<subseteq> K \<union> {r. \<exists>act \<in> set acts. creates act = Some r}"
proof (induction acts arbitrary: K)
  case (Cons act acts)
  then have "L \<subseteq> after act K \<union> {r. \<exists>act \<in> set acts. creates act = Some r}" by simp
  then show ?case by (auto simp: after_def)
qed simp

subsection \<open>What happens to one client\<close>

text \<open>
  The invariant of a client, on a server that knows what its engine knows: as long as no create was
  lost, no answer was an error, and the frames on their way will be accepted, after which everything
  that is live is known.
\<close>

definition client_ok :: "'w recording bincode \<Rightarrow> nat \<Rightarrow> ('w, 'h, 'g) mailbox facade \<Rightarrow> bool" where
  "client_ok rc n st \<longleftrightarrow> no_error (undisturbed (wi_log (wire_of st)))
     \<and> (fa_minters st \<noteq> [] \<longrightarrow> cells_ok 0 st \<and> minted 0 st \<le> n)
     \<and> (intact (wi_log (wire_of st)) \<longrightarrow> admitted rc (map snd (queue_of st)) (known (wi_engine (wire_of st))) (live st))"

abbreviation sound :: "('w, 'h, 'g) mailbox facade \<Rightarrow> bool" where
  "sound st \<equiv> \<not> eng_poisoned (wi_engine (wire_of st))"

text \<open>What a step of one client, with frames that free \<open>D\<close>, leaves to the others.\<close>

definition spares :: "resource_id set \<Rightarrow> ('w, 'h, 'g) mailbox facade \<Rightarrow> ('w, 'h, 'g) mailbox facade \<Rightarrow> bool" where
  "spares D st st' \<longleftrightarrow> sound st' \<and> known (wi_engine (wire_of st)) - D \<subseteq> known (wi_engine (wire_of st'))"

lemma processed_known: "processed srv act x s s' \<Longrightarrow> known s - set_option (destroys act) \<subseteq> known s'"
  by (auto simp: processed_def after_def split: option.splits if_splits)

lemma take_frame_delivers:
  assumes "benign srv" and "\<not> eng_poisoned (wi_engine w)"
  shows "delivers srv act w (take_frame net srv (rid, act) w)"
proof -
  obtain x w' where a: "arrives net srv rid act w = (x, w')" by (rule prod.exhaust)
  show ?thesis
    using arrives_processed [OF assms a] arrives_keeps [OF a] by (simp add: take_frame_def a delivers_def logged_def)
qed

lemma handle_next_ok:
  assumes "benign srv" and "client_ok (srv_recordings srv) n st" and "sound st"
  shows "client_ok (srv_recordings srv) n (handle_next net srv st) \<and> spares (freeing st) st (handle_next net srv st)"
proof (cases "queue_of st")
  case Nil
  then show ?thesis using assms(2,3) by (simp add: handle_next_def spares_def)
next
  case (Cons frame queue)
  obtain rid act where frame: "frame = (rid, act)" by (rule prod.exhaust)
  let ?w = "wire_of st" and ?w' = "take_frame net srv (rid, act) (wire_of st)"
  have st': "handle_next net srv st = st\<lparr>fa_client := \<lparr>mb_wire = ?w', mb_queue = queue\<rparr>\<rparr>"
    by (simp add: handle_next_def Cons frame)
  obtain x where log: "wi_log ?w' = wi_log ?w @ [(act, x)]" and p: "processed srv act x (wi_engine ?w) (wi_engine ?w')"
    using take_frame_delivers [OF assms(1,3)] unfolding delivers_def by blast
  have same: "cells_ok 0 (handle_next net srv st) = cells_ok 0 st" "minted 0 (handle_next net srv st) = minted 0 st"
    "live (handle_next net srv st) = live st"
    by (simp_all add: st' cells_ok_def minted_def live_def)
  note same = same [unfolded st']
  have frees: "spares (freeing st) st (handle_next net srv st)"
    using processed_known [OF p] p Cons by (auto simp: spares_def st' freeing_def frame processed_def)
  show ?thesis
  proof (cases "intact (wi_log ?w) \<and> \<not> lost_create (act, x)")
    case False
    then show ?thesis
      using assms(2) frees by (auto simp: client_ok_def same st' log undisturbed_snoc)
  next
    case True
    then have w: "wellformed (srv_recordings srv) act" "act_needs (srv_recordings srv) act \<subseteq> known (wi_engine ?w)"
      "admitted (srv_recordings srv) (map snd queue) (after act (known (wi_engine ?w))) (live st)"
      using assms(2) by (simp_all add: client_ok_def Cons frame)
    then have "acceptable srv (eng_tables (wi_engine ?w)) act" by (simp add: acceptable_iff)
    moreover have "after act (known (wi_engine ?w)) \<subseteq> known (wi_engine ?w')" if "x = None"
      using that p True by (auto simp: processed_def lost_create_def after_def)
    ultimately have "after act (known (wi_engine ?w)) \<subseteq> known (wi_engine ?w')" "\<forall>r. x = Some r \<longrightarrow> \<not> is_error r"
      using p by (cases x; simp add: processed_def)+
    then show ?thesis
      using True assms(2) frees admitted_mono [OF w(3) _ order_refl]
      by (auto simp: client_ok_def same st' log undisturbed_snoc undisturbed_intact no_error_snoc)
  qed
qed

text \<open>All frames of a client, up to the last.\<close>

definition drained :: "'w net \<Rightarrow> ('w, 'h, 'g) server \<Rightarrow> ('w, 'h, 'g) mailbox facade \<Rightarrow> ('w, 'h, 'g) mailbox facade" where
  "drained net srv st = st\<lparr>fa_client := \<lparr>mb_wire = fold (take_frame net srv) (queue_of st) (wire_of st), mb_queue = []\<rparr>\<rparr>"

lemma drained_ok:
  assumes "benign srv"
  shows "client_ok (srv_recordings srv) n st \<Longrightarrow> sound st \<Longrightarrow>
    client_ok (srv_recordings srv) n (drained net srv st) \<and> spares (freeing st) st (drained net srv st)"
proof (induction "queue_of st" arbitrary: st)
  case Nil
  then have "drained net srv st = st" by (simp add: drained_def)
  then show ?case using Nil by (simp add: spares_def)
next
  case (Cons frame queue)
  let ?st = "handle_next net srv st"
  have q: "queue_of ?st = queue" and d: "drained net srv st = drained net srv ?st"
    using Cons.hyps(2) by (simp_all add: handle_next_def drained_def flip: Cons.hyps(2))
  have "freeing ?st \<subseteq> freeing st" using Cons.hyps(2) q by (auto simp: freeing_def simp flip: Cons.hyps(2))
  moreover note head = handle_next_ok [OF assms Cons.prems, of net]
  moreover have "client_ok (srv_recordings srv) n (drained net srv ?st) \<and> spares (freeing ?st) ?st (drained net srv ?st)"
    using Cons.hyps(1) [of ?st] q head by (simp add: spares_def)
  ultimately show ?case unfolding d spares_def by blast
qed

text \<open>A frame that is put in the queue, or lost before that.\<close>

definition put_frame_in :: "(u64 \<times> 'w action) option \<Rightarrow> 'w action \<Rightarrow> ('w, 'h, 'g) mailbox \<Rightarrow> ('w, 'h, 'g) mailbox \<Rightarrow> bool" where
  "put_frame_in frame act m m' \<longleftrightarrow> wi_engine (mb_wire m') = wi_engine (mb_wire m)
     \<and> (case frame of
          None \<Rightarrow> mb_queue m' = mb_queue m \<and> wi_log (mb_wire m') = wi_log (mb_wire m) @ [(act, None)]
        | Some f \<Rightarrow> snd f = act \<and> mb_queue m' = mb_queue m @ [f] \<and> wi_log (mb_wire m') = wi_log (mb_wire m))"

lemma enqueue_puts: "\<exists>frame. put_frame_in frame act m (enqueue_frame net act m)"
proof -
  obtain x w where p: "posts net act (mb_wire m) = (x, w)" by (rule prod.exhaust)
  note kept = posts_keeps [OF p]
  show ?thesis
  proof (cases x)
    case (Inl e)
    then show ?thesis
      using p kept by (intro exI [of _ None]) (simp add: put_frame_in_def enqueue_frame_def logged_def)
  next
    case (Inr rid)
    then show ?thesis
      using p kept by (cases "wi_stream (mb_wire m) = Unopened")
        (auto simp: put_frame_in_def enqueue_frame_def logged_def intro: exI [of _ None] exI [of _ "Some (rid, act)"])
  qed
qed

lemma await_puts:
  "\<exists>frame m'. put_frame_in frame act m m' \<and>
     snd (await_answer net srv act m) = (if frame = None then m' else \<lparr>mb_wire = fold (take_frame net srv) (mb_queue m') (mb_wire m'), mb_queue = []\<rparr>)"
proof -
  obtain x w where p: "posts net act (mb_wire m) = (x, w)" by (rule prod.exhaust)
  note kept = posts_keeps [OF p]
  show ?thesis
  proof (cases x)
    case (Inl e)
    then show ?thesis
      using p kept
      by (intro exI [of _ None] exI [of _ "m\<lparr>mb_wire := logged act None w\<rparr>"]) (simp add: put_frame_in_def await_answer_def logged_def)
  next
    case (Inr rid)
    then show ?thesis
      using p kept
      by (intro exI [of _ "Some (rid, act)"] exI [of _ "\<lparr>mb_wire = w, mb_queue = mb_queue m @ [(rid, act)]\<rparr>"])
        (simp add: put_frame_in_def await_answer_def take_frame_def split: prod.split)
  qed
qed

lemma put_frame_ok:
  assumes "client_ok rc n st" and "put_frame_in frame act (fa_client st) (fa_client st')"
    and "fa_minters st' \<noteq> [] \<longrightarrow> cells_ok 0 st' \<and> minted 0 st' \<le> n'"
    and "wellformed rc act" and "act_needs rc act \<subseteq> live st" and "live st' \<subseteq> after act (live st)"
  shows "client_ok rc n' st'"
proof (cases frame)
  case None
  have "live st' \<subseteq> live st" if "\<not> lost_create (act, None)"
    using assms(6) that by (auto simp: after_def lost_create_def)
  then show ?thesis
    using assms(1-3) None admitted_mono [OF _ order_refl, of rc _ _ "live st" "live st'"]
    by (auto simp: client_ok_def put_frame_in_def undisturbed_snoc undisturbed_intact no_error_snoc)
next
  case (Some f)
  then show ?thesis
    using assms admitted_snoc [OF _ assms(4-6)] by (auto simp: client_ok_def put_frame_in_def)
qed

lemma call_client_ok:
  assumes "benign srv" and "client_ok (srv_recordings srv) n st" and "sound st" and "n < id_capacity"
    and "fa_minters st \<noteq> []" and "op_allowed op 0 st"
    and "st' = facade_step (queued net srv oc dbg) 0 op st"
  shows "client_ok (srv_recordings srv) (Suc n) st' \<and> spares (freeing st) st st'"
proof -
  let ?lk = "queued net srv oc dbg" and ?rc = "srv_recordings srv"
  have ok: "cells_ok 0 st" "minted 0 st \<le> n" using assms(2,5) by (simp_all add: client_ok_def)
  have call: "call_ok ?lk 0 st st'"
    unfolding assms(7) using assms(1,4) ok by (intro allowed_call [OF ok(1) assms(6)]) (simp_all add: benign_def)
  then have cells: "cells_ok 0 st' \<and> minted 0 st' \<le> Suc n" using ok(2) by (auto simp: call_ok_def)
  consider "fa_client st' = fa_client st" "live st' \<subseteq> live st" | act where "issues ?lk act st st'"
    using call by (auto simp: call_ok_def)
  then show ?thesis
  proof cases
    case 1
    then show ?thesis
      using assms(2,3) cells admitted_mono [OF _ order_refl 1(2), of ?rc]
      by (auto simp: client_ok_def spares_def)
  next
    case (2 act)
    then have acts: "wellformed ?rc act" "act_needs ?rc act \<subseteq> live st" "live st' \<subseteq> after act (live st)"
      by (simp_all add: issues_def)
    consider "fa_client st' = enqueue_frame net act (fa_client st)"
      | "fa_client st' = snd (await_answer net srv act (fa_client st))" "destroys act = None"
      using 2 by (auto simp: issues_def)
    then show ?thesis
    proof cases
      case 1
      then obtain frame where put: "put_frame_in frame act (fa_client st) (fa_client st')"
        using enqueue_puts [of act "fa_client st" net] by auto
      then have "wi_engine (wire_of st') = wi_engine (wire_of st)" by (simp add: put_frame_in_def)
      then show ?thesis
        using put_frame_ok [OF assms(2) put _ acts] cells assms(3) by (simp add: spares_def)
    next
      case 2
      obtain frame m where put: "put_frame_in frame act (fa_client st) m"
        and m: "fa_client st' = (if frame = None then m else \<lparr>mb_wire = fold (take_frame net srv) (mb_queue m) (mb_wire m), mb_queue = []\<rparr>)"
        using await_puts [of act "fa_client st" net srv] 2(1) by auto
      let ?st = "st'\<lparr>fa_client := m\<rparr>"
      have "live ?st \<subseteq> after act (live st)" "fa_minters ?st \<noteq> [] \<longrightarrow> cells_ok 0 ?st \<and> minted 0 ?st \<le> Suc n"
        using acts(3) cells by (simp_all add: live_def cells_ok_def minted_def)
      then have st: "client_ok ?rc (Suc n) ?st"
        using put_frame_ok [OF assms(2), of frame act ?st "Suc n"] put acts(1,2) by simp
      have engine: "wi_engine (wire_of ?st) = wi_engine (wire_of st)" "sound ?st"
        using put assms(3) by (simp_all add: put_frame_in_def)
      have free: "freeing ?st = freeing st"
        using put 2(2) by (cases frame) (auto simp: put_frame_in_def freeing_def)
      show ?thesis
      proof (cases frame)
        case None
        then have "st' = ?st" using m by simp
        then show ?thesis using st engine by (metis Diff_subset spares_def)
      next
        case (Some f)
        then have "st' = drained net srv ?st" using m by (simp add: drained_def)
        then show ?thesis
          using drained_ok [OF assms(1) st engine(2), of net] engine(1) free by (simp add: spares_def)
      qed
    qed
  qed
qed

subsection \<open>The handshake of a client that joins\<close>

text \<open>While nothing is queued, a mailbox is a wire.\<close>

definition boxed :: "('w, 'h, 'g) wire facade \<Rightarrow> ('w, 'h, 'g) mailbox facade" where
  "boxed st = \<lparr>fa_client = \<lparr>mb_wire = fa_client st, mb_queue = []\<rparr>, fa_minters = fa_minters st, fa_cells = fa_cells st\<rparr>"

definition boxes :: "(('w, 'h, 'g) mailbox facade, 'e, 'a) step \<Rightarrow> (('w, 'h, 'g) wire facade, 'e, 'a) step \<Rightarrow> bool" where
  "boxes m m' \<longleftrightarrow> (\<forall>st. m (boxed st) = map_prod id boxed (m' st))"

lemma boxes_pure: "boxes (ret a) (ret a)" "boxes (fail e) (fail e)"
  by (simp_all add: boxes_def)

lemma boxes_andThen: "boxes m m' \<Longrightarrow> (\<And>a. boxes (f a) (f' a)) \<Longrightarrow> boxes (andThen m f) (andThen m' f')"
  unfolding boxes_def andThen_def by (auto split: prod.split flow.split)

lemma boxes_request: "boxes (request_on (queued net srv oc dbg) act) (request_on (served net srv oc dbg) act)"
  by (auto simp: boxes_def boxed_def request_on_def await_answer_def deliver_def split: prod.splits sum.splits)

lemma boxes_handshake: "boxes (connect_device (queued net srv oc dbg)) (connect_device (served net srv oc dbg))"
proof -
  have debug: "unexpected (queued net srv oc dbg) want got = unexpected (served net srv oc dbg) want got" for want got
    by (cases got) (simp_all add: unexpected_def queued_def served_def)
  have expect: "boxes (expect_ok (queued net srv oc dbg) r) (expect_ok (served net srv oc dbg) r)" for r
    by (cases r) (simp_all add: expect_ok_def debug boxes_pure)
  have hello: "boxes (case r of HelloAck _ \<Rightarrow> ret () | RespError code msg \<Rightarrow> fail (ServerError code msg)
        | other \<Rightarrow> fail (unexpected (queued net srv oc dbg) ''HelloAck'' other))
      (case r of HelloAck _ \<Rightarrow> ret () | RespError code msg \<Rightarrow> fail (ServerError code msg)
        | other \<Rightarrow> fail (unexpected (served net srv oc dbg) ''HelloAck'' other))" for r
    by (cases r) (simp_all add: debug boxes_pure)
  have minter: "boxes (\<lambda>st. (Ret (length (fa_minters st)), st\<lparr>fa_minters := fa_minters st @ [new_minter]\<rparr>))
      (\<lambda>st. (Ret (length (fa_minters st)), st\<lparr>fa_minters := fa_minters st @ [new_minter]\<rparr>))"
    by (simp add: boxes_def boxed_def)
  show ?thesis
    unfolding connect_device_def request_adapter_def request_device_def
    by (intro boxes_andThen boxes_request expect hello minter)
qed

lemma joined:
  "\<exists>st'. snd (connect_device (queued net srv oc dbg) (unconnected s)) = boxed st'
     \<and> wi_engine (fa_client st') = s \<and> fa_cells st' = [] \<and> greetings (wi_log (fa_client st'))
     \<and> (fa_minters st' = [] \<and> \<not> all_answered (wi_log (fa_client st')) \<or> fa_minters st' = [new_minter] \<and> wi_stream (fa_client st') = Opened)"
proof -
  let ?st = "\<lparr>fa_client = \<lparr>wi_engine = s, wi_log = [], wi_stream = Unopened, wi_next = 1\<rparr>, fa_minters = [], fa_cells = []\<rparr>
    :: ('a, 'b, 'c) wire facade"
  obtain r st' where run: "connect_device (served net srv oc dbg) ?st = (r, st')" by (rule prod.exhaust)
  have "connect_device (queued net srv oc dbg) (boxed ?st) = map_prod id boxed (r, st')"
    using boxes_handshake [of net srv oc dbg] run unfolding boxes_def by metis
  moreover have "boxed ?st = unconnected s" by (simp add: boxed_def unconnected_def)
  ultimately have "snd (connect_device (queued net srv oc dbg) (unconnected s)) = boxed st'" by simp
  moreover note greets = connect_device_greets(1) [OF run, unfolded only_greets_def]
  moreover from connect_device_greets(2) [OF run]
  have "fa_minters st' = [] \<and> \<not> all_answered (wi_log (fa_client st')) \<or> fa_minters st' = [new_minter] \<and> wi_stream (fa_client st') = Opened"
    by (elim disjE conjE) simp_all
  ultimately show ?thesis by (intro exI [of _ st']) auto
qed

subsection \<open>The invariant of the hub\<close>

definition hub_ok :: "'w recording bincode \<Rightarrow> nat \<Rightarrow> ('w, 'h, 'g) hub \<Rightarrow> bool" where
  "hub_ok rc n h \<longleftrightarrow> \<not> eng_poisoned (hub_engine h) \<and> apart rc h
     \<and> (\<forall>k < length (hub_clients h). k \<notin> hub_gone h \<longrightarrow> client_ok rc n (enter (hub_engine h) (hub_clients h ! k)))"

lemma enter_simps [simp]:
  "fa_cells (enter s st) = fa_cells st" "fa_minters (enter s st) = fa_minters st" "queue_of (enter s st) = queue_of st"
  "wi_engine (wire_of (enter s st)) = s" "wi_log (wire_of (enter s st)) = wi_log (wire_of st)"
  "live (enter s st) = live st" "minted 0 (enter s st) = minted 0 st" "freeing (enter s st) = freeing st"
  "in_use rc (enter s st) = in_use rc st" "enter (wi_engine (wire_of st)) st = st" "op_allowed op dev (enter s st) = op_allowed op dev st"
  "enter s (enter s' st) = enter s st" "cells_ok 0 (enter s st) = cells_ok 0 st"
  by (simp_all add: enter_def live_def minted_def freeing_def in_use_def cells_ok_def)
    (cases op; simp add: op_allowed_def live_def)

text \<open>What one client does leaves the others in order.\<close>

lemma other_client_ok:
  assumes "client_ok rc n (enter s c)" and "spares D (enter s st) st'" and "D \<inter> in_use rc c = {}" and "n \<le> n'"
  shows "client_ok rc n' (enter (wi_engine (wire_of st')) c)"
proof -
  have "admitted rc (map snd (queue_of c)) (known (wi_engine (wire_of st'))) (live c)"
    if "admitted rc (map snd (queue_of c)) (known s) (live c)"
    using admitted_mono [OF admitted_without [OF that, of D] _ order_refl] assms(2,3) by (auto simp: spares_def in_use_def)
  then show ?thesis using assms(1,4) by (auto simp: client_ok_def)
qed

lemma hub_moved_ok:
  assumes "hub_ok rc n h" and "k < length (hub_clients h)" and "n \<le> n'"
    and "h' = h\<lparr>hub_engine := wi_engine (wire_of st'), hub_clients := (hub_clients h)[k := st']\<rparr>" and "apart rc h'"
    and "k \<notin> hub_gone h \<Longrightarrow> client_ok rc n' st'"
    and "spares (freeing (hub_clients h ! k)) (enter (hub_engine h) (hub_clients h ! k)) st'"
  shows "hub_ok rc n' h'"
  unfolding hub_ok_def
proof (intro conjI allI impI)
  show "\<not> eng_poisoned (hub_engine h')" using assms(7) by (simp add: assms(4) spares_def)
  show "apart rc h'" by (rule assms(5))
  fix j
  assume j: "j < length (hub_clients h')" "j \<notin> hub_gone h'"
  show "client_ok rc n' (enter (hub_engine h') (hub_clients h' ! j))"
  proof (cases "j = k")
    case True
    then show ?thesis using assms(2,6) j by (simp add: assms(4))
  next
    case False
    then have c: "client_ok rc n (enter (hub_engine h) (hub_clients h ! j))"
      "freeing (hub_clients h ! k) \<inter> in_use rc (hub_clients h ! j) = {}"
      using assms(1,2) j by (auto simp: hub_ok_def apart_def assms(4))
    show ?thesis
      using other_client_ok [OF c(1) assms(7) c(2) assms(3)] False by (simp add: assms(4))
  qed
qed

lemma apart_shrink:
  assumes "apart rc h" and "k < length (hub_clients h)" and "freeing st' \<subseteq> freeing (hub_clients h ! k)"
    and "in_use rc st' \<subseteq> in_use rc (hub_clients h ! k)"
  shows "apart rc (h\<lparr>hub_engine := s, hub_clients := (hub_clients h)[k := st']\<rparr>)"
  using assms by (auto simp: apart_def nth_list_update) blast+

lemma hub_turn_ok:
  assumes "hub_ok (srv_recordings srv) n h" and "benign srv" and "event_allowed net srv oc dbg (Turn k op) h" and "n < id_capacity"
  shows "hub_ok (srv_recordings srv) (Suc n) (hub_turn net srv oc dbg k op h)"
proof -
  let ?st = "enter (hub_engine h) (hub_clients h ! k)"
  have k: "k < length (hub_clients h)" "k \<notin> hub_gone h" "apart (srv_recordings srv) (hub_turn net srv oc dbg k op h)"
    using assms(3) by simp_all
  have "client_ok (srv_recordings srv) (Suc n) (facade_step (queued net srv oc dbg) 0 op ?st)
      \<and> spares (freeing ?st) ?st (facade_step (queued net srv oc dbg) 0 op ?st)"
    using assms k by (intro call_client_ok [OF assms(2) _ _ assms(4) _ _ refl]) (simp_all add: hub_ok_def)
  then show ?thesis
    by (intro hub_moved_ok [where st' = "facade_step (queued net srv oc dbg) 0 op ?st", OF assms(1) k(1) _ _ k(3)])
      (simp_all add: hub_turn_def Let_def)
qed

lemma handle_next_state:
  "fa_cells (handle_next net srv st) = fa_cells st" "fa_minters (handle_next net srv st) = fa_minters st"
  "freeing (handle_next net srv st) \<subseteq> freeing st" "in_use rc (handle_next net srv st) \<subseteq> in_use rc st"
  by (auto simp: handle_next_def freeing_def in_use_def live_def split: list.split)

text \<open>Handling a frame of a client that is gone, whatever it does to that client's resources.\<close>

lemma handle_next_spares:
  assumes "benign srv" and "sound st"
  shows "spares (freeing st) st (handle_next net srv st)"
proof (cases "queue_of st")
  case Nil
  then show ?thesis using assms(2) by (simp add: handle_next_def spares_def)
next
  case (Cons frame queue)
  obtain rid act where frame: "frame = (rid, act)" by (rule prod.exhaust)
  obtain x where p: "processed srv act x (wi_engine (wire_of st)) (wi_engine (take_frame net srv (rid, act) (wire_of st)))"
    using take_frame_delivers [OF assms] unfolding delivers_def by blast
  have "\<not> eng_poisoned (wi_engine (take_frame net srv (rid, act) (wire_of st)))" using p by (simp add: processed_def)
  then show ?thesis
    using processed_known [OF p] by (auto simp: spares_def handle_next_def Cons frame freeing_def)
qed

lemma hub_handle_ok:
  assumes "hub_ok (srv_recordings srv) n h" and "benign srv" and "k < length (hub_clients h)"
  shows "hub_ok (srv_recordings srv) n (hub_handle net srv k h)"
proof -
  let ?st = "enter (hub_engine h) (hub_clients h ! k)"
  have sound: "sound ?st" using assms(1) by (simp add: hub_ok_def)
  have "apart (srv_recordings srv) (hub_handle net srv k h)"
    unfolding hub_handle_def Let_def
    using assms(1) handle_next_state(3) [of net srv ?st] handle_next_state(4) [of "srv_recordings srv" net srv ?st]
    by (intro apart_shrink [OF _ assms(3)]) (simp_all add: hub_ok_def)
  moreover have "client_ok (srv_recordings srv) n (handle_next net srv ?st)" if "k \<notin> hub_gone h"
    using handle_next_ok [OF assms(2) _ sound] assms(1,3) that by (auto simp: hub_ok_def)
  ultimately show ?thesis
    using handle_next_spares [OF assms(2) sound, of net]
    by (intro hub_moved_ok [OF assms(1,3) order_refl]) (simp_all add: hub_handle_def Let_def)
qed

lemma hub_join_ok:
  assumes "hub_ok rc n h"
  shows "hub_ok rc n (hub_join net srv oc dbg h)"
proof -
  obtain st where st: "snd (connect_device (queued net srv oc dbg) (unconnected (hub_engine h))) = boxed st"
    "wi_engine (fa_client st) = hub_engine h" "fa_cells st = []" "greetings (wi_log (fa_client st))"
    "fa_minters st = [] \<or> fa_minters st = [new_minter]"
    using joined [of net srv oc dbg "hub_engine h"] by blast
  have join: "hub_join net srv oc dbg h = h\<lparr>hub_clients := hub_clients h @ [boxed st]\<rparr>"
    by (simp add: hub_join_def st(1) Let_def) (simp add: boxed_def st(2))
  have quiet: "live (boxed st) = {}" "freeing (boxed st) = {}" "in_use rc (boxed st) = {}"
    by (simp_all add: boxed_def live_def freeing_def in_use_def st(3))
  have "client_ok rc n (boxed st)"
    using st(3,5) greetings_harmless [OF st(4)]
    by (auto simp: client_ok_def boxed_def cells_ok_def live_def minted_def mints_used_def new_minter_def)
  moreover have "enter (hub_engine h) (boxed st) = boxed st"
    by (simp add: enter_def boxed_def flip: st(2))
  moreover have "apart rc (h\<lparr>hub_clients := hub_clients h @ [boxed st]\<rparr>)"
    using assms by (auto simp: hub_ok_def apart_def nth_append quiet less_Suc_eq)
  ultimately show ?thesis
    using assms by (auto simp: join hub_ok_def nth_append less_Suc_eq)
qed

lemma hub_ok_Suc: "hub_ok rc n h \<Longrightarrow> hub_ok rc (Suc n) h"
  by (force simp: hub_ok_def client_ok_def)

lemma hub_step_ok:
  assumes "hub_ok (srv_recordings srv) n h" and "benign srv" and "event_allowed net srv oc dbg e h" and "n < id_capacity"
  shows "hub_ok (srv_recordings srv) (Suc n) (hub_step net srv oc dbg e h)"
proof (cases e)
  case Join
  then show ?thesis using hub_ok_Suc [OF hub_join_ok [OF assms(1)]] by simp
next
  case (Turn k op)
  then show ?thesis using hub_turn_ok [OF assms(1,2) _ assms(4)] assms(3) by simp
next
  case (Handle k)
  then show ?thesis using hub_ok_Suc [OF hub_handle_ok [OF assms(1,2)]] assms(3) by simp
next
  case (Gone k)
  then show ?thesis using hub_ok_Suc [OF assms(1)] by (auto simp: hub_ok_def apart_def)
qed

interpretation hub_program: budgeted "\<lambda>n h. benign srv \<and> hub_ok (srv_recordings srv) n h" "event_allowed net srv oc dbg" "hub_step net srv oc dbg" id_capacity
  for net srv oc dbg
  by unfold_locales (auto intro: hub_step_ok)

text \<open>C26: a server serves clients one after the other and next to each other. Whatever clients connect to
  one server, make calls and go away, with or without dropping their handles, and in whatever order the
  server handles the frames of the different clients, as long as each names only what it has live
  handles for, and no client's \<open>Destroy\<close> of a buffer is under way while another client has a live handle
  with the same id or has sent a frame that names it, no client that is there gets an error, up to the
  first of its own creates that is lost; and when none was lost, every resource it has a live handle for
  is known to the server or its create is on its way, whatever earlier clients have left in the tables.\<close>

theorem clients_share_a_server:
  assumes "benign srv" and "events_allowed net srv oc dbg es (new_hub g)" and "length es < 2 ^ 64"
    and "h = hub_run net srv oc dbg es (new_hub g)"
  shows "\<forall>k < length (hub_clients h). k \<notin> hub_gone h \<longrightarrow>
    no_error (undisturbed (wi_log (wire_of (hub_clients h ! k))))
    \<and> (intact (wi_log (wire_of (hub_clients h ! k))) \<longrightarrow>
        live (hub_clients h ! k) \<subseteq> known (hub_engine h)
          \<union> {r. \<exists>act \<in> set (map snd (queue_of (hub_clients h ! k))). creates act = Some r})"
proof -
  have "hub_ok (srv_recordings srv) 0 (new_hub g)" by (simp add: hub_ok_def new_hub_def new_engine_def apart_def)
  with hub_program.run_keeps_ok [OF _ assms(2), of 0] assms have "hub_ok (srv_recordings srv) (length es) h"
    by (simp add: id_capacity_def hub_run_def)
  then show ?thesis using admitted_live by (fastforce simp: hub_ok_def client_ok_def)
qed

subsection \<open>Two clients that collide\<close>

abbreviation answered :: "('w, 'h, 'g) mailbox facade \<Rightarrow> bool" where
  "answered st \<equiv> all_answered (wi_log (wire_of st))"

text \<open>Frames that have been answered at the end were queued when they were sent, and taken by the server.\<close>

lemma enqueued:
  assumes "all_answered (wi_log (mb_wire (enqueue_frame net act m)))" and "wi_stream (mb_wire m) = Opened"
  shows "\<exists>rid w. enqueue_frame net act m = \<lparr>mb_wire = w, mb_queue = mb_queue m @ [(rid, act)]\<rparr>
    \<and> wi_engine w = wi_engine (mb_wire m) \<and> wi_stream w = Opened \<and> all_answered (wi_log (mb_wire m))"
proof -
  obtain x w where p: "posts net act (mb_wire m) = (x, w)" by (rule prod.exhaust)
  note kept = posts_keeps [OF p]
  obtain rid where x: "x = Inr rid"
    using assms p by (cases x) (auto simp: enqueue_frame_def logged_def all_answered_snoc)
  have "wi_stream w = Opened" using p assms(2) by (auto simp: x posts_def Let_def split: sum.splits)
  then show ?thesis using assms p kept by (auto simp: enqueue_frame_def x)
qed

lemma taken:
  assumes "all_answered (wi_log (take_frame net srv (rid, act) w))"
  shows "wi_engine (take_frame net srv (rid, act) w) = snd (handle srv act (wi_engine w))
    \<and> wi_stream (take_frame net srv (rid, act) w) = wi_stream w \<and> all_answered (wi_log w)"
proof -
  obtain x w' where a: "arrives net srv rid act w = (x, w')" by (rule prod.exhaust)
  have "x \<noteq> Inl e" and "all_answered (wi_log w)" for e
    using assms arrives_keeps [OF a] by (auto simp: take_frame_def a logged_def all_answered_snoc)
  then show ?thesis
    using a by (cases x) (auto simp: take_frame_def logged_def arrives_def split: if_splits prod.splits flow.splits option.splits sum.splits)
qed

text \<open>Logs only grow.\<close>

lemma take_frame_grows: "all_answered (wi_log (take_frame net srv frame w)) \<Longrightarrow> all_answered (wi_log w)"
  using taken [of net srv "fst frame" "snd frame" w] by simp

lemma fold_take_frame_grows: "all_answered (wi_log (fold (take_frame net srv) frames w)) \<Longrightarrow> all_answered (wi_log w)"
  by (induction frames arbitrary: w) (auto dest: take_frame_grows)

lemma put_frame_in_grows:
  "put_frame_in frame act m m' \<Longrightarrow> all_answered (wi_log (mb_wire m')) \<Longrightarrow> all_answered (wi_log (mb_wire m))"
  by (auto simp: put_frame_in_def all_answered_snoc split: option.splits)

lemma call_grows:
  assumes "answered (facade_step (queued net srv oc dbg) dev op st)"
  shows "answered st"
proof -
  have "all_answered (wi_log (mb_wire m))" if "all_answered (wi_log (mb_wire (enqueue_frame net act m)))" for act m
    using enqueue_puts [of act m net] put_frame_in_grows [OF _ that] by blast
  moreover have "all_answered (wi_log (mb_wire m))" if "all_answered (wi_log (mb_wire (snd (await_answer net srv act m))))" for act m
    using await_puts [of act m net srv] that put_frame_in_grows [of _ act m] fold_take_frame_grows by (fastforce split: if_splits)
  ultimately show ?thesis
    using call_on_client [of "queued net srv oc dbg" dev op st] assms by auto
qed

lemma handle_grows: "answered (handle_next net srv st) \<Longrightarrow> answered st"
  by (auto simp: handle_next_def dest: take_frame_grows split: list.splits)

lemma handle_create_buffer:
  assumes "benign srv" and "\<not> eng_poisoned s"
  shows "\<exists>b gpu. wg_create (srv_device srv) (MkBuffer desc) (eng_gpu s) = (Some b, gpu)
    \<and> handle srv (CreateBuffer i desc) s =
        (Ret (Some RespOk), s\<lparr>eng_gpu := gpu, eng_tables := insert_in buffers_update i b (eng_tables s)\<rparr>)"
proof -
  obtain r gpu where create: "wg_create (srv_device srv) (MkBuffer desc) (eng_gpu s) = (r, gpu)"
    by (rule prod.exhaust)
  moreover obtain b where "r = Some b"
    using assms(1) create by (metis benign_def never_panics_def fst_conv option.exhaust)
  ultimately show ?thesis
    using assms(2)
    by (simp add: handle_def answer_def create_buffer_def create_unlocked_def on_gpu_def gpu_create_def
        store_def locked_def andThen_def)
qed

text \<open>A client that creates a buffer, and one whose last handle of a buffer goes.\<close>

lemma creates_buffer:
  assumes "fa_cells c = []" and "fa_minters c = [new_minter]" and "wi_stream (wire_of c) = Opened" and "queue_of c = []"
    and "st = facade_step (queued net srv oc dbg) 0 (OpCreateBuffer desc) c" and "answered st"
  shows "fa_cells st = [\<lparr>cell_resource = RBuffer (Id 1), cell_count = 1\<rparr>]
    \<and> (\<exists>rid w. fa_client st = \<lparr>mb_wire = w, mb_queue = [(rid, CreateBuffer (Id 1) desc)]\<rparr>
         \<and> wi_engine w = wi_engine (wire_of c) \<and> wi_stream w = Opened)"
proof -
  have "mint_buffer new_minter = (Id 1, new_minter\<lparr>next_buffer := 1\<rparr>)"
    by (simp add: mint_defs new_minter_def new_id_def)
  then have st: "fa_cells st = [\<lparr>cell_resource = RBuffer (Id 1), cell_count = 1\<rparr>]"
    "fa_client st = enqueue_frame net (CreateBuffer (Id 1) desc) (fa_client c)"
    using assms(1,2) by (simp_all add: assms(5) create_buffer_on_def mint_with_def new_handle_defs send_on_def)
  then show ?thesis
    using enqueued [OF assms(6) [unfolded st(2)] assms(3)] assms(4) by auto
qed

lemma handles_create:
  assumes "benign srv" and "\<not> eng_poisoned s" and "fa_client st = \<lparr>mb_wire = w, mb_queue = [(rid, CreateBuffer i desc)]\<rparr>"
    and "st' = handle_next net srv (enter s st)" and "answered st'"
  shows "\<exists>b gpu w'. wg_create (srv_device srv) (MkBuffer desc) (eng_gpu s) = (Some b, gpu)
    \<and> st' = st\<lparr>fa_client := \<lparr>mb_wire = w', mb_queue = []\<rparr>\<rparr> \<and> \<not> eng_poisoned (wi_engine w')
    \<and> eng_tables (wi_engine w') = insert_in buffers_update i b (eng_tables s)
    \<and> wi_stream w' = wi_stream w \<and> all_answered (wi_log w)"
proof -
  let ?w = "take_frame net srv (rid, CreateBuffer i desc) (w\<lparr>wi_engine := s\<rparr>)"
  have st': "st' = st\<lparr>fa_client := \<lparr>mb_wire = ?w, mb_queue = []\<rparr>\<rparr>"
    by (simp add: assms(4) handle_next_def enter_def assms(3))
  obtain b gpu where create: "wg_create (srv_device srv) (MkBuffer desc) (eng_gpu s) = (Some b, gpu)"
    "handle srv (CreateBuffer i desc) s =
        (Ret (Some RespOk), s\<lparr>eng_gpu := gpu, eng_tables := insert_in buffers_update i b (eng_tables s)\<rparr>)"
    using handle_create_buffer [OF assms(1,2)] by blast
  have "wi_engine ?w = snd (handle srv (CreateBuffer i desc) s)" "wi_stream ?w = wi_stream w" "all_answered (wi_log w)"
    using taken [of net srv rid "CreateBuffer i desc" "w\<lparr>wi_engine := s\<rparr>"] assms(5) by (simp_all add: st')
  with create assms(2) show ?thesis by (intro exI [of _ b] exI [of _ gpu] exI [of _ ?w]) (simp add: st')
qed

lemma drops_buffer:
  assumes "benign srv" and "fa_cells st = [\<lparr>cell_resource = RBuffer i, cell_count = 1\<rparr>]"
    and "fa_client st = \<lparr>mb_wire = w, mb_queue = []\<rparr>" and "wi_stream w = Opened" and "\<not> eng_poisoned (wi_engine w)"
    and "st1 = facade_step (queued net srv oc dbg) 0 (OpDrop 0) st" and "st2 = handle_next net srv st1" and "answered st2"
  shows "wi_engine (wire_of st1) = wi_engine w \<and> RBuffer i \<notin> known (wi_engine (wire_of st2)) \<and> all_answered (wi_log w)"
proof -
  let ?act = "Destroy (RBuffer i)"
  have st1: "fa_client st1 = enqueue_frame net ?act (fa_client st)"
    by (simp add: assms(6) drop_cell_eq assms(2) send_on_def)
  have "answered st1" using assms(7,8) handle_grows by simp
  then obtain rid w1 where w1: "fa_client st1 = \<lparr>mb_wire = w1, mb_queue = [(rid, ?act)]\<rparr>" "wi_engine w1 = wi_engine w" "all_answered (wi_log w)"
    using enqueued [of net ?act "fa_client st"] assms(3,4) st1 by auto
  have st2: "fa_client st2 = \<lparr>mb_wire = take_frame net srv (rid, ?act) w1, mb_queue = []\<rparr>"
    by (simp add: assms(7) handle_next_def w1(1))
  obtain x where x: "wi_log (take_frame net srv (rid, ?act) w1) = wi_log w1 @ [(?act, x)]"
    "processed srv ?act x (wi_engine w1) (wi_engine (take_frame net srv (rid, ?act) w1))"
    using take_frame_delivers [OF assms(1), of w1 ?act net rid] assms(5) w1(2) unfolding delivers_def by auto
  moreover have "x \<noteq> None" using assms(8) x(1) by (simp add: st2 all_answered_snoc)
  ultimately have "RBuffer i \<notin> known (wi_engine (take_frame net srv (rid, ?act) w1))"
    by (auto simp: processed_def acceptable_def after_def)
  then show ?thesis using w1 by (simp add: st2)
qed

text \<open>Two clients that join a fresh server and create a buffer each.\<close>

lemma two_creates:
  assumes "benign srv"
    and "h = hub_run net srv oc dbg
      [Join, Join, Turn 0 (OpCreateBuffer desc0), Turn 1 (OpCreateBuffer desc1), Handle 0, Handle 1] (new_hub g)"
  shows "\<exists>t0 t1. h = \<lparr>hub_engine = wi_engine (wire_of t1), hub_clients = [t0, t1], hub_gone = {}\<rparr>
    \<and> (answered t0 \<longrightarrow> answered t1 \<longrightarrow>
        fa_cells t0 = [\<lparr>cell_resource = RBuffer (Id 1), cell_count = 1\<rparr>]
        \<and> fa_cells t1 = [\<lparr>cell_resource = RBuffer (Id 1), cell_count = 1\<rparr>]
        \<and> (\<exists>gpu b gpu' w. wg_create (srv_device srv) (MkBuffer desc1) gpu = (Some b, gpu')
             \<and> fa_client t1 = \<lparr>mb_wire = w, mb_queue = []\<rparr> \<and> wi_stream w = Opened
             \<and> \<not> eng_poisoned (wi_engine w) \<and> buffers (eng_tables (wi_engine w)) (Id 1) = Some b))"
proof -
  let ?lk = "queued net srv oc dbg" and ?cell = "\<lparr>cell_resource = RBuffer (Id 1), cell_count = 1\<rparr>"
  define c where "c = snd (connect_device ?lk (unconnected (new_engine g :: ('b, 'c) engine)))"
  have c: "wi_engine (wire_of c) = new_engine g" "fa_cells c = []" "queue_of c = []"
    "answered c \<Longrightarrow> fa_minters c = [new_minter] \<and> wi_stream (wire_of c) = Opened"
    using joined [of net srv oc dbg "new_engine g"] by (auto simp: c_def boxed_def)
  have same: "enter (new_engine g) c = c" using enter_simps(10) [of c] c by simp
  define st0 where "st0 = facade_step ?lk 0 (OpCreateBuffer desc0) c"
  define st1 where "st1 = facade_step ?lk 0 (OpCreateBuffer desc1) c"
  define t0 where "t0 = handle_next net srv (enter (new_engine g) st0)"
  define t1 where "t1 = handle_next net srv (enter (wi_engine (wire_of t0)) st1)"
  have "wi_engine (wire_of (facade_step ?lk 0 (OpCreateBuffer desc) c)) = new_engine g" for desc
    using enqueue_puts [of "CreateBuffer i desc" "fa_client c" net for i] c(1)
    by (auto simp: create_buffer_on_def mint_with_def new_handle_defs send_on_def put_frame_in_def split: prod.split)
  then have engines: "wi_engine (wire_of st0) = new_engine g" "wi_engine (wire_of st1) = new_engine g"
    by (simp_all only: st0_def st1_def)
  have h: "h = \<lparr>hub_engine = wi_engine (wire_of t1), hub_clients = [t0, t1], hub_gone = {}\<rparr>"
    by (simp add: assms(2) hub_run_def new_hub_def hub_join_def Let_def hub_turn_def hub_handle_def same engines c(1)
        del: facade_step.simps flip: c_def st0_def st1_def t0_def t1_def)
  moreover have "fa_cells t0 = [?cell] \<and> fa_cells t1 = [?cell]
        \<and> (\<exists>gpu b gpu' w. wg_create (srv_device srv) (MkBuffer desc1) gpu = (Some b, gpu')
             \<and> fa_client t1 = \<lparr>mb_wire = w, mb_queue = []\<rparr> \<and> wi_stream w = Opened
             \<and> \<not> eng_poisoned (wi_engine w) \<and> buffers (eng_tables (wi_engine w)) (Id 1) = Some b)"
    if ans: "answered t0" "answered t1"
  proof -
    have ans0: "answered st0" using ans(1) handle_grows [of net srv "enter (new_engine g) st0"] by (simp add: t0_def)
    have ans1: "answered st1" using ans(2) handle_grows [of net srv "enter (wi_engine (wire_of t0)) st1"] by (simp add: t1_def)
    note c = c(1-3) c(4) [OF call_grows [OF ans0 [unfolded st0_def]]]
    obtain rid w0 where st0: "fa_cells st0 = [?cell]" "fa_client st0 = \<lparr>mb_wire = w0, mb_queue = [(rid, CreateBuffer (Id 1) desc0)]\<rparr>"
      using creates_buffer [OF c(2) _ _ c(3) st0_def ans0] c(4) by auto
    obtain rid' w1 where st1: "fa_cells st1 = [?cell]" "fa_client st1 = \<lparr>mb_wire = w1, mb_queue = [(rid', CreateBuffer (Id 1) desc1)]\<rparr>"
      "wi_stream w1 = Opened"
      using creates_buffer [OF c(2) _ _ c(3) st1_def ans1] c(4) by auto
    have sound: "\<not> eng_poisoned (new_engine g)" by (simp add: new_engine_def)
    have t0: "fa_cells t0 = [?cell]" "\<not> eng_poisoned (wi_engine (wire_of t0))"
      using handles_create [OF assms(1) sound st0(2) t0_def ans(1)] st0(1) by auto
    show ?thesis
      using handles_create [OF assms(1) t0(2) st1(2) t1_def ans(2)] st1 t0(1) by (auto simp: insert_in_def) blast
  qed
  ultimately show ?thesis by blast
qed

text \<open>C27: the ids of two clients collide. When two clients connect to a fresh server, each creates a
  buffer, and the server handles the frames of the first and of the second, both have got the same id and
  both handles are live, but the server knows one buffer by it, the later one: whatever the first client
  writes to its buffer, reads from it or binds from then on is the buffer of the second. When the second
  drops its handle, and the server has handled that, it has forgotten the buffer the first client still
  has a handle for. (Provided that no frame is lost.)\<close>

theorem concurrent_clients_collide:
  assumes "benign srv"
    and "h = hub_run net srv oc dbg
      [Join, Join, Turn 0 (OpCreateBuffer desc0), Turn 1 (OpCreateBuffer desc1), Handle 0, Handle 1] (new_hub g)"
    and "h' = hub_run net srv oc dbg [Turn 1 (OpDrop 0), Handle 1] h"
    and "list_all answered (hub_clients h')"
  shows "live (hub_clients h ! 0) = {RBuffer (Id 1)} \<and> live (hub_clients h ! 1) = {RBuffer (Id 1)}
    \<and> (\<exists>gpu b gpu'. wg_create (srv_device srv) (MkBuffer desc1) gpu = (Some b, gpu')
         \<and> buffers (eng_tables (hub_engine h)) (Id 1) = Some b)
    \<and> live (hub_clients h' ! 0) = {RBuffer (Id 1)} \<and> RBuffer (Id 1) \<notin> known (hub_engine h')"
proof -
  let ?cell = "\<lparr>cell_resource = RBuffer (Id 1), cell_count = 1\<rparr>"
  obtain t0 t1 where h: "h = \<lparr>hub_engine = wi_engine (wire_of t1), hub_clients = [t0, t1], hub_gone = {}\<rparr>"
    and colliding: "answered t0 \<Longrightarrow> answered t1 \<Longrightarrow> fa_cells t0 = [?cell] \<and> fa_cells t1 = [?cell]
        \<and> (\<exists>gpu b gpu' w. wg_create (srv_device srv) (MkBuffer desc1) gpu = (Some b, gpu')
             \<and> fa_client t1 = \<lparr>mb_wire = w, mb_queue = []\<rparr> \<and> wi_stream w = Opened
             \<and> \<not> eng_poisoned (wi_engine w) \<and> buffers (eng_tables (wi_engine w)) (Id 1) = Some b)"
    using two_creates [OF assms(1,2)] by blast
  define u1 where "u1 = facade_step (queued net srv oc dbg) 0 (OpDrop 0) t1"
  define v1 where "v1 = handle_next net srv u1"
  have h': "h' = \<lparr>hub_engine = wi_engine (wire_of v1), hub_clients = [t0, v1], hub_gone = {}\<rparr>"
    by (simp add: assms(3) h hub_run_def hub_turn_def hub_handle_def Let_def del: facade_step.simps flip: u1_def v1_def)
  have ans: "answered t0" "answered v1" using assms(4) by (simp_all add: h')
  have "answered t1" by (rule call_grows [OF handle_grows [OF ans(2) [unfolded v1_def], unfolded u1_def]])
  then obtain gpu b gpu' w where t: "fa_cells t0 = [?cell]" "fa_cells t1 = [?cell]"
      "wg_create (srv_device srv) (MkBuffer desc1) gpu = (Some b, gpu')"
      "fa_client t1 = \<lparr>mb_wire = w, mb_queue = []\<rparr>" "wi_stream w = Opened" "\<not> eng_poisoned (wi_engine w)"
      "buffers (eng_tables (wi_engine w)) (Id 1) = Some b"
    using colliding [OF ans(1)] by blast
  then have "live t0 = {RBuffer (Id 1)}" "live t1 = {RBuffer (Id 1)}" by (simp_all add: live_eq)
  moreover have "RBuffer (Id 1) \<notin> known (wi_engine (wire_of v1))"
    using drops_buffer [OF assms(1) t(2,4,5,6) u1_def v1_def ans(2)] by blast
  moreover have "\<exists>gpu b gpu'. wg_create (srv_device srv) (MkBuffer desc1) gpu = (Some b, gpu')
         \<and> buffers (eng_tables (hub_engine h)) (Id 1) = Some b"
    using t(3,4,7) by (intro exI conjI) (simp_all add: h)
  ultimately show ?thesis by (simp add: h h')
qed

subsection \<open>Witnesses\<close>

lemma demo_joined:
  "snd (connect_device (queued demo_net srv oc dbg) (unconnected s)) =
    \<lparr>fa_client = \<lparr>mb_wire = (fa_client (demo_start undefined))\<lparr>wi_engine := s\<rparr>, mb_queue = []\<rparr>, fa_minters = [new_minter], fa_cells = []\<rparr>"
proof -
  let ?st = "\<lparr>fa_client = \<lparr>wi_engine = s, wi_log = [], wi_stream = Unopened, wi_next = 1\<rparr>, fa_minters = [], fa_cells = []\<rparr>
    :: ('a, 'b, 'c) wire facade"
  have "boxed ?st = unconnected s" by (simp add: boxed_def unconnected_def)
  moreover have "snd (connect_device (served demo_net srv oc dbg) ?st) = (demo_start undefined)\<lparr>fa_client := (fa_client (demo_start undefined))\<lparr>wi_engine := s\<rparr>\<rparr>"
    by (simp add: connect_device_def request_adapter_def request_device_def request_on_def expect_ok_def andThen_def
      demo_start_def dependable_deliver [OF demo_dependable _ handle_greets])
  ultimately show ?thesis
    using boxes_handshake [of demo_net srv oc dbg, unfolded boxes_def, rule_format, of ?st] by (simp add: boxed_def demo_start_def)
qed

definition demo_events :: "nat hub_event list" where
  "demo_events = [Join, Turn 0 (OpCreateBuffer demo_buffer), Handle 0, Gone 0, Join, Turn 1 (OpCreateBuffer demo_buffer), Join,
     Turn 2 (OpCreateBuffer demo_buffer), Turn 2 (OpCreateBuffer demo_buffer), Handle 1, Turn 2 (OpDrop 1), Handle 2, Handle 2, Handle 2]"

lemma demo_stream [simp]:
  "wi_stream (fa_client (demo_start g)) = Opened" "wi_next (fa_client (demo_start g)) = 4"
  by (simp_all add: demo_start_def)

lemma demo_enqueue:
  "wi_stream (mb_wire m) = Opened \<Longrightarrow> enqueue_frame demo_net act m =
    \<lparr>mb_wire = (mb_wire m)\<lparr>wi_next := wi_next (mb_wire m) + 1\<rparr>, mb_queue = mb_queue m @ [(wi_next (mb_wire m), act)]\<rparr>"
  by (simp add: enqueue_frame_def posts_def Let_def demo_net_def encode_frame_def MAX_FRAME_BYTES_def)

lemma demo_events_allowed: "events_allowed demo_net demo_service False demo_debug demo_events (new_hub 0)"
  by (simp add: demo_events_def new_hub_def hub_join_def demo_joined Let_def hub_turn_def hub_handle_def enter_def facade_eval
      new_minter_def demo_enqueue handle_next_def apart_def freeing_def in_use_def live_def All_less_Suc numeral_2_eq_2)
    auto

theorem clients_share_a_server_witness:
  "list_all (\<lambda>st. no_error (undisturbed (wi_log (wire_of st))))
     (tl (hub_clients (hub_run demo_net demo_service False demo_debug demo_events (new_hub 0))))"
proof -
  let ?h = "hub_run demo_net demo_service False demo_debug demo_events (new_hub 0)"
  have "length demo_events < 2 ^ 64" by (simp add: demo_events_def)
  note clients = clients_share_a_server [OF demo_benign demo_events_allowed this refl]
  have "hub_gone ?h = {0}"
    by (simp add: hub_run_def demo_events_def hub_join_def hub_turn_def hub_handle_def Let_def new_hub_def)
  then show ?thesis using clients by (auto simp: list_all_length nth_tl)
qed

text \<open>The frames of two clients on a transport that works.\<close>

lemma demo_taken:
  assumes "wi_stream w = Opened" and "\<not> eng_poisoned (wi_engine w)"
  shows "wi_stream (take_frame demo_net demo_service (rid, act) w) = Opened"
    "\<not> eng_poisoned (wi_engine (take_frame demo_net demo_service (rid, act) w))"
    "all_answered (wi_log (take_frame demo_net demo_service (rid, act) w)) = all_answered (wi_log w)"
proof -
  obtain r s where "handle demo_service act (wi_engine w) = (Ret (Some r), s)" "\<not> eng_poisoned s"
    using handle_acceptance [OF assms(2), of demo_service act] demo_benign by (auto simp: benign_def)
  then have "take_frame demo_net demo_service (rid, act) w = w\<lparr>wi_engine := s, wi_log := wi_log w @ [(act, Some r)]\<rparr>"
    and "\<not> eng_poisoned s"
    using assms(1) by (simp_all add: take_frame_def arrives_def logged_def demo_net_def encode_frame_def MAX_FRAME_BYTES_def)
  then show "wi_stream (take_frame demo_net demo_service (rid, act) w) = Opened"
    "\<not> eng_poisoned (wi_engine (take_frame demo_net demo_service (rid, act) w))"
    "all_answered (wi_log (take_frame demo_net demo_service (rid, act) w)) = all_answered (wi_log w)"
    using assms(1) by (simp_all add: all_answered_snoc)
qed

lemma demo_collision:
  "list_all answered (hub_clients (hub_run demo_net demo_service False demo_debug [Turn 1 (OpDrop 0), Handle 1]
     (hub_run demo_net demo_service False demo_debug [Join, Join, Turn 0 (OpCreateBuffer demo_buffer),
       Turn 1 (OpCreateBuffer demo_buffer), Handle 0, Handle 1] (new_hub 0))))"
proof -
  have "all_answered (wi_log (fa_client (demo_start undefined :: (nat, nat, nat) wire facade)))" by (simp add: demo_start_def all_answered_def)
  moreover have "\<not> eng_poisoned (new_engine 0 :: (nat, nat) engine)" by (simp add: new_engine_def)
  ultimately show ?thesis
    by (simp add: hub_run_def new_hub_def hub_join_def demo_joined Let_def hub_turn_def hub_handle_def enter_def facade_eval
        new_minter_def demo_enqueue demo_taken handle_next_def)
qed

theorem concurrent_clients_collide_witness:
  "RBuffer (Id 1) \<notin> known (hub_engine (hub_run demo_net demo_service False demo_debug [Turn 1 (OpDrop 0), Handle 1]
     (hub_run demo_net demo_service False demo_debug [Join, Join, Turn 0 (OpCreateBuffer demo_buffer),
       Turn 1 (OpCreateBuffer demo_buffer), Handle 0, Handle 1] (new_hub 0))))"
  using concurrent_clients_collide [OF demo_benign refl refl demo_collision] by blast

end
