(* ===== verification/Translate.thy ===== *)
theory Translate
  imports Handles Engine_Spec
begin

section \<open>From wgpu's descriptors to the protocol's\<close>

text \<open>
  \<open>translate.rs\<close>. The drop-in implements wgpu's custom-backend traits; it is handed wgpu's public
  descriptors, which borrow resources. A resource is one this backend made, or one of another backend:
  \<open>as_custom\<close> tells. wgpu's descriptor types are not part of this repository; the records below have the
  fields the code reads. Labels are borrowed there and owned here, so \<open>own_label\<close> is a copy; leaf
  values are of the type parameter \<open>'w\<close>, as in \<open>Descriptors\<close>. The model is of the feature \<open>wgpu-27\<close>.
\<close>

subsection \<open>Resources of a wgpu program\<close>

datatype 'a wgpu_ref = Ours 'a | Foreign

definition as_custom :: "'a wgpu_ref \<Rightarrow> 'a option" where
  "as_custom r = (case r of Ours x \<Rightarrow> Some x | Foreign \<Rightarrow> None)"

lemma as_custom_simps [simp]: "as_custom (Ours x) = Some x" "as_custom Foreign = None"
  by (simp_all add: as_custom_def)

text \<open>The drop-in's buffer: the facade's handle and the address of its map slot.\<close>

record wgpu_buffer =
  wb_facade :: buffer
  wb_slot :: nat

subsection \<open>wgpu's descriptors\<close>

record wg_buffer_binding =
  wbb_buffer :: "wgpu_buffer wgpu_ref"
  wbb_offset :: u64
  wbb_size :: "u64 option"

datatype wg_binding_resource =
    WBuffer wg_buffer_binding
  | WBufferArray "wg_buffer_binding list"
  | WSampler "sampler wgpu_ref"
  | WSamplerArray "sampler wgpu_ref list"
  | WTextureView "texture_view wgpu_ref"
  | WTextureViewArray "texture_view wgpu_ref list"
  | WOther

record wg_bind_group_entry =
  wbe_binding :: u32
  wbe_resource :: wg_binding_resource

record wg_bind_group_descriptor =
  wbg_label :: "string option"
  wbg_layout :: "bind_group_layout wgpu_ref"
  wbg_entries :: "wg_bind_group_entry list"

record 'w wg_pipeline_layout_descriptor =
  wpl_label :: "string option"
  wpl_bind_group_layouts :: "bind_group_layout wgpu_ref list"
  wpl_push_constant_ranges :: "'w list"

datatype 'w wg_shader_source = WWgsl string | WOtherSource 'w

record 'w wg_shader_module_descriptor =
  wsm_label :: "string option"
  wsm_source :: "'w wg_shader_source"

record 'w wg_vertex_state =
  wvs_module :: "shader_module wgpu_ref"
  wvs_entry_point :: "string option"
  wvs_constants :: "(string \<times> 'w) list"
  wvs_buffers :: "'w vertex_buffer_layout list"

record 'w wg_fragment_state =
  wfs_module :: "shader_module wgpu_ref"
  wfs_entry_point :: "string option"
  wfs_constants :: "(string \<times> 'w) list"
  wfs_targets :: "'w option list"

record 'w wg_render_pipeline_descriptor =
  wrp_label :: "string option"
  wrp_layout :: "pipeline_layout wgpu_ref option"
  wrp_vertex :: "'w wg_vertex_state"
  wrp_primitive :: 'w
  wrp_depth_stencil :: "'w option"
  wrp_multisample :: 'w
  wrp_fragment :: "'w wg_fragment_state option"
  wrp_multiview :: "u32 option"

record 'w wg_compute_pipeline_descriptor =
  wcp_label :: "string option"
  wcp_layout :: "pipeline_layout wgpu_ref option"
  wcp_module :: "shader_module wgpu_ref"
  wcp_entry_point :: "string option"
  wcp_constants :: "(string \<times> 'w) list"

subsection \<open>Errors and labels\<close>

datatype translate_error = ForeignResource string

definition own_label :: "string option \<Rightarrow> string option" where
  "own_label label = map_option (\<lambda>s. s) label"

lemma own_label_id [simp]: "own_label l = l"
  by (simp add: own_label_def option.map_ident)

subsection \<open>Ids of resources\<close>

definition buffer_id_of :: "wgpu_buffer wgpu_ref \<Rightarrow> translate_error + buffer_id" where
  "buffer_id_of buf = ok_or (ForeignResource ''buffer'') (map_option (\<lambda>b. hd_id (wb_facade b)) (as_custom buf))"

definition sampler_id_of :: "sampler wgpu_ref \<Rightarrow> translate_error + sampler_id" where
  "sampler_id_of s = ok_or (ForeignResource ''sampler'') (map_option hd_id (as_custom s))"

definition texture_view_id_of :: "texture_view wgpu_ref \<Rightarrow> translate_error + texture_view_id" where
  "texture_view_id_of v = ok_or (ForeignResource ''texture view'') (map_option hd_id (as_custom v))"

definition shader_module_id_of :: "shader_module wgpu_ref \<Rightarrow> translate_error + shader_module_id" where
  "shader_module_id_of m = ok_or (ForeignResource ''shader module'') (map_option hd_id (as_custom m))"

definition bind_group_layout_id_of :: "bind_group_layout wgpu_ref \<Rightarrow> translate_error + bind_group_layout_id" where
  "bind_group_layout_id_of l = ok_or (ForeignResource ''bind group layout'') (map_option hd_id (as_custom l))"

definition pipeline_layout_id_of :: "pipeline_layout wgpu_ref \<Rightarrow> translate_error + pipeline_layout_id" where
  "pipeline_layout_id_of l = ok_or (ForeignResource ''pipeline layout'') (map_option hd_id (as_custom l))"

lemmas id_of_defs =
  buffer_id_of_def sampler_id_of_def texture_view_id_of_def shader_module_id_of_def bind_group_layout_id_of_def
  pipeline_layout_id_of_def

subsection \<open>Leaf descriptors\<close>

text \<open>\<open>map_label\<close> and \<open>map_label_and_view_formats\<close> of wgpu-types rebuild the descriptor around the new label.\<close>

definition translate_buffer :: "buffer_descriptor \<Rightarrow> buffer_descriptor" where
  "translate_buffer desc = desc\<lparr>bd_label := own_label (bd_label desc)\<rparr>"

definition translate_texture :: "'w texture_descriptor \<Rightarrow> 'w texture_descriptor" where
  "translate_texture desc = desc\<lparr>td_label := own_label (td_label desc), td_view_formats := td_view_formats desc\<rparr>"

definition translate_sampler :: "'w sampler_descriptor \<Rightarrow> 'w sampler_descriptor" where
  "translate_sampler desc =
     \<lparr>sd_label = own_label (sd_label desc), sd_address_mode_u = sd_address_mode_u desc,
      sd_address_mode_v = sd_address_mode_v desc, sd_address_mode_w = sd_address_mode_w desc,
      sd_mag_filter = sd_mag_filter desc, sd_min_filter = sd_min_filter desc, sd_mipmap_filter = sd_mipmap_filter desc,
      sd_lod_min_clamp = sd_lod_min_clamp desc, sd_lod_max_clamp = sd_lod_max_clamp desc, sd_compare = sd_compare desc,
      sd_anisotropy_clamp = sd_anisotropy_clamp desc, sd_border_color = sd_border_color desc\<rparr>"

definition translate_texture_view :: "'w texture_view_descriptor \<Rightarrow> 'w texture_view_descriptor" where
  "translate_texture_view desc =
     \<lparr>tv_label = own_label (tv_label desc), tv_format = tv_format desc, tv_dimension = tv_dimension desc,
      tv_usage = tv_usage desc, tv_aspect = tv_aspect desc, tv_base_mip_level = tv_base_mip_level desc,
      tv_mip_level_count = tv_mip_level_count desc, tv_base_array_layer = tv_base_array_layer desc,
      tv_array_layer_count = tv_array_layer_count desc\<rparr>"

definition translate_bind_group_layout :: "'w bind_group_layout_descriptor \<Rightarrow> 'w bind_group_layout_descriptor" where
  "translate_bind_group_layout desc = \<lparr>bgl_label = own_label (bgl_label desc), bgl_entries = bgl_entries desc\<rparr>"

text \<open>A source that is not WGSL is a panic.\<close>

definition translate_shader_module :: "'w wg_shader_module_descriptor \<Rightarrow> 'w shader_module_descriptor option" where
  "translate_shader_module desc =
     (case wsm_source desc of
        WWgsl s \<Rightarrow> Some \<lparr>sm_label = own_label (wsm_label desc), sm_source = Wgsl s\<rparr>
      | WOtherSource _ \<Rightarrow> None)"

subsection \<open>Descriptors with references\<close>

definition translate_buffer_binding :: "wg_buffer_binding \<Rightarrow> translate_error + buffer_binding" where
  "translate_buffer_binding b =
     bind_res (buffer_id_of (wbb_buffer b)) (\<lambda>i.
       Inr \<lparr>bb_buffer = i, bb_offset = wbb_offset b, bb_size = wbb_size b\<rparr>)"

fun translate_binding_resource :: "wg_binding_resource \<Rightarrow> translate_error + binding_resource" where
  "translate_binding_resource (WBuffer b) =
     bind_res (buffer_id_of (wbb_buffer b)) (\<lambda>i. Inr (BRBuffer i (wbb_offset b) (wbb_size b)))"
| "translate_binding_resource (WBufferArray arr) =
     bind_res (collect_res translate_buffer_binding arr) (\<lambda>bs. Inr (BRBufferArray bs))"
| "translate_binding_resource (WSampler s) = bind_res (sampler_id_of s) (\<lambda>i. Inr (BRSampler i))"
| "translate_binding_resource (WSamplerArray arr) =
     bind_res (collect_res sampler_id_of arr) (\<lambda>ids. Inr (BRSamplerArray ids))"
| "translate_binding_resource (WTextureView v) = bind_res (texture_view_id_of v) (\<lambda>i. Inr (BRTextureView i))"
| "translate_binding_resource (WTextureViewArray arr) =
     bind_res (collect_res texture_view_id_of arr) (\<lambda>ids. Inr (BRTextureViewArray ids))"
| "translate_binding_resource WOther = Inl (ForeignResource ''unknown wgpu::BindingResource variant'')"

definition translate_bind_group_entry :: "wg_bind_group_entry \<Rightarrow> translate_error + bind_group_entry" where
  "translate_bind_group_entry e =
     bind_res (translate_binding_resource (wbe_resource e)) (\<lambda>r.
       Inr \<lparr>bge_binding = wbe_binding e, bge_resource = r\<rparr>)"

definition translate_bind_group :: "wg_bind_group_descriptor \<Rightarrow> translate_error + bind_group_descriptor" where
  "translate_bind_group desc =
     bind_res (bind_group_layout_id_of (wbg_layout desc)) (\<lambda>layout.
     bind_res (collect_res translate_bind_group_entry (wbg_entries desc)) (\<lambda>entries.
       Inr \<lparr>bg_label = own_label (wbg_label desc), bg_layout = layout, bg_entries = entries\<rparr>))"

definition translate_pipeline_layout ::
  "'w wg_pipeline_layout_descriptor \<Rightarrow> translate_error + 'w pipeline_layout_descriptor" where
  "translate_pipeline_layout desc =
     bind_res (collect_res bind_group_layout_id_of (wpl_bind_group_layouts desc)) (\<lambda>layouts.
       Inr \<lparr>pl_label = own_label (wpl_label desc), pl_bind_group_layouts = layouts,
            pl_push_constant_ranges = wpl_push_constant_ranges desc\<rparr>)"

definition translate_vertex_state :: "'w wg_vertex_state \<Rightarrow> translate_error + 'w vertex_state" where
  "translate_vertex_state v =
     bind_res (shader_module_id_of (wvs_module v)) (\<lambda>m.
       Inr \<lparr>vs_module = m, vs_entry_point = wvs_entry_point v, vs_constants = wvs_constants v,
            vs_buffers = map (\<lambda>b. \<lparr>vbl_array_stride = vbl_array_stride b, vbl_step_mode = vbl_step_mode b,
              vbl_attributes = vbl_attributes b\<rparr>) (wvs_buffers v)\<rparr>)"

definition translate_fragment_state :: "'w wg_fragment_state \<Rightarrow> translate_error + 'w fragment_state" where
  "translate_fragment_state f =
     bind_res (shader_module_id_of (wfs_module f)) (\<lambda>m.
       Inr \<lparr>fs_module = m, fs_entry_point = wfs_entry_point f, fs_constants = wfs_constants f,
            fs_targets = wfs_targets f\<rparr>)"

text \<open>\<open>match x { Some(v) => Some(f(v)?), None => None }\<close>.\<close>

definition map_opt_res :: "('a \<Rightarrow> 'e + 'b) \<Rightarrow> 'a option \<Rightarrow> 'e + 'b option" where
  "map_opt_res f x = (case x of None \<Rightarrow> Inr None | Some v \<Rightarrow> bind_res (f v) (\<lambda>w. Inr (Some w)))"

definition translate_render_pipeline ::
  "'w wg_render_pipeline_descriptor \<Rightarrow> translate_error + 'w render_pipeline_descriptor" where
  "translate_render_pipeline desc =
     bind_res (map_opt_res pipeline_layout_id_of (wrp_layout desc)) (\<lambda>layout.
     bind_res (translate_vertex_state (wrp_vertex desc)) (\<lambda>vertex.
     bind_res (map_opt_res translate_fragment_state (wrp_fragment desc)) (\<lambda>fragment.
       Inr \<lparr>rp_label = own_label (wrp_label desc), rp_layout = layout, rp_vertex = vertex,
            rp_primitive = wrp_primitive desc, rp_depth_stencil = wrp_depth_stencil desc,
            rp_multisample = wrp_multisample desc, rp_fragment = fragment, rp_multiview = wrp_multiview desc\<rparr>)))"

definition translate_compute_pipeline ::
  "'w wg_compute_pipeline_descriptor \<Rightarrow> translate_error + 'w compute_pipeline_descriptor" where
  "translate_compute_pipeline desc =
     bind_res (map_opt_res pipeline_layout_id_of (wcp_layout desc)) (\<lambda>layout.
     bind_res (shader_module_id_of (wcp_module desc)) (\<lambda>m.
       Inr \<lparr>cp_label = own_label (wcp_label desc), cp_layout = layout, cp_module = m,
            cp_entry_point = wcp_entry_point desc, cp_constants = wcp_constants desc\<rparr>))"

subsection \<open>What a translation promises\<close>

text \<open>
  The references of a wgpu descriptor in the order the translation meets them, each with the name of
  its kind and, when it is ours, the resource. A translation agrees with them when it fails with the
  first that is foreign, and succeeds when there is none.
\<close>

type_synonym wgpu_refs = "(string \<times> resource_id option) list"

fun first_foreign :: "wgpu_refs \<Rightarrow> string option" where
  "first_foreign [] = None"
| "first_foreign ((kind, None) # refs) = Some kind"
| "first_foreign ((kind, Some _) # refs) = first_foreign refs"

definition agrees :: "translate_error + 'a \<Rightarrow> wgpu_refs \<Rightarrow> bool" where
  "agrees r refs \<longleftrightarrow>
     (case first_foreign refs of Some kind \<Rightarrow> r = Inl (ForeignResource kind) | None \<Rightarrow> \<exists>d. r = Inr d)"

definition ref_of :: "string \<Rightarrow> ('a \<Rightarrow> resource_id) \<Rightarrow> 'a wgpu_ref \<Rightarrow> string \<times> resource_id option" where
  "ref_of kind resource r = (kind, map_option resource (as_custom r))"

abbreviation buffer_ref :: "wgpu_buffer wgpu_ref \<Rightarrow> string \<times> resource_id option" where
  "buffer_ref \<equiv> ref_of ''buffer'' (\<lambda>b. RBuffer (hd_id (wb_facade b)))"

abbreviation sampler_ref :: "sampler wgpu_ref \<Rightarrow> string \<times> resource_id option" where
  "sampler_ref \<equiv> ref_of ''sampler'' (\<lambda>s. RSampler (hd_id s))"

abbreviation view_ref :: "texture_view wgpu_ref \<Rightarrow> string \<times> resource_id option" where
  "view_ref \<equiv> ref_of ''texture view'' (\<lambda>v. RTextureView (hd_id v))"

abbreviation module_ref :: "shader_module wgpu_ref \<Rightarrow> string \<times> resource_id option" where
  "module_ref \<equiv> ref_of ''shader module'' (\<lambda>m. RShaderModule (hd_id m))"

abbreviation bind_group_layout_ref :: "bind_group_layout wgpu_ref \<Rightarrow> string \<times> resource_id option" where
  "bind_group_layout_ref \<equiv> ref_of ''bind group layout'' (\<lambda>l. RBindGroupLayout (hd_id l))"

abbreviation pipeline_layout_ref :: "pipeline_layout wgpu_ref \<Rightarrow> string \<times> resource_id option" where
  "pipeline_layout_ref \<equiv> ref_of ''pipeline layout'' (\<lambda>l. RPipelineLayout (hd_id l))"

fun binding_wgpu_refs :: "wg_binding_resource \<Rightarrow> wgpu_refs" where
  "binding_wgpu_refs (WBuffer b) = [buffer_ref (wbb_buffer b)]"
| "binding_wgpu_refs (WBufferArray arr) = map (\<lambda>b. buffer_ref (wbb_buffer b)) arr"
| "binding_wgpu_refs (WSampler s) = [sampler_ref s]"
| "binding_wgpu_refs (WSamplerArray arr) = map sampler_ref arr"
| "binding_wgpu_refs (WTextureView v) = [view_ref v]"
| "binding_wgpu_refs (WTextureViewArray arr) = map view_ref arr"
| "binding_wgpu_refs WOther = [(''unknown wgpu::BindingResource variant'', None)]"

definition bind_group_wgpu_refs :: "wg_bind_group_descriptor \<Rightarrow> wgpu_refs" where
  "bind_group_wgpu_refs desc =
     bind_group_layout_ref (wbg_layout desc) # concat (map (\<lambda>e. binding_wgpu_refs (wbe_resource e)) (wbg_entries desc))"

definition pipeline_layout_wgpu_refs :: "'w wg_pipeline_layout_descriptor \<Rightarrow> wgpu_refs" where
  "pipeline_layout_wgpu_refs desc = map bind_group_layout_ref (wpl_bind_group_layouts desc)"

definition render_pipeline_wgpu_refs :: "'w wg_render_pipeline_descriptor \<Rightarrow> wgpu_refs" where
  "render_pipeline_wgpu_refs desc =
     map pipeline_layout_ref (case wrp_layout desc of None \<Rightarrow> [] | Some l \<Rightarrow> [l])
     @ [module_ref (wvs_module (wrp_vertex desc))]
     @ map (\<lambda>f. module_ref (wfs_module f)) (case wrp_fragment desc of None \<Rightarrow> [] | Some f \<Rightarrow> [f])"

definition compute_pipeline_wgpu_refs :: "'w wg_compute_pipeline_descriptor \<Rightarrow> wgpu_refs" where
  "compute_pipeline_wgpu_refs desc =
     map pipeline_layout_ref (case wcp_layout desc of None \<Rightarrow> [] | Some l \<Rightarrow> [l]) @ [module_ref (wcp_module desc)]"

lemma first_foreign_append:
  "first_foreign (refs @ refs') = (case first_foreign refs of None \<Rightarrow> first_foreign refs' | Some k \<Rightarrow> Some k)"
  by (induction refs rule: first_foreign.induct) simp_all

lemma agrees_Inr [simp]: "agrees (Inr x) []"
  by (simp add: agrees_def)

lemma agrees_ok_or: "agrees (ok_or (ForeignResource kind) (map_option f (as_custom r))) [ref_of kind g r]"
  by (cases r) (simp_all add: agrees_def ref_of_def)

lemma agrees_id_of:
  "agrees (buffer_id_of b) [buffer_ref b]" "agrees (sampler_id_of s) [sampler_ref s]"
  "agrees (texture_view_id_of v) [view_ref v]" "agrees (shader_module_id_of m) [module_ref m]"
  "agrees (bind_group_layout_id_of l) [bind_group_layout_ref l]"
  "agrees (pipeline_layout_id_of pl) [pipeline_layout_ref pl]"
  by (simp_all only: id_of_defs agrees_ok_or)

lemma agrees_bind:
  assumes "agrees r refs" and "\<And>x. agrees (f x) refs'"
  shows "agrees (bind_res r f) (refs @ refs')"
  using assms by (auto simp: agrees_def first_foreign_append split: option.splits)

lemma agrees_map: "agrees r refs \<Longrightarrow> agrees (bind_res r (\<lambda>x. Inr (f x))) refs"
  using agrees_bind [of r refs "\<lambda>x. Inr (f x)" "[]"] by simp

lemma agrees_collect:
  assumes "\<And>x. agrees (f x) (g x)"
  shows "agrees (collect_res f xs) (concat (map g xs))"
proof (induction xs)
  case (Cons x xs)
  then show ?case
    using assms [of x] by (auto simp: agrees_def first_foreign_append bind_res_def split: option.splits sum.splits)
qed simp

lemma agrees_collect_single:
  assumes "\<And>x. agrees (f x) [g x]"
  shows "agrees (collect_res f xs) (map g xs)"
  using agrees_collect [of f "\<lambda>x. [g x]" xs] assms by (simp add: concat_map_singleton)

lemma agrees_map_opt:
  assumes "\<And>x. agrees (f x) [g x]"
  shows "agrees (map_opt_res f x) (map g (case x of None \<Rightarrow> [] | Some y \<Rightarrow> [y]))"
  using agrees_map [OF assms] by (cases x) (simp_all add: map_opt_res_def)

lemma agrees_binding: "agrees (translate_binding_resource r) (binding_wgpu_refs r)"
proof (cases r)
  case (WBufferArray arr)
  have "agrees (collect_res translate_buffer_binding arr) (map (\<lambda>b. buffer_ref (wbb_buffer b)) arr)"
    by (rule agrees_collect_single) (auto simp: translate_buffer_binding_def intro!: agrees_map agrees_id_of)
  with WBufferArray show ?thesis by (auto intro!: agrees_map)
next
  case WOther
  then show ?thesis by (simp add: agrees_def)
qed (auto intro!: agrees_map agrees_id_of agrees_collect_single)

lemma agrees_bind_group: "agrees (translate_bind_group desc) (bind_group_wgpu_refs desc)"
proof -
  have "agrees (translate_bind_group_entry e) (binding_wgpu_refs (wbe_resource e))" for e
    by (auto simp: translate_bind_group_entry_def intro!: agrees_map agrees_binding)
  from agrees_bind [OF agrees_id_of(5) agrees_map [OF agrees_collect [OF this]]]
  show ?thesis by (simp add: translate_bind_group_def bind_group_wgpu_refs_def)
qed

lemma agrees_pipeline_layout: "agrees (translate_pipeline_layout desc) (pipeline_layout_wgpu_refs desc)"
  by (auto simp: translate_pipeline_layout_def pipeline_layout_wgpu_refs_def
      intro!: agrees_map agrees_collect_single agrees_id_of)

lemma agrees_render_pipeline: "agrees (translate_render_pipeline desc) (render_pipeline_wgpu_refs desc)"
  unfolding translate_render_pipeline_def render_pipeline_wgpu_refs_def
  by (intro agrees_bind agrees_map agrees_map_opt agrees_id_of)
    (auto simp: translate_vertex_state_def translate_fragment_state_def intro!: agrees_map agrees_id_of)

lemma agrees_compute_pipeline: "agrees (translate_compute_pipeline desc) (compute_pipeline_wgpu_refs desc)"
  unfolding translate_compute_pipeline_def compute_pipeline_wgpu_refs_def
  by (intro agrees_bind agrees_map agrees_map_opt agrees_id_of)

end
