(* ===== verification/Dropin.thy ===== *)
theory Dropin
  imports Device Translate
begin

section \<open>The drop-in backend\<close>

text \<open>
  \<open>dispatch.rs\<close>: wgpu's custom-backend traits over the facade. State that is shared behind an \<open>Arc\<close>
  lives in lists, and the structs that share it hold its address: the map slots of buffers
  (\<open>Mutex<Option<MapState>>\<close>), the error handlers of devices, their queues' submission counters, and
  the recordings of encoders. A panic while a slot's mutex is held poisons it, and locking it panics
  from then on.

  A call returns or panics; \<open>expect\<close>, \<open>unwrap_or_else(panic!)\<close>, \<open>unimplemented!\<close> and slicing out of
  range are panics. \<open>as usize\<close> of a \<open>u64\<close> is exact (64-bit targets). The installed error handler is the
  program's own code: a call of it is an entry of \<open>dp_reports\<close>.

  Methods that do not ask the server are in \<open>Dropin_System\<close>. The wgpu values that \<open>features\<close>,
  \<open>limits\<close> and their like answer, the \<open>Debug\<close> implementations, and the code of the feature \<open>wgpu-29\<close>
  are not modelled.
\<close>

subsection \<open>State\<close>

datatype map_state = ReadMap bytes | WriteMap bytes

record map_slot =
  slot_map :: "map_state option"
  slot_poisoned :: bool

text \<open>A spawned \<open>map_async\<close> task: its clone of the buffer, the slot it fills, the range it reads.\<close>

record map_task =
  mt_buffer :: buffer
  mt_slot :: nat
  mt_range :: "u64 \<times> u64"

datatype wgpu_error = ValidationError string | InternalError string

text \<open>What an encoder and its passes share: the recording, and the error handler of the device.\<close>

record 'w encoder_inner =
  ei_recording :: "'w recording"
  ei_device :: nat

record ('w, 'c) dropin =
  dp_facade :: "'c facade"
  dp_slots :: "map_slot list"
  dp_tasks :: "map_task list"
  dp_handlers :: "nat option list"
  dp_reports :: "(nat \<times> wgpu_error) list"
  dp_submissions :: "u64 list"
  dp_encoders :: "'w encoder_inner list"

record ('w, 'c) backend =
  bk_link :: "('w, 'c) link"
  bk_copy_dst :: u32
  bk_show_error :: "client_error \<Rightarrow> string"

type_synonym ('w, 'c, 'a) call = "(('w, 'c) dropin, unit, 'a) step"

definition on_facade :: "('c facade \<Rightarrow> 'a \<times> 'c facade) \<Rightarrow> ('w, 'c, 'a) call" where
  "on_facade f s = (case f (dp_facade s) of (a, fa) \<Rightarrow> (Ret a, s\<lparr>dp_facade := fa\<rparr>))"

definition tell_facade :: "('c facade \<Rightarrow> 'c facade) \<Rightarrow> ('w, 'c, unit) call" where
  "tell_facade f s = (Ret (), s\<lparr>dp_facade := f (dp_facade s)\<rparr>)"

text \<open>\<open>as_custom::<T>().expect(..)\<close> and \<open>unwrap_or_else(|e| panic!(..))\<close> on a translation.\<close>

definition expect_ours :: "'a wgpu_ref \<Rightarrow> ('w, 'c, 'a) call" where
  "expect_ours r = lift_opt (as_custom r)"

definition or_panic :: "'e + 'a \<Rightarrow> ('w, 'c, 'a) call" where
  "or_panic r = (case r of Inl _ \<Rightarrow> panic | Inr a \<Rightarrow> ret a)"

subsection \<open>Map slots\<close>

definition new_slot :: "map_state option \<Rightarrow> ('w, 'c, nat) call" where
  "new_slot m s = (Ret (length (dp_slots s)), s\<lparr>dp_slots := dp_slots s @ [\<lparr>slot_map = m, slot_poisoned = False\<rparr>]\<rparr>)"

text \<open>
  \<open>let guard = mapped.lock().unwrap(); body\<close>: the body gets the state and returns with the new one, or
  panics, which poisons the mutex.
\<close>

definition with_slot ::
  "nat \<Rightarrow> (map_state option \<Rightarrow> ('a \<times> map_state option) option) \<Rightarrow> ('w, 'c, 'a) call" where
  "with_slot k body s =
     (let sl = dp_slots s ! k in
      if slot_poisoned sl then (Panic, s)
      else case body (slot_map sl) of
          None \<Rightarrow> (Panic, s\<lparr>dp_slots := (dp_slots s)[k := sl\<lparr>slot_poisoned := True\<rparr>]\<rparr>)
        | Some (a, m) \<Rightarrow> (Ret a, s\<lparr>dp_slots := (dp_slots s)[k := sl\<lparr>slot_map := m\<rparr>]\<rparr>))"

subsection \<open>Buffer\<close>

definition dropin_new_buffer :: "buffer \<Rightarrow> ('w, 'c, wgpu_buffer) call" where
  "dropin_new_buffer b = andThen (new_slot None) (\<lambda>k. ret \<lparr>wb_facade = b, wb_slot = k\<rparr>)"

text \<open>The staging copy is allocated at once; that there is memory for \<open>vec![0u8; size]\<close> is taken for granted.\<close>

definition dropin_new_mapped_at_creation :: "buffer \<Rightarrow> u64 \<Rightarrow> ('w, 'c, wgpu_buffer) call" where
  "dropin_new_mapped_at_creation b sz =
     andThen (new_slot (Some (WriteMap (replicate (unat sz) 0)))) (\<lambda>k. ret \<lparr>wb_facade = b, wb_slot = k\<rparr>)"

text \<open>\<open>map_async\<close> clones the handle into a task \<dots>\<close>

definition map_async :: "wgpu_buffer \<Rightarrow> u64 \<times> u64 \<Rightarrow> ('w, 'c, unit) call" where
  "map_async b rng =
     andThen (on_facade (clone_handle (wb_facade b))) (\<lambda>h s.
       (Ret (), s\<lparr>dp_tasks := dp_tasks s @ [\<lparr>mt_buffer = h, mt_slot = wb_slot b, mt_range = rng\<rparr>]\<rparr>))"

text \<open>
  \<dots> which reads the range back, stores what it got and calls the callback with whether it got it; the
  clone is dropped when the task ends, by a panic too.
\<close>

definition run_map_task :: "('w, 'c) backend \<Rightarrow> nat \<Rightarrow> ('w, 'c, bool) call" where
  "run_map_task bk k s =
     (let t = dp_tasks s ! k; s = s\<lparr>dp_tasks := take k (dp_tasks s) @ drop (Suc k) (dp_tasks s)\<rparr> in
      case read_range (bk_link bk) (mt_buffer t) (Included (fst (mt_range t)), Excluded (snd (mt_range t))) (dp_facade s) of
        (r, fa) \<Rightarrow>
          (case (case r of
                   Ret bs \<Rightarrow> andThen (with_slot (mt_slot t) (\<lambda>_. Some ((), Some (ReadMap bs)))) (\<lambda>_. ret True)
                 | Fail _ \<Rightarrow> ret False
                 | Panic \<Rightarrow> panic) (s\<lparr>dp_facade := fa\<rparr>) of
             (out, s) \<Rightarrow> (out, s\<lparr>dp_facade := drop_handle (bk_link bk) (mt_buffer t) (dp_facade s)\<rparr>)))"

text \<open>\<open>v[start..end]\<close>, a panic out of range.\<close>

definition sub_slice :: "nat \<Rightarrow> nat \<Rightarrow> bytes \<Rightarrow> bytes option" where
  "sub_slice start stop v = (if start \<le> stop \<and> stop \<le> length v then Some (take (stop - start) (drop start v)) else None)"

datatype mapped_range = ReadRange bytes | WriteRange bytes nat nat

definition get_mapped_range :: "wgpu_buffer \<Rightarrow> u64 \<times> u64 \<Rightarrow> ('w, 'c, mapped_range) call" where
  "get_mapped_range b sub =
     with_slot (wb_slot b) (\<lambda>m.
       case m of
         None \<Rightarrow> None
       | Some (ReadMap bs) \<Rightarrow>
           map_option (\<lambda>sl. (ReadRange sl, m)) (sub_slice (unat (fst sub)) (unat (snd sub)) bs)
       | Some (WriteMap v) \<Rightarrow>
           map_option (\<lambda>sl. (WriteRange sl (wb_slot b) (unat (fst sub)), m)) (sub_slice (unat (fst sub)) (unat (snd sub)) v))"

definition unmap :: "('w, 'c) backend \<Rightarrow> wgpu_buffer \<Rightarrow> ('w, 'c, unit) call" where
  "unmap bk b =
     andThen (with_slot (wb_slot b) (\<lambda>m. Some (m, None))) (\<lambda>taken.
       case taken of
         Some (WriteMap data) \<Rightarrow> tell_facade (write_range (bk_link bk) (wb_facade b) 0 data)
       | _ \<Rightarrow> ret ())"

text \<open>
  The bytes of a range, a write of the program through \<open>slice_mut\<close> (here: bytes copied to its front),
  and the range's drop.
\<close>

fun range_slice :: "mapped_range \<Rightarrow> bytes" where
  "range_slice (ReadRange b) = b"
| "range_slice (WriteRange owned _ _) = owned"

fun range_write :: "bytes \<Rightarrow> mapped_range \<Rightarrow> ('w, 'c, mapped_range) call" where
  "range_write data (WriteRange owned slot off) =
     ret (WriteRange (take (length owned) data @ drop (length data) owned) slot off)"
| "range_write data (ReadRange _) = panic"

fun drop_range :: "mapped_range \<Rightarrow> ('w, 'c, unit) call" where
  "drop_range (WriteRange owned slot off) =
     with_slot slot (\<lambda>m.
       case m of
         Some (WriteMap v) \<Rightarrow>
           let stop = off + length owned in
           if stop \<le> length v then Some ((), Some (WriteMap (take off v @ owned @ drop stop v))) else Some ((), m)
       | _ \<Rightarrow> Some ((), m))"
| "drop_range (ReadRange _) = ret ()"

subsection \<open>Errors\<close>

definition install :: "nat \<Rightarrow> nat \<Rightarrow> ('w, 'c, unit) call" where
  "install dev handler s = (Ret (), s\<lparr>dp_handlers := (dp_handlers s)[dev := Some handler]\<rparr>)"

definition report :: "nat \<Rightarrow> wgpu_error \<Rightarrow> ('w, 'c, unit) call" where
  "report dev err s =
     (case dp_handlers s ! dev of
        Some h \<Rightarrow> (Ret (), s\<lparr>dp_reports := dp_reports s @ [(h, err)]\<rparr>)
      | None \<Rightarrow> (Panic, s))"

definition report_unsupported :: "nat \<Rightarrow> string \<Rightarrow> ('w, 'c, unit) call" where
  "report_unsupported dev what = report dev (ValidationError (''wgpu-remote does not support '' @ what))"

subsection \<open>Instance and Adapter\<close>

text \<open>\<open>Instance::request_adapter\<close>: every error is \<open>NotFound\<close>.\<close>

definition dropin_request_adapter :: "('w, 'c) backend \<Rightarrow> ('w, 'c, bool) call" where
  "dropin_request_adapter bk s =
     (case request_adapter (bk_link bk) (dp_facade s) of
        (Ret _, fa) \<Rightarrow> (Ret True, s\<lparr>dp_facade := fa\<rparr>)
      | (Fail _, fa) \<Rightarrow> (Ret False, s\<lparr>dp_facade := fa\<rparr>)
      | (Panic, fa) \<Rightarrow> (Panic, s\<lparr>dp_facade := fa\<rparr>))"

definition dropin_request_device :: "('w, 'c) backend \<Rightarrow> ('w, 'c, nat) call" where
  "dropin_request_device bk s =
     (case request_device (bk_link bk) (dp_facade s) of
        (Ret dev, fa) \<Rightarrow> (Ret dev, s\<lparr>dp_facade := fa, dp_handlers := dp_handlers s @ [None],
            dp_submissions := dp_submissions s @ [1]\<rparr>)
      | (_, fa) \<Rightarrow> (Panic, s\<lparr>dp_facade := fa\<rparr>))"

subsection \<open>Device\<close>

definition dropin_create_shader_module ::
  "('w, 'c) backend \<Rightarrow> nat \<Rightarrow> 'w wg_shader_module_descriptor \<Rightarrow> ('w, 'c, shader_module) call" where
  "dropin_create_shader_module bk dev desc =
     andThen (lift_opt (translate_shader_module desc)) (\<lambda>proto. on_facade (create_shader_module_on (bk_link bk) dev proto))"

definition dropin_create_bind_group_layout ::
  "('w, 'c) backend \<Rightarrow> nat \<Rightarrow> 'w bind_group_layout_descriptor \<Rightarrow> ('w, 'c, bind_group_layout) call" where
  "dropin_create_bind_group_layout bk dev desc =
     on_facade (create_bind_group_layout_on (bk_link bk) dev (translate_bind_group_layout desc))"

definition dropin_create_bind_group ::
  "('w, 'c) backend \<Rightarrow> nat \<Rightarrow> wg_bind_group_descriptor \<Rightarrow> ('w, 'c, bind_group) call" where
  "dropin_create_bind_group bk dev desc =
     andThen (or_panic (translate_bind_group desc)) (\<lambda>proto. on_facade (create_bind_group_on (bk_link bk) dev proto))"

definition dropin_create_pipeline_layout ::
  "('w, 'c) backend \<Rightarrow> nat \<Rightarrow> 'w wg_pipeline_layout_descriptor \<Rightarrow> ('w, 'c, pipeline_layout) call" where
  "dropin_create_pipeline_layout bk dev desc =
     andThen (or_panic (translate_pipeline_layout desc)) (\<lambda>proto. on_facade (create_pipeline_layout_on (bk_link bk) dev proto))"

definition dropin_create_render_pipeline ::
  "('w, 'c) backend \<Rightarrow> nat \<Rightarrow> 'w wg_render_pipeline_descriptor \<Rightarrow> ('w, 'c, render_pipeline) call" where
  "dropin_create_render_pipeline bk dev desc =
     andThen (or_panic (translate_render_pipeline desc)) (\<lambda>proto. on_facade (create_render_pipeline_on (bk_link bk) dev proto))"

definition dropin_create_compute_pipeline ::
  "('w, 'c) backend \<Rightarrow> nat \<Rightarrow> 'w wg_compute_pipeline_descriptor \<Rightarrow> ('w, 'c, compute_pipeline) call" where
  "dropin_create_compute_pipeline bk dev desc =
     andThen (or_panic (translate_compute_pipeline desc)) (\<lambda>proto. on_facade (create_compute_pipeline_on (bk_link bk) dev proto))"

definition dropin_create_buffer :: "('w, 'c) backend \<Rightarrow> nat \<Rightarrow> buffer_descriptor \<Rightarrow> ('w, 'c, wgpu_buffer) call" where
  "dropin_create_buffer bk dev desc =
     (if bd_mapped_at_creation desc
      then let proto = translate_buffer desc;
               proto = proto\<lparr>bd_usage := or (bd_usage proto) (bk_copy_dst bk)\<rparr>;
               proto = proto\<lparr>bd_mapped_at_creation := False\<rparr>
           in andThen (on_facade (create_buffer_on (bk_link bk) dev proto)) (\<lambda>buf.
                dropin_new_mapped_at_creation buf (bd_size desc))
      else andThen (on_facade (create_buffer_on (bk_link bk) dev (translate_buffer desc))) dropin_new_buffer)"

definition dropin_create_texture :: "('w, 'c) backend \<Rightarrow> nat \<Rightarrow> 'w texture_descriptor \<Rightarrow> ('w, 'c, texture) call" where
  "dropin_create_texture bk dev desc = on_facade (create_texture_on (bk_link bk) dev (translate_texture desc))"

definition dropin_create_sampler :: "('w, 'c) backend \<Rightarrow> nat \<Rightarrow> 'w sampler_descriptor \<Rightarrow> ('w, 'c, sampler) call" where
  "dropin_create_sampler bk dev desc = on_facade (create_sampler_on (bk_link bk) dev (translate_sampler desc))"

definition dropin_create_view ::
  "('w, 'c) backend \<Rightarrow> texture \<Rightarrow> 'w texture_view_descriptor \<Rightarrow> ('w, 'c, texture_view) call" where
  "dropin_create_view bk tex desc = on_facade (create_view (bk_link bk) tex (translate_texture_view desc))"

definition dropin_compute_bind_group_layout ::
  "('w, 'c) backend \<Rightarrow> compute_pipeline \<Rightarrow> u32 \<Rightarrow> ('w, 'c, bind_group_layout) call" where
  "dropin_compute_bind_group_layout bk p index = on_facade (compute_bind_group_layout (bk_link bk) p index)"

definition dropin_render_bind_group_layout ::
  "('w, 'c) backend \<Rightarrow> render_pipeline \<Rightarrow> u32 \<Rightarrow> ('w, 'c, bind_group_layout) call" where
  "dropin_render_bind_group_layout bk p index = on_facade (render_bind_group_layout (bk_link bk) p index)"

text \<open>What wgpu can ask of a device and the drop-in cannot do: a panic.\<close>

datatype unbridged_device_call =
    CreateShaderModulePassthrough | CreateMeshPipeline | CreatePipelineCache | CreateExternalTexture
  | CreateBlas | CreateTlas | CreateQuerySet | CreateRenderBundleEncoder
  | StartGraphicsDebuggerCapture | StopGraphicsDebuggerCapture

definition unbridged_device :: "unbridged_device_call \<Rightarrow> ('w, 'c, unit) call" where
  "unbridged_device _ = panic"

subsection \<open>Queue\<close>

definition dropin_write_buffer ::
  "('w, 'c) backend \<Rightarrow> wgpu_buffer wgpu_ref \<Rightarrow> u64 \<Rightarrow> bytes \<Rightarrow> ('w, 'c, unit) call" where
  "dropin_write_buffer bk buffer off data =
     andThen (expect_ours buffer) (\<lambda>buf. tell_facade (queue_write_buffer (bk_link bk) (wb_facade buf) off data))"

definition dropin_write_texture ::
  "('w, 'c) backend \<Rightarrow> texture wgpu_ref \<Rightarrow> u32 \<Rightarrow> 'w \<Rightarrow> 'w \<Rightarrow> bytes \<Rightarrow> 'w \<Rightarrow> 'w \<Rightarrow> ('w, 'c, unit) call" where
  "dropin_write_texture bk texture mip org aspect data data_layout extent =
     andThen (expect_ours texture) (\<lambda>tex.
       tell_facade (queue_write_texture (bk_link bk) tex mip org aspect data data_layout extent))"

text \<open>The command buffers are drained first: one of another backend panics before anything is sent.\<close>

definition dropin_submit ::
  "('w, 'c) backend \<Rightarrow> nat \<Rightarrow> 'w recording wgpu_ref list \<Rightarrow> ('w, 'c, u64) call" where
  "dropin_submit bk dev command_buffers =
     (if Foreign \<in> set command_buffers then panic
      else let recordings = map from_recording (List.map_filter as_custom command_buffers) in
        andThen (\<lambda>s. case queue_submit (bk_link bk) recordings (dp_facade s) of
            (Ret _, fa) \<Rightarrow> (Ret (), s\<lparr>dp_facade := fa\<rparr>)
          | (Fail e, fa) \<Rightarrow> report dev (InternalError (''Queue::submit failed: '' @ bk_show_error bk e)) (s\<lparr>dp_facade := fa\<rparr>)
          | (Panic, fa) \<Rightarrow> (Panic, s\<lparr>dp_facade := fa\<rparr>))
        (\<lambda>_ s. case fetch_add 1 (dp_submissions s ! dev) of
            (index, next) \<Rightarrow> (Ret index, s\<lparr>dp_submissions := (dp_submissions s)[dev := next]\<rparr>)))"

end
