(* ===== verification/Dropin_Recorder.thy ===== *)
theory Dropin_Recorder
  imports Dropin
begin

section \<open>The drop-in's encoders and passes\<close>

text \<open>
  The encoder part of \<open>dispatch.rs\<close>. An encoder shares its recording with the passes it opened: a pass
  has the address of the encoder's cell, collects its own commands, and its drop pushes them into the
  recording. \<open>finish\<close> takes the recording and leaves an empty one, so a pass dropped later pushes into
  that one. Methods of the traits that are not bridged panic, report to the device's error handler, or
  do nothing (\<open>unbridged_*\<close>).
\<close>

subsection \<open>CommandEncoder\<close>

definition dropin_new_encoder :: "nat \<Rightarrow> string option \<Rightarrow> ('w, 'c, nat) call" where
  "dropin_new_encoder dev label s =
     (Ret (length (dp_encoders s)), s\<lparr>dp_encoders := dp_encoders s @
        [\<lparr>ei_recording = \<lparr>rec_label = own_label label, rec_commands = []\<rparr>, ei_device = dev\<rparr>]\<rparr>)"

definition encoder_push :: "nat \<Rightarrow> 'w encoder_command \<Rightarrow> ('w, 'c, unit) call" where
  "encoder_push e c s =
     (let inner = dp_encoders s ! e; r = ei_recording inner in
      (Ret (), s\<lparr>dp_encoders := (dp_encoders s)[e := inner\<lparr>ei_recording := r\<lparr>rec_commands := rec_commands r @ [c]\<rparr>\<rparr>]\<rparr>))"

definition dropin_copy_buffer_to_buffer ::
  "nat \<Rightarrow> wgpu_buffer wgpu_ref \<Rightarrow> u64 \<Rightarrow> wgpu_buffer wgpu_ref \<Rightarrow> u64 \<Rightarrow> u64 option \<Rightarrow> ('w, 'c, unit) call" where
  "dropin_copy_buffer_to_buffer e source source_off dest dest_off copy_size =
     andThen (expect_ours source) (\<lambda>src.
     andThen (expect_ours dest) (\<lambda>dst.
       let len = (case copy_size of
           Some n \<Rightarrow> n
         | None \<Rightarrow> saturating_sub_u64 (buf_size (wb_facade src)) source_off)
       in encoder_push e (CopyBufferToBuffer (hd_id (wb_facade src)) source_off (hd_id (wb_facade dst)) dest_off len)))"

definition dropin_copy_texture_to_buffer ::
  "nat \<Rightarrow> texture wgpu_ref \<Rightarrow> u32 \<Rightarrow> 'w \<Rightarrow> 'w \<Rightarrow> wgpu_buffer wgpu_ref \<Rightarrow> 'w \<Rightarrow> 'w \<Rightarrow> ('w, 'c, unit) call" where
  "dropin_copy_texture_to_buffer e source mip org aspect dest layout copy_size =
     andThen (expect_ours source) (\<lambda>tex.
     andThen (expect_ours dest) (\<lambda>buf.
       encoder_push e (CopyTextureToBuffer
         \<lparr>ict_texture = hd_id tex, ict_mip_level = mip, ict_origin = org, ict_aspect = aspect\<rparr>
         \<lparr>icb_buffer = hd_id (wb_facade buf), icb_layout = layout\<rparr> copy_size)))"

definition dropin_clear_buffer :: "nat \<Rightarrow> wgpu_buffer wgpu_ref \<Rightarrow> u64 \<Rightarrow> u64 option \<Rightarrow> ('w, 'c, unit) call" where
  "dropin_clear_buffer e buffer off len =
     andThen (expect_ours buffer) (\<lambda>buf. encoder_push e (ClearBuffer (hd_id (wb_facade buf)) off len))"

definition dropin_finish :: "nat \<Rightarrow> ('w, 'c, 'w recording) call" where
  "dropin_finish e s =
     (let inner = dp_encoders s ! e in
      (Ret (ei_recording inner),
       s\<lparr>dp_encoders := (dp_encoders s)[e := inner\<lparr>ei_recording := \<lparr>rec_label = None, rec_commands = []\<rparr>\<rparr>]\<rparr>))"

datatype unbridged_encoder_call =
    ECopyBufferToTexture | ECopyTextureToTexture | EClearTexture | EInsertDebugMarker | EPushDebugGroup
  | EPopDebugGroup | EWriteTimestamp | EResolveQuerySet | EMarkAccelerationStructuresBuilt
  | EBuildAccelerationStructures | ETransitionResources

definition report_of :: "nat \<Rightarrow> string \<Rightarrow> ('w, 'c, unit) call" where
  "report_of e what s = report_unsupported (ei_device (dp_encoders s ! e)) what s"

fun unbridged_encoder :: "nat \<Rightarrow> unbridged_encoder_call \<Rightarrow> ('w, 'c, unit) call" where
  "unbridged_encoder e ECopyBufferToTexture = panic"
| "unbridged_encoder e ECopyTextureToTexture = panic"
| "unbridged_encoder e EClearTexture = panic"
| "unbridged_encoder e EInsertDebugMarker = ret ()"
| "unbridged_encoder e EPushDebugGroup = ret ()"
| "unbridged_encoder e EPopDebugGroup = ret ()"
| "unbridged_encoder e EWriteTimestamp = panic"
| "unbridged_encoder e EResolveQuerySet = panic"
| "unbridged_encoder e EMarkAccelerationStructuresBuilt = report_of e ''acceleration structures''"
| "unbridged_encoder e EBuildAccelerationStructures = report_of e ''acceleration structures''"
| "unbridged_encoder e ETransitionResources = ret ()"

subsection \<open>ComputePass\<close>

record dropin_compute_pass =
  dcp_label :: "string option"
  dcp_commands :: "compute_command list"
  dcp_parent :: nat

definition dropin_begin_compute_pass :: "nat \<Rightarrow> string option \<Rightarrow> ('w, 'c, dropin_compute_pass) call" where
  "dropin_begin_compute_pass e label = ret \<lparr>dcp_label = own_label label, dcp_commands = [], dcp_parent = e\<rparr>"

definition dcp_push :: "compute_command \<Rightarrow> dropin_compute_pass \<Rightarrow> ('w, 'c, dropin_compute_pass) call" where
  "dcp_push c p = ret (p\<lparr>dcp_commands := dcp_commands p @ [c]\<rparr>)"

definition dropin_compute_set_pipeline ::
  "compute_pipeline wgpu_ref \<Rightarrow> dropin_compute_pass \<Rightarrow> ('w, 'c, dropin_compute_pass) call" where
  "dropin_compute_set_pipeline pipeline p =
     andThen (expect_ours pipeline) (\<lambda>h. dcp_push (CSetPipeline (hd_id h)) p)"

definition dropin_compute_set_bind_group ::
  "u32 \<Rightarrow> bind_group wgpu_ref option \<Rightarrow> u32 list \<Rightarrow> dropin_compute_pass \<Rightarrow> ('w, 'c, dropin_compute_pass) call" where
  "dropin_compute_set_bind_group index grp offsets p =
     andThen (lift_opt grp) (\<lambda>g. andThen (expect_ours g) (\<lambda>h. dcp_push (CSetBindGroup index (hd_id h) offsets) p))"

definition dropin_dispatch_workgroups ::
  "u32 \<Rightarrow> u32 \<Rightarrow> u32 \<Rightarrow> dropin_compute_pass \<Rightarrow> ('w, 'c, dropin_compute_pass) call" where
  "dropin_dispatch_workgroups x y z p = dcp_push (CDispatchWorkgroups x y z) p"

definition dropin_dispatch_workgroups_indirect ::
  "wgpu_buffer wgpu_ref \<Rightarrow> u64 \<Rightarrow> dropin_compute_pass \<Rightarrow> ('w, 'c, dropin_compute_pass) call" where
  "dropin_dispatch_workgroups_indirect buffer off p =
     andThen (expect_ours buffer) (\<lambda>h. dcp_push (CDispatchWorkgroupsIndirect (hd_id (wb_facade h)) off) p)"

definition dropin_drop_compute_pass :: "dropin_compute_pass \<Rightarrow> ('w, 'c, unit) call" where
  "dropin_drop_compute_pass p = encoder_push (dcp_parent p) (BeginComputePass (dcp_label p) (dcp_commands p))"

datatype unbridged_compute_call =
    PSetPushConstants | PInsertDebugMarker | PPushDebugGroup | PPopDebugGroup | PWriteTimestamp
  | PBeginPipelineStatisticsQuery | PEndPipelineStatisticsQuery | PEnd

fun unbridged_compute :: "dropin_compute_pass \<Rightarrow> unbridged_compute_call \<Rightarrow> ('w, 'c, unit) call" where
  "unbridged_compute p PSetPushConstants = panic"
| "unbridged_compute p PInsertDebugMarker = ret ()"
| "unbridged_compute p PPushDebugGroup = ret ()"
| "unbridged_compute p PPopDebugGroup = ret ()"
| "unbridged_compute p PWriteTimestamp = report_of (dcp_parent p) ''query sets''"
| "unbridged_compute p PBeginPipelineStatisticsQuery = report_of (dcp_parent p) ''query sets''"
| "unbridged_compute p PEndPipelineStatisticsQuery = report_of (dcp_parent p) ''query sets''"
| "unbridged_compute p PEnd = ret ()"

subsection \<open>RenderPass\<close>

record 'w wg_color_attachment =
  wca_view :: "texture_view wgpu_ref"
  wca_depth_slice :: "u32 option"
  wca_resolve_target :: "texture_view wgpu_ref option"
  wca_ops :: 'w

record 'w wg_depth_attachment =
  wda_view :: "texture_view wgpu_ref"
  wda_depth_ops :: "'w option"
  wda_stencil_ops :: "'w option"

record 'w wg_render_pass_descriptor =
  wrd_label :: "string option"
  wrd_color_attachments :: "'w wg_color_attachment option list"
  wrd_depth_stencil_attachment :: "'w wg_depth_attachment option"

record 'w dropin_render_pass =
  drp_label :: "string option"
  drp_color_attachments :: "'w color_attachment option list"
  drp_depth_stencil_attachment :: "'w depth_stencil_attachment option"
  drp_commands :: "'w render_command list"
  drp_parent :: nat

text \<open>\<open>None\<close> is the panic of \<open>expect\<close> on a view of another backend.\<close>

definition wg_color_attachment_ids :: "'w wg_color_attachment \<Rightarrow> 'w color_attachment option" where
  "wg_color_attachment_ids att =
     Option.bind (as_custom (wca_view att)) (\<lambda>view.
     Option.bind (case wca_resolve_target att of None \<Rightarrow> Some None | Some v \<Rightarrow> map_option Some (as_custom v)) (\<lambda>rt.
       Some \<lparr>ca_view = hd_id view, ca_depth_slice = wca_depth_slice att, ca_resolve_target = map_option hd_id rt,
             ca_ops = wca_ops att\<rparr>))"

fun wg_color_attachments :: "'w wg_color_attachment option list \<Rightarrow> 'w color_attachment option list option" where
  "wg_color_attachments [] = Some []"
| "wg_color_attachments (None # atts) = map_option (\<lambda>cs. None # cs) (wg_color_attachments atts)"
| "wg_color_attachments (Some att # atts) =
     Option.bind (wg_color_attachment_ids att) (\<lambda>c. map_option (\<lambda>cs. Some c # cs) (wg_color_attachments atts))"

definition wg_depth_attachment_ids :: "'w wg_depth_attachment \<Rightarrow> 'w depth_stencil_attachment option" where
  "wg_depth_attachment_ids att =
     map_option (\<lambda>view. \<lparr>da_view = hd_id view, da_depth_ops = wda_depth_ops att, da_stencil_ops = wda_stencil_ops att\<rparr>)
       (as_custom (wda_view att))"

definition dropin_begin_render_pass ::
  "nat \<Rightarrow> 'w wg_render_pass_descriptor \<Rightarrow> ('w, 'c, 'w dropin_render_pass) call" where
  "dropin_begin_render_pass e desc =
     andThen (lift_opt (wg_color_attachments (wrd_color_attachments desc))) (\<lambda>colors.
     andThen (lift_opt (case wrd_depth_stencil_attachment desc of
         None \<Rightarrow> Some None
       | Some att \<Rightarrow> map_option Some (wg_depth_attachment_ids att))) (\<lambda>depth.
       ret \<lparr>drp_label = own_label (wrd_label desc), drp_color_attachments = colors,
            drp_depth_stencil_attachment = depth, drp_commands = [], drp_parent = e\<rparr>))"

definition drp_push :: "'w render_command \<Rightarrow> 'w dropin_render_pass \<Rightarrow> ('w, 'c, 'w dropin_render_pass) call" where
  "drp_push c p = ret (p\<lparr>drp_commands := drp_commands p @ [c]\<rparr>)"

definition dropin_render_set_pipeline ::
  "render_pipeline wgpu_ref \<Rightarrow> 'w dropin_render_pass \<Rightarrow> ('w, 'c, 'w dropin_render_pass) call" where
  "dropin_render_set_pipeline pipeline p =
     andThen (expect_ours pipeline) (\<lambda>h. drp_push (RSetPipeline (hd_id h)) p)"

definition dropin_render_set_bind_group ::
  "u32 \<Rightarrow> bind_group wgpu_ref option \<Rightarrow> u32 list \<Rightarrow> 'w dropin_render_pass \<Rightarrow> ('w, 'c, 'w dropin_render_pass) call" where
  "dropin_render_set_bind_group index grp offsets p =
     andThen (lift_opt grp) (\<lambda>g. andThen (expect_ours g) (\<lambda>h. drp_push (RSetBindGroup index (hd_id h) offsets) p))"

definition dropin_set_index_buffer ::
  "wgpu_buffer wgpu_ref \<Rightarrow> 'w \<Rightarrow> u64 \<Rightarrow> u64 option \<Rightarrow> 'w dropin_render_pass \<Rightarrow> ('w, 'c, 'w dropin_render_pass) call" where
  "dropin_set_index_buffer buffer format off len p =
     andThen (expect_ours buffer) (\<lambda>h. drp_push (RSetIndexBuffer (hd_id (wb_facade h)) format off len) p)"

definition dropin_set_vertex_buffer ::
  "u32 \<Rightarrow> wgpu_buffer wgpu_ref \<Rightarrow> u64 \<Rightarrow> u64 option \<Rightarrow> 'w dropin_render_pass \<Rightarrow> ('w, 'c, 'w dropin_render_pass) call" where
  "dropin_set_vertex_buffer slot buffer off len p =
     andThen (expect_ours buffer) (\<lambda>h. drp_push (RSetVertexBuffer slot (hd_id (wb_facade h)) off len) p)"

definition dropin_draw ::
  "u32 \<times> u32 \<Rightarrow> u32 \<times> u32 \<Rightarrow> 'w dropin_render_pass \<Rightarrow> ('w, 'c, 'w dropin_render_pass) call" where
  "dropin_draw vertices instances p = drp_push (RDraw vertices instances) p"

definition dropin_draw_indexed ::
  "u32 \<times> u32 \<Rightarrow> u32 \<Rightarrow> u32 \<times> u32 \<Rightarrow> 'w dropin_render_pass \<Rightarrow> ('w, 'c, 'w dropin_render_pass) call" where
  "dropin_draw_indexed indices base_vertex instances p = drp_push (RDrawIndexed indices base_vertex instances) p"

definition dropin_drop_render_pass :: "'w dropin_render_pass \<Rightarrow> ('w, 'c, unit) call" where
  "dropin_drop_render_pass p =
     encoder_push (drp_parent p) (BeginRenderPass (drp_label p) (drp_color_attachments p)
       (drp_depth_stencil_attachment p) (drp_commands p))"

datatype unbridged_render_call =
    QSetPushConstants | QSetBlendConstant | QSetScissorRect | QSetViewport | QSetStencilReference

definition unbridged_render_state :: "unbridged_render_call \<Rightarrow> ('w, 'c, unit) call" where
  "unbridged_render_state _ = panic"

datatype unbridged_draw_call =
    QDrawMeshTasks | QDrawIndirect | QDrawIndexedIndirect | QDrawMeshTasksIndirect | QMultiDrawIndirect
  | QMultiDrawIndexedIndirect | QMultiDrawIndirectCount | QMultiDrawMeshTasksIndirect
  | QMultiDrawIndexedIndirectCount | QMultiDrawMeshTasksIndirectCount | QInsertDebugMarker | QPushDebugGroup
  | QPopDebugGroup | QWriteTimestamp | QBeginOcclusionQuery | QEndOcclusionQuery
  | QBeginPipelineStatisticsQuery | QEndPipelineStatisticsQuery | QExecuteBundles | QEnd

fun unbridged_draw :: "'w dropin_render_pass \<Rightarrow> unbridged_draw_call \<Rightarrow> ('w, 'c, unit) call" where
  "unbridged_draw p QDrawMeshTasks = report_of (drp_parent p) ''mesh shading''"
| "unbridged_draw p QDrawIndirect = panic"
| "unbridged_draw p QDrawIndexedIndirect = panic"
| "unbridged_draw p QDrawMeshTasksIndirect = report_of (drp_parent p) ''mesh shading''"
| "unbridged_draw p QMultiDrawIndirect = report_of (drp_parent p) ''multi-draw''"
| "unbridged_draw p QMultiDrawIndexedIndirect = report_of (drp_parent p) ''multi-draw''"
| "unbridged_draw p QMultiDrawIndirectCount = report_of (drp_parent p) ''multi-draw-count''"
| "unbridged_draw p QMultiDrawMeshTasksIndirect = report_of (drp_parent p) ''mesh shading''"
| "unbridged_draw p QMultiDrawIndexedIndirectCount = report_of (drp_parent p) ''multi-draw-count''"
| "unbridged_draw p QMultiDrawMeshTasksIndirectCount = report_of (drp_parent p) ''mesh shading''"
| "unbridged_draw p QInsertDebugMarker = ret ()"
| "unbridged_draw p QPushDebugGroup = ret ()"
| "unbridged_draw p QPopDebugGroup = ret ()"
| "unbridged_draw p QWriteTimestamp = report_of (drp_parent p) ''query sets''"
| "unbridged_draw p QBeginOcclusionQuery = report_of (drp_parent p) ''occlusion queries''"
| "unbridged_draw p QEndOcclusionQuery = report_of (drp_parent p) ''occlusion queries''"
| "unbridged_draw p QBeginPipelineStatisticsQuery = report_of (drp_parent p) ''pipeline statistics queries''"
| "unbridged_draw p QEndPipelineStatisticsQuery = report_of (drp_parent p) ''pipeline statistics queries''"
| "unbridged_draw p QExecuteBundles = report_of (drp_parent p) ''render bundles''"
| "unbridged_draw p QEnd = ret ()"

end
