(* ===== verification/Dropin_Properties.thy ===== *)
theory Dropin_Properties
  imports Dropin_Recorder
begin

section \<open>Properties of the drop-in\<close>

text \<open>
  Translation of descriptors, buffer mapping, recording, and the reports of failed submissions.
\<close>

subsection \<open>Translation\<close>

definition named :: "wgpu_refs \<Rightarrow> resource_id set" where
  "named refs = {r. Some r \<in> snd ` set refs}"

lemma named_simps [simp]:
  "named [] = {}" "named (refs @ refs') = named refs \<union> named refs'"
  "named ((k, x) # refs) = set_option x \<union> named refs"
  by (auto simp: named_def image_iff)

lemma named_concat: "named (concat rss) = (\<Union>rs \<in> set rss. named rs)"
  by (auto simp: named_def)

lemma id_of_named:
  "buffer_id_of b = Inr i1 \<Longrightarrow> RBuffer i1 \<in> named [buffer_ref b]"
  "sampler_id_of s = Inr i2 \<Longrightarrow> RSampler i2 \<in> named [sampler_ref s]"
  "texture_view_id_of v = Inr i3 \<Longrightarrow> RTextureView i3 \<in> named [view_ref v]"
  "shader_module_id_of m = Inr i4 \<Longrightarrow> RShaderModule i4 \<in> named [module_ref m]"
  "bind_group_layout_id_of l = Inr i5 \<Longrightarrow> RBindGroupLayout i5 \<in> named [bind_group_layout_ref l]"
  "pipeline_layout_id_of pl = Inr i6 \<Longrightarrow> RPipelineLayout i6 \<in> named [pipeline_layout_ref pl]"
  by (auto simp: id_of_defs ref_of_def named_def)

lemma collect_res_members:
  "collect_res f xs = Inr ys \<Longrightarrow> y \<in> set ys \<Longrightarrow> \<exists>x \<in> set xs. f x = Inr y"
  by (induction xs arbitrary: ys) (auto simp: bind_res_eq_Inr)

lemma map_opt_res_eq_Inr:
  "map_opt_res f x = Inr y \<longleftrightarrow> (case x of None \<Rightarrow> y = None | Some v \<Rightarrow> \<exists>w. f v = Inr w \<and> y = Some w)"
  by (auto simp: map_opt_res_def bind_res_eq_Inr split: option.splits)

lemma binding_refs_named:
  "translate_binding_resource r = Inr x \<Longrightarrow> set (binding_refs x) \<subseteq> named (binding_wgpu_refs r)"
  by (cases r) (auto simp: bind_res_eq_Inr dest: id_of_named)

lemma bind_group_refs_named:
  assumes "translate_bind_group desc = Inr d"
  shows "set (action_refs (CreateBindGroup i d)) \<subseteq> named (bind_group_wgpu_refs desc)"
proof -
  obtain layout entries where l: "bind_group_layout_id_of (wbg_layout desc) = Inr layout"
    and e: "collect_res translate_bind_group_entry (wbg_entries desc) = Inr entries"
    and d: "bg_layout d = layout" "bg_entries d = entries"
    using assms by (auto simp: translate_bind_group_def bind_res_eq_Inr)
  have "set (binding_refs (bge_resource x)) \<subseteq> named (concat (map (\<lambda>e. binding_wgpu_refs (wbe_resource e)) (wbg_entries desc)))"
    if x: "x \<in> set entries" for x
  proof -
    obtain w where w: "w \<in> set (wbg_entries desc)" "translate_bind_group_entry w = Inr x"
      using collect_res_members [OF e x] by blast
    then have "translate_binding_resource (wbe_resource w) = Inr (bge_resource x)"
      by (auto simp: translate_bind_group_entry_def bind_res_eq_Inr)
    then show ?thesis using binding_refs_named w(1) by (force simp: named_concat)
  qed
  then show ?thesis
    using id_of_named(5) [OF l] by (auto simp: d bind_group_wgpu_refs_def ref_of_def)
qed

lemma pipeline_layout_refs_named:
  assumes "translate_pipeline_layout desc = Inr d"
  shows "set (action_refs (CreatePipelineLayout i d)) \<subseteq> named (pipeline_layout_wgpu_refs desc)"
proof -
  obtain ls where ls: "collect_res bind_group_layout_id_of (wpl_bind_group_layouts desc) = Inr ls"
    and d: "pl_bind_group_layouts d = ls"
    using assms by (auto simp: translate_pipeline_layout_def bind_res_eq_Inr)
  have "RBindGroupLayout x \<in> named (pipeline_layout_wgpu_refs desc)" if x: "x \<in> set ls" for x
  proof -
    obtain w where w: "w \<in> set (wpl_bind_group_layouts desc)" "bind_group_layout_id_of w = Inr x"
      using collect_res_members [OF ls x] by blast
    with id_of_named(5) [OF w(2)] show ?thesis
      by (auto simp: pipeline_layout_wgpu_refs_def named_def)
  qed
  then show ?thesis by (auto simp: d)
qed

lemma layout_refs_named:
  "map_opt_res pipeline_layout_id_of lo = Inr l \<Longrightarrow>
     set (layout_refs l) \<subseteq> named (map pipeline_layout_ref (case lo of None \<Rightarrow> [] | Some x \<Rightarrow> [x]))"
  using id_of_named(6) by (cases lo) (auto simp: map_opt_res_eq_Inr layout_refs_def)

lemma compute_pipeline_refs_named:
  assumes "translate_compute_pipeline desc = Inr d"
  shows "set (action_refs (CreateComputePipeline i d)) \<subseteq> named (compute_pipeline_wgpu_refs desc)"
proof -
  obtain l m where l: "map_opt_res pipeline_layout_id_of (wcp_layout desc) = Inr l"
    and m: "shader_module_id_of (wcp_module desc) = Inr m" and d: "cp_layout d = l" "cp_module d = m"
    using assms by (auto simp: translate_compute_pipeline_def bind_res_eq_Inr)
  show ?thesis
    using layout_refs_named [OF l] id_of_named(4) [OF m]
    unfolding compute_pipeline_wgpu_refs_def named_simps(2) by (auto simp: d)
qed

lemma render_pipeline_refs_named:
  assumes "translate_render_pipeline desc = Inr d"
  shows "set (action_refs (CreateRenderPipeline i d)) \<subseteq> named (render_pipeline_wgpu_refs desc)"
proof -
  obtain l v f where l: "map_opt_res pipeline_layout_id_of (wrp_layout desc) = Inr l"
    and v: "translate_vertex_state (wrp_vertex desc) = Inr v"
    and f: "map_opt_res translate_fragment_state (wrp_fragment desc) = Inr f"
    and d: "rp_layout d = l" "rp_vertex d = v" "rp_fragment d = f"
    using assms by (auto simp: translate_render_pipeline_def bind_res_eq_Inr)
  have vertex: "shader_module_id_of (wvs_module (wrp_vertex desc)) = Inr (vs_module v)"
    using v by (auto simp: translate_vertex_state_def bind_res_eq_Inr)
  have fragment: "set (case f of None \<Rightarrow> [] | Some f \<Rightarrow> [RShaderModule (fs_module f)])
      \<subseteq> named (map (\<lambda>f. module_ref (wfs_module f)) (case wrp_fragment desc of None \<Rightarrow> [] | Some f \<Rightarrow> [f]))"
    using f id_of_named(4)
    by (cases "wrp_fragment desc") (auto simp: map_opt_res_eq_Inr translate_fragment_state_def bind_res_eq_Inr)
  show ?thesis
    using layout_refs_named [OF l] id_of_named(4) [OF vertex] fragment
    unfolding render_pipeline_wgpu_refs_def named_simps(2) by (auto simp: d)
qed

text \<open>C35: translation names the caller's resources, or blames the first foreign one. A descriptor of a
  bind group, a pipeline layout, a render or a compute pipeline translates exactly when every resource
  in it was made by this backend; otherwise the error names the kind of the first that was not, in the
  order layout, then entries or modules. The references of the translated descriptor are all
  resources of handles in the original one.\<close>

theorem translation_is_faithful:
  "agrees (translate_bind_group bg) (bind_group_wgpu_refs bg)
   \<and> agrees (translate_pipeline_layout pl) (pipeline_layout_wgpu_refs pl)
   \<and> agrees (translate_render_pipeline rp) (render_pipeline_wgpu_refs rp)
   \<and> agrees (translate_compute_pipeline cp) (compute_pipeline_wgpu_refs cp)
   \<and> (translate_bind_group bg = Inr d1 \<longrightarrow> set (action_refs (CreateBindGroup i1 d1)) \<subseteq> named (bind_group_wgpu_refs bg))
   \<and> (translate_pipeline_layout pl = Inr d2 \<longrightarrow> set (action_refs (CreatePipelineLayout i2 d2)) \<subseteq> named (pipeline_layout_wgpu_refs pl))
   \<and> (translate_render_pipeline rp = Inr d3 \<longrightarrow> set (action_refs (CreateRenderPipeline i3 d3)) \<subseteq> named (render_pipeline_wgpu_refs rp))
   \<and> (translate_compute_pipeline cp = Inr d4 \<longrightarrow> set (action_refs (CreateComputePipeline i4 d4)) \<subseteq> named (compute_pipeline_wgpu_refs cp))"
  by (intro conjI impI agrees_bind_group agrees_pipeline_layout agrees_render_pipeline agrees_compute_pipeline
      bind_group_refs_named pipeline_layout_refs_named render_pipeline_refs_named compute_pipeline_refs_named)

subsection \<open>Buffers mapped at creation\<close>

text \<open>A use of a mapped buffer: get a range, write into it, drop it.\<close>

type_synonym staged_write = "(u64 \<times> u64) \<times> bytes"

definition stage_write :: "wgpu_buffer \<Rightarrow> staged_write \<Rightarrow> ('w, 'c, unit) call" where
  "stage_write b w =
     andThen (get_mapped_range b (fst w)) (\<lambda>r. andThen (range_write (snd w) r) drop_range)"

text \<open>What it is to do to the bytes of the buffer, position by position.\<close>

definition overlay :: "staged_write \<Rightarrow> bytes \<Rightarrow> bytes" where
  "overlay w v =
     map (\<lambda>i. if unat (fst (fst w)) \<le> i \<and> i < unat (snd (fst w)) \<and> i < unat (fst (fst w)) + length (snd w)
       then snd w ! (i - unat (fst (fst w))) else v ! i) [0..<length v]"

definition write_fits :: "u64 \<Rightarrow> staged_write \<Rightarrow> bool" where
  "write_fits sz w \<longleftrightarrow> fst (fst w) \<le> snd (fst w) \<and> snd (fst w) \<le> sz"

lemma length_overlay [simp]: "length (overlay w v) = length v"
  by (simp add: overlay_def)

lemma overlay_splice:
  assumes "lo \<le> hi" and "unat hi \<le> length v"
  defines "owned \<equiv> take (unat hi - unat lo) (drop (unat lo) v)"
  shows "take (unat lo) v @ (take (length owned) data @ drop (length data) owned) @ drop (unat lo + length owned) v
    = overlay ((lo, hi), data) v"
proof (rule nth_equalityI)
  have le: "unat lo \<le> unat hi" using assms(1) by (simp add: word_le_nat_alt)
  have len: "length owned = unat hi - unat lo" using assms(2) by (simp add: owned_def)
  show "length (take (unat lo) v @ (take (length owned) data @ drop (length data) owned) @ drop (unat lo + length owned) v)
      = length (overlay ((lo, hi), data) v)"
    using le assms(2) by (simp add: len)
  fix i
  assume "i < length (take (unat lo) v @ (take (length owned) data @ drop (length data) owned) @ drop (unat lo + length owned) v)"
  then have i: "i < length v" using le assms(2) by (simp add: len)
  show "(take (unat lo) v @ (take (length owned) data @ drop (length data) owned) @ drop (unat lo + length owned) v) ! i
      = overlay ((lo, hi), data) v ! i"
  proof -
    let ?n = "unat hi - unat lo"
    have lens: "length (take (unat lo) v) = unat lo" "length (take (length owned) data) = min ?n (length data)"
      "length (drop (length data) owned) = ?n - length data"
      using le assms(2) by (simp_all add: len min.commute)
    consider (before) "i < unat lo" | (written) "unat lo \<le> i" "i < unat hi" "i < unat lo + length data"
      | (kept) "unat lo \<le> i" "i < unat hi" "unat lo + length data \<le> i" | (rest) "unat hi \<le> i"
      by linarith
    then show ?thesis
    proof cases
      case before
      then show ?thesis using i by (simp add: overlay_def nth_append lens)
    next
      case written
      then have "i - unat lo < min ?n (length data)" by linarith
      then show ?thesis using written i by (simp add: overlay_def nth_append lens len)
    next
      case kept
      then have "\<not> i - unat lo < min ?n (length data)" "min ?n (length data) = length data"
        "i - unat lo - length data < ?n - length data" by linarith+
      moreover have "drop (length data) owned ! (i - unat lo - length data) = v ! i"
        using kept le assms(2) by (simp add: owned_def)
      moreover have "min (length data) (length owned) = length data"
        "i - (unat lo + length data) < length owned - length data" using kept len by linarith+
      ultimately show ?thesis using kept i by (simp add: overlay_def nth_append lens)
    next
      case rest
      then have "\<not> i - unat lo < ?n" "\<not> i - (unat lo + min (length data) ?n) < unat hi - (unat lo + length data)"
        "i - (unat lo + min (length data) ?n + (unat hi - (unat lo + length data))) = i - unat hi" using le by linarith+
      then show ?thesis using rest i le by (simp add: overlay_def nth_append lens len)
    qed
  qed
qed

text \<open>The slot of a buffer holds a staging area.\<close>

definition staging :: "wgpu_buffer \<Rightarrow> bytes \<Rightarrow> ('w, 'c) dropin \<Rightarrow> bool" where
  "staging b v s \<longleftrightarrow> wb_slot b < length (dp_slots s)
     \<and> dp_slots s ! wb_slot b = \<lparr>slot_map = Some (WriteMap v), slot_poisoned = False\<rparr>"

lemma drop_range_staging:
  assumes "staging b v s" and "off + length owned \<le> length v"
  shows "drop_range (WriteRange owned (wb_slot b) off) s =
    (Ret (), s\<lparr>dp_slots := (dp_slots s)[wb_slot b :=
        \<lparr>slot_map = Some (WriteMap (take off v @ owned @ drop (off + length owned) v)), slot_poisoned = False\<rparr>]\<rparr>)"
  using assms by (simp add: staging_def with_slot_def Let_def)

lemma stage_write_effect:
  assumes "staging b v s" and "write_fits sz w" and "length v = unat sz"
  shows "\<exists>s'. stage_write b w s = (Ret (), s') \<and> staging b (overlay w v) s' \<and> dp_facade s' = dp_facade s"
proof -
  obtain lo hi data where w: "w = ((lo, hi), data)" by (metis prod.exhaust)
  have le: "lo \<le> hi" "unat lo \<le> unat hi" "unat hi \<le> length v"
    using assms(2,3) by (auto simp: write_fits_def w word_le_nat_alt)
  let ?owned = "take (unat hi - unat lo) (drop (unat lo) v)"
  let ?new = "take (length ?owned) data @ drop (length data) ?owned"
  have slot: "wb_slot b < length (dp_slots s)"
    "dp_slots s ! wb_slot b = \<lparr>slot_map = Some (WriteMap v), slot_poisoned = False\<rparr>"
    using assms(1) by (simp_all add: staging_def)
  have get: "get_mapped_range b (lo, hi) s = (Ret (WriteRange ?owned (wb_slot b) (unat lo)), s)"
    using slot le list_update_id [of "dp_slots s" "wb_slot b"]
    by (simp add: get_mapped_range_def with_slot_def sub_slice_def Let_def)
  have new: "length ?new = unat hi - unat lo" using le by simp
  let ?s' = "s\<lparr>dp_slots := (dp_slots s)[wb_slot b := \<lparr>slot_map = Some (WriteMap (overlay w v)), slot_poisoned = False\<rparr>]\<rparr>"
  have "take (unat lo) v @ ?new @ drop (unat lo + length ?new) v = overlay w v"
    using overlay_splice [OF le(1,3), of data] new le by (simp add: w)
  moreover have "unat lo + length ?new \<le> length v" using new le by linarith
  ultimately have drop: "drop_range (WriteRange ?new (wb_slot b) (unat lo)) s = (Ret (), ?s')"
    using drop_range_staging [OF assms(1), of "unat lo" ?new] by (simp only:)
  have "stage_write b w s = (Ret (), ?s')"
    by (simp only: stage_write_def w fst_conv snd_conv andThen_def get prod.case flow.case range_write.simps step_simps(1)
        drop [unfolded w])
  then show ?thesis
    using slot by (auto simp: staging_def)
qed

lemma stage_writes_effect:
  assumes "staging b v s" and "\<forall>w \<in> set writes. write_fits sz w" and "length v = unat sz"
  shows "\<exists>s'. for_each (stage_write b) writes s = (Ret (), s') \<and> staging b (fold overlay writes v) s' \<and> dp_facade s' = dp_facade s"
  using assms
proof (induction writes arbitrary: v s)
  case (Cons w writes)
  obtain s1 where s1: "stage_write b w s = (Ret (), s1)" "staging b (overlay w v) s1" "dp_facade s1 = dp_facade s"
    using stage_write_effect [OF Cons.prems(1), of sz w] Cons.prems by auto
  obtain s2 where "for_each (stage_write b) writes s1 = (Ret (), s2)"
    "staging b (fold overlay writes (overlay w v)) s2" "dp_facade s2 = dp_facade s1"
    using Cons.IH [OF s1(2)] Cons.prems by auto
  with s1 show ?case by (auto simp: andThen_def)
qed simp

lemma unmap_staging:
  assumes "staging b v s"
  shows "\<exists>s'. unmap bk b s = (Ret (), s') \<and> dp_facade s' = write_range (bk_link bk) (wb_facade b) 0 v (dp_facade s)
    \<and> dp_slots s' ! wb_slot b = \<lparr>slot_map = None, slot_poisoned = False\<rparr>"
  using assms by (auto simp: staging_def unmap_def andThen_def with_slot_def tell_facade_def Let_def)

lemma create_mapped_returns:
  assumes "bd_mapped_at_creation desc"
  shows "\<exists>b s1. dropin_create_buffer bk dev desc s = (Ret b, s1)"
  using assms
  by (auto simp: dropin_create_buffer_def dropin_new_mapped_at_creation_def new_slot_def on_facade_def andThen_def Let_def
      split: prod.split)

lemma create_mapped:
  assumes "bd_mapped_at_creation desc" and "dropin_create_buffer bk dev desc s = (Ret b, s1)"
  shows "staging b (replicate (unat (bd_size desc)) 0) s1
    \<and> (wb_facade b, dp_facade s1) = create_buffer_on (bk_link bk) dev
        (desc\<lparr>bd_usage := or (bd_usage desc) (bk_copy_dst bk), bd_mapped_at_creation := False\<rparr>) (dp_facade s)"
  using assms
  by (auto simp: dropin_create_buffer_def translate_buffer_def dropin_new_mapped_at_creation_def new_slot_def on_facade_def
      andThen_def staging_def Let_def split: prod.splits)

text \<open>C34: \<open>mapped_at_creation\<close> works by shipping one write. A buffer created mapped is created on the
  server unmapped, with \<open>COPY_DST\<close> added to its usage; whatever ranges within its size the program
  then gets, writes into and drops, and then unmaps the buffer, nothing of it panics, nothing is sent
  until the \<open>unmap\<close>, and that sends one write of the whole buffer: zeros, with the bytes of the writes
  laid over them in order.\<close>

theorem staged_writes_are_shipped:
  assumes "bd_mapped_at_creation desc" and "dropin_create_buffer bk dev desc s = (Ret b, s1)"
    and "\<forall>w \<in> set writes. write_fits (bd_size desc) w"
  shows "\<exists>s2 s3. for_each (stage_write b) writes s1 = (Ret (), s2) \<and> dp_facade s2 = dp_facade s1
    \<and> unmap bk b s2 = (Ret (), s3)
    \<and> dp_facade s3 = write_range (bk_link bk) (wb_facade b) 0
        (fold overlay writes (replicate (unat (bd_size desc)) 0)) (dp_facade s1)
    \<and> (wb_facade b, dp_facade s1) = create_buffer_on (bk_link bk) dev
        (desc\<lparr>bd_usage := or (bd_usage desc) (bk_copy_dst bk), bd_mapped_at_creation := False\<rparr>) (dp_facade s)"
proof -
  note created = create_mapped [OF assms(1,2)]
  obtain s2 where s2: "for_each (stage_write b) writes s1 = (Ret (), s2)" "dp_facade s2 = dp_facade s1"
    "staging b (fold overlay writes (replicate (unat (bd_size desc)) 0)) s2"
    using stage_writes_effect [of b "replicate (unat (bd_size desc)) 0" s1 writes "bd_size desc"] created assms(3) by auto
  from unmap_staging [OF s2(3), of bk] s2(1,2) created show ?thesis by auto
qed

subsection \<open>Buffers mapped for reading\<close>

text \<open>C36: the range that was mapped cannot be got, unless it starts at zero. When a \<open>map_async\<close> of
  \<open>lo .. hi\<close> has completed with the \<open>hi - lo\<close> bytes it asked for and \<open>0 < lo < hi\<close>, asking for the mapped
  range \<open>lo .. hi\<close>, in the buffer's coordinates, as wgpu does, slices the fetched bytes out of range: it
  panics and poisons the slot, and unmapping the buffer panics from then on.\<close>

theorem mapped_range_is_relative:
  assumes "k < length (dp_tasks s)" and "dp_tasks s ! k = \<lparr>mt_buffer = h, mt_slot = wb_slot b, mt_range = (lo, hi)\<rparr>"
    and "run_map_task bk k s = (Ret True, s1)" and "wb_slot b < length (dp_slots s)"
    and "\<And>bs fa. read_range (bk_link bk) h (Included lo, Excluded hi) (dp_facade s) = (Ret bs, fa) \<Longrightarrow>
      length bs = unat hi - unat lo"
    and "0 < lo" and "lo < hi"
  shows "\<exists>s2. get_mapped_range b (lo, hi) s1 = (Panic, s2) \<and> slot_poisoned (dp_slots s2 ! wb_slot b)
    \<and> fst (unmap bk b s2) = Panic"
proof -
  obtain r fa where run: "read_range (bk_link bk) h (Included lo, Excluded hi) (dp_facade s) = (r, fa)"
    by (rule prod.exhaust)
  obtain bs where r: "r = Ret bs" and slot: "dp_slots s1 ! wb_slot b = \<lparr>slot_map = Some (ReadMap bs), slot_poisoned = False\<rparr>"
    and len: "wb_slot b < length (dp_slots s1)"
    using assms(2,3,4) run
    by (cases r) (auto simp: run_map_task_def Let_def with_slot_def andThen_def split: if_splits)
  have "0 < unat lo" and "unat lo < unat hi" using assms(6,7) by (simp_all add: word_less_nat_alt)
  moreover have "length bs = unat hi - unat lo" using assms(5) run r by blast
  ultimately have "sub_slice (unat lo) (unat hi) bs = None" by (auto simp: sub_slice_def)
  then have "get_mapped_range b (lo, hi) s1 =
      (Panic, s1\<lparr>dp_slots := (dp_slots s1)[wb_slot b := \<lparr>slot_map = Some (ReadMap bs), slot_poisoned = True\<rparr>]\<rparr>)"
    by (simp add: get_mapped_range_def with_slot_def slot Let_def)
  then show ?thesis
    using len by (auto simp: unmap_def andThen_def with_slot_def Let_def)
qed

subsection \<open>Recording\<close>

text \<open>
  A script of the facade through the drop-in: the same calls on wgpu's objects. \<open>\<sigma>\<close> gives the map slots
  of the buffers, which recording does not look at.
\<close>

abbreviation wrap_buffer :: "(buffer \<Rightarrow> nat) \<Rightarrow> buffer \<Rightarrow> wgpu_buffer wgpu_ref" where
  "wrap_buffer \<sigma> b \<equiv> Ours \<lparr>wb_facade = b, wb_slot = \<sigma> b\<rparr>"

fun run_pass :: "('a \<Rightarrow> 'p \<Rightarrow> ('w, 'c, 'p) call) \<Rightarrow> 'a list \<Rightarrow> 'p \<Rightarrow> ('w, 'c, 'p) call" where
  "run_pass f [] p = ret p"
| "run_pass f (c # cs) p = andThen (f c p) (run_pass f cs)"

fun dropin_compute_call :: "compute_call \<Rightarrow> dropin_compute_pass \<Rightarrow> ('w, 'c, dropin_compute_pass) call" where
  "dropin_compute_call (UsePipeline p) = dropin_compute_set_pipeline (Ours p)"
| "dropin_compute_call (UseBindGroup index grp offsets) = dropin_compute_set_bind_group index (Some (Ours grp)) offsets"
| "dropin_compute_call (Dispatch x y z) = dropin_dispatch_workgroups x y z"

fun dropin_render_call ::
  "(buffer \<Rightarrow> nat) \<Rightarrow> 'w render_call \<Rightarrow> 'w dropin_render_pass \<Rightarrow> ('w, 'c, 'w dropin_render_pass) call" where
  "dropin_render_call \<sigma> (UseRenderPipeline p) = dropin_render_set_pipeline (Ours p)"
| "dropin_render_call \<sigma> (UseRenderBindGroup index grp offsets) = dropin_render_set_bind_group index (Some (Ours grp)) offsets"
| "dropin_render_call \<sigma> (UseVertexBuffer slot buf off len) = dropin_set_vertex_buffer slot (wrap_buffer \<sigma> buf) off len"
| "dropin_render_call \<sigma> (UseIndexBuffer buf format off len) = dropin_set_index_buffer (wrap_buffer \<sigma> buf) format off len"
| "dropin_render_call \<sigma> (DrawCall vertices instances) = dropin_draw vertices instances"
| "dropin_render_call \<sigma> (DrawIndexedCall indices base instances) = dropin_draw_indexed indices base instances"

definition wg_color_attachment_of :: "'w color_attachment_handles \<Rightarrow> 'w wg_color_attachment" where
  "wg_color_attachment_of att =
     \<lparr>wca_view = Ours (cah_view att), wca_depth_slice = cah_depth_slice att,
      wca_resolve_target = map_option Ours (cah_resolve_target att), wca_ops = cah_ops att\<rparr>"

definition wg_render_pass_of :: "'w render_pass_descriptor \<Rightarrow> 'w wg_render_pass_descriptor" where
  "wg_render_pass_of desc =
     \<lparr>wrd_label = rpd_label desc,
      wrd_color_attachments = map (map_option wg_color_attachment_of) (rpd_color_attachments desc),
      wrd_depth_stencil_attachment = map_option (\<lambda>att.
        \<lparr>wda_view = Ours (dah_view att), wda_depth_ops = dah_depth_ops att, wda_stencil_ops = dah_stencil_ops att\<rparr>)
        (rpd_depth_stencil_attachment desc)\<rparr>"

fun dropin_encoder_call :: "(buffer \<Rightarrow> nat) \<Rightarrow> nat \<Rightarrow> 'w encoder_call \<Rightarrow> ('w, 'c, unit) call" where
  "dropin_encoder_call \<sigma> e (CopyBuffers source source_off dest dest_off len) =
     dropin_copy_buffer_to_buffer e (wrap_buffer \<sigma> source) source_off (wrap_buffer \<sigma> dest) dest_off (Some len)"
| "dropin_encoder_call \<sigma> e (Clear buf off len) = dropin_clear_buffer e (wrap_buffer \<sigma> buf) off len"
| "dropin_encoder_call \<sigma> e (ReadTexture source mip org aspect dest layout copy_size) =
     dropin_copy_texture_to_buffer e (Ours source) mip org aspect (wrap_buffer \<sigma> dest) layout copy_size"
| "dropin_encoder_call \<sigma> e (ComputePassOf label calls) =
     andThen (dropin_begin_compute_pass e label) (\<lambda>p.
     andThen (run_pass dropin_compute_call calls p) dropin_drop_compute_pass)"
| "dropin_encoder_call \<sigma> e (RenderPassOf desc calls) =
     andThen (dropin_begin_render_pass e (wg_render_pass_of desc)) (\<lambda>p.
     andThen (run_pass (dropin_render_call \<sigma>) calls p) dropin_drop_render_pass)"

definition dropin_record ::
  "nat \<Rightarrow> (buffer \<Rightarrow> nat) \<Rightarrow> string option \<Rightarrow> 'w encoder_call list \<Rightarrow> ('w, 'c, 'w recording) call" where
  "dropin_record dev \<sigma> label script =
     andThen (dropin_new_encoder dev label) (\<lambda>e.
     andThen (for_each (dropin_encoder_call \<sigma> e) script) (\<lambda>_. dropin_finish e))"

lemma expect_ours_simps [simp]: "expect_ours (Ours x) = ret x" "expect_ours Foreign = panic"
  by (simp_all add: expect_ours_def lift_opt_def fun_eq_iff)

lemma lift_opt_Some: "lift_opt (Some x) = ret x"
  by (simp add: fun_eq_iff)

lemma dropin_compute_call_eq: "dropin_compute_call c p = dcp_push (compute_command_of c) p"
  by (cases c)
    (simp_all add: dropin_compute_set_pipeline_def dropin_compute_set_bind_group_def dropin_dispatch_workgroups_def lift_opt_Some)

lemma dropin_render_call_eq: "dropin_render_call \<sigma> c p = drp_push (render_command_of c) p"
  by (cases c)
    (simp_all add: dropin_render_set_pipeline_def dropin_render_set_bind_group_def dropin_set_vertex_buffer_def
      dropin_set_index_buffer_def dropin_draw_def dropin_draw_indexed_def lift_opt_Some)

lemma run_compute_pass:
  "run_pass dropin_compute_call calls p = ret (p\<lparr>dcp_commands := dcp_commands p @ map compute_command_of calls\<rparr>)"
  by (induction calls arbitrary: p) (simp_all add: dropin_compute_call_eq dcp_push_def fun_eq_iff)

lemma run_render_pass:
  "run_pass (dropin_render_call \<sigma>) calls p = ret (p\<lparr>drp_commands := drp_commands p @ map render_command_of calls\<rparr>)"
  by (induction calls arbitrary: p) (simp_all add: dropin_render_call_eq drp_push_def fun_eq_iff)

lemma wg_color_attachment_ids_of: "wg_color_attachment_ids (wg_color_attachment_of att) = Some (color_attachment_ids att)"
  by (simp add: wg_color_attachment_ids_def wg_color_attachment_of_def color_attachment_ids_def split: option.split)

lemma wg_color_attachments_of:
  "wg_color_attachments (map (map_option wg_color_attachment_of) atts) = Some (map (map_option color_attachment_ids) atts)"
proof (induction atts)
  case (Cons att atts)
  then show ?case by (cases att) (simp_all add: wg_color_attachment_ids_of)
qed simp

lemma begin_render_pass_of:
  "dropin_begin_render_pass e (wg_render_pass_of desc) =
     ret \<lparr>drp_label = rpd_label desc,
          drp_color_attachments = map (map_option color_attachment_ids) (rpd_color_attachments desc),
          drp_depth_stencil_attachment = map_option depth_attachment_ids (rpd_depth_stencil_attachment desc),
          drp_commands = [], drp_parent = e\<rparr>"
  by (cases "rpd_depth_stencil_attachment desc")
    (simp_all add: dropin_begin_render_pass_def wg_render_pass_of_def wg_color_attachments_of lift_opt_Some
      wg_depth_attachment_ids_def depth_attachment_ids_def fun_eq_iff)

lemma dropin_encoder_call_eq: "dropin_encoder_call \<sigma> e call = encoder_push e (encoder_command_of call)"
  by (cases call)
    (simp_all add: dropin_copy_buffer_to_buffer_def dropin_clear_buffer_def dropin_copy_texture_to_buffer_def
      dropin_begin_compute_pass_def dropin_drop_compute_pass_def dropin_drop_render_pass_def begin_render_pass_of
      run_compute_pass run_render_pass)

lemma dropin_encoder_calls: "dropin_encoder_call \<sigma> e = (\<lambda>call. encoder_push e (encoder_command_of call))"
  by (rule ext) (rule dropin_encoder_call_eq)

lemma encoder_pushes:
  assumes "e < length (dp_encoders s)"
  shows "for_each (\<lambda>call. encoder_push e (f call)) script s =
    (Ret (), s\<lparr>dp_encoders := (dp_encoders s)[e := (dp_encoders s ! e)\<lparr>ei_recording :=
        (ei_recording (dp_encoders s ! e))\<lparr>rec_commands := rec_commands (ei_recording (dp_encoders s ! e)) @ map f script\<rparr>\<rparr>]\<rparr>)"
  using assms
proof (induction script arbitrary: s)
  case (Cons call script)
  then show ?case by (simp add: andThen_def encoder_push_def Let_def)
qed simp

text \<open>C33: the drop-in records what the facade records. Any script of calls on an encoder and its passes,
  made through wgpu's objects, returns and finishes to the recording the facade's own encoder makes of
  it, and sends nothing.\<close>

theorem dropin_records_like_facade:
  "\<exists>s'. dropin_record dev \<sigma> label script s = (Ret (into_recording (record_script label script)), s')
    \<and> dp_facade s' = dp_facade s"
  by (simp add: dropin_record_def dropin_new_encoder_def andThen_def dropin_encoder_calls encoder_pushes dropin_finish_def
      record_script_eq Let_def)

text \<open>A pass that outlives \<open>finish\<close> pushes its commands into the recording \<open>finish\<close> left behind, so what
  was finished does not have them.\<close>

lemma late_pass_is_lost:
  assumes "dropin_finish e s = (Ret r, s1)" and "dcp_parent p = e" and "e < length (dp_encoders s)"
  shows "r = ei_recording (dp_encoders s ! e)
    \<and> ei_recording (dp_encoders (snd (dropin_drop_compute_pass p s1)) ! e) =
      \<lparr>rec_label = None, rec_commands = [BeginComputePass (dcp_label p) (dcp_commands p)]\<rparr>"
  using assms by (auto simp: dropin_finish_def dropin_drop_compute_pass_def encoder_push_def Let_def)

subsection \<open>Witnesses\<close>

definition demo_layout :: "bind_group_layout wgpu_ref" where
  "demo_layout = Ours \<lparr>hd_cell = 0, hd_id = Id 3\<rparr>"

definition demo_module :: "shader_module wgpu_ref" where
  "demo_module = Ours \<lparr>hd_cell = 1, hd_id = Id 4\<rparr>"

definition demo_wgpu_buffer :: wgpu_buffer where
  "demo_wgpu_buffer = \<lparr>wb_facade = \<lparr>hd_cell = 2, hd_id = Id 5, buf_size = 16\<rparr>, wb_slot = 0\<rparr>"

definition demo_bind_group :: wg_bind_group_descriptor where
  "demo_bind_group = \<lparr>wbg_label = None, wbg_layout = demo_layout,
     wbg_entries = [\<lparr>wbe_binding = 0,
       wbe_resource = WBuffer \<lparr>wbb_buffer = Ours demo_wgpu_buffer, wbb_offset = 0, wbb_size = None\<rparr>\<rparr>]\<rparr>"

definition demo_pipeline_layout :: "nat wg_pipeline_layout_descriptor" where
  "demo_pipeline_layout = \<lparr>wpl_label = None, wpl_bind_group_layouts = [demo_layout], wpl_push_constant_ranges = []\<rparr>"

definition demo_render_pipeline :: "nat wg_render_pipeline_descriptor" where
  "demo_render_pipeline = \<lparr>wrp_label = None, wrp_layout = None,
     wrp_vertex = \<lparr>wvs_module = demo_module, wvs_entry_point = None, wvs_constants = [], wvs_buffers = []\<rparr>,
     wrp_primitive = 0, wrp_depth_stencil = None, wrp_multisample = 0, wrp_fragment = None, wrp_multiview = None\<rparr>"

definition demo_compute_pipeline :: "nat wg_compute_pipeline_descriptor" where
  "demo_compute_pipeline = \<lparr>wcp_label = None, wcp_layout = None, wcp_module = demo_module,
     wcp_entry_point = None, wcp_constants = []\<rparr>"

lemmas demo_translations =
  demo_bind_group_def demo_pipeline_layout_def demo_render_pipeline_def demo_compute_pipeline_def demo_layout_def
  demo_module_def demo_wgpu_buffer_def translate_bind_group_def translate_bind_group_entry_def
  translate_pipeline_layout_def translate_render_pipeline_def translate_compute_pipeline_def
  translate_vertex_state_def map_opt_res_def id_of_defs

theorem translation_is_faithful_witness:
  "(\<exists>d. translate_bind_group demo_bind_group = Inr d
      \<and> set (action_refs (CreateBindGroup (Id 9) d)) \<subseteq> named (bind_group_wgpu_refs demo_bind_group))
   \<and> (\<exists>d. translate_pipeline_layout demo_pipeline_layout = Inr d
      \<and> set (action_refs (CreatePipelineLayout (Id 9) d)) \<subseteq> named (pipeline_layout_wgpu_refs demo_pipeline_layout))
   \<and> (\<exists>d. translate_render_pipeline demo_render_pipeline = Inr d
      \<and> set (action_refs (CreateRenderPipeline (Id 9) d)) \<subseteq> named (render_pipeline_wgpu_refs demo_render_pipeline))
   \<and> (\<exists>d. translate_compute_pipeline demo_compute_pipeline = Inr d
      \<and> set (action_refs (CreateComputePipeline (Id 9) d)) \<subseteq> named (compute_pipeline_wgpu_refs demo_compute_pipeline))"
proof -
  obtain d1 d2 d3 d4 where ok:
    "translate_bind_group demo_bind_group = Inr d1" "translate_pipeline_layout demo_pipeline_layout = Inr d2"
    "translate_render_pipeline demo_render_pipeline = Inr d3" "translate_compute_pipeline demo_compute_pipeline = Inr d4"
    by (simp add: demo_translations)
  then show ?thesis
    using translation_is_faithful [of demo_bind_group demo_pipeline_layout demo_render_pipeline demo_compute_pipeline
        d1 "Id 9" d2 "Id 9" d3 "Id 9" d4 "Id 9"] by simp
qed

text \<open>A client that answers every read with as many zeros, and a program with one device.\<close>

definition demo_link :: "(nat, nat action list) link" where
  "demo_link =
     \<lparr>lk_send = (\<lambda>act log. log @ [act]),
      lk_request = (\<lambda>act log. (case act of
          MapBufferForRead _ _ len \<Rightarrow> Inr (BufferData (replicate (unat len) 0))
        | _ \<Rightarrow> Inr RespOk, log @ [act])),
      lk_recordings = table_bincode [], lk_overflow_checks = True, lk_debug_bytes = (\<lambda>_. [])\<rparr>"

definition demo_backend :: "(nat, nat action list) backend" where
  "demo_backend = \<lparr>bk_link = demo_link, bk_copy_dst = 8, bk_show_error = (\<lambda>_. [])\<rparr>"

definition demo_dropin :: "(nat, nat action list) dropin" where
  "demo_dropin =
     \<lparr>dp_facade = \<lparr>fa_client = [], fa_minters = [new_minter],
        fa_cells = replicate 3 \<lparr>cell_resource = RBuffer (Id 5), cell_count = 1\<rparr>\<rparr>,
      dp_slots = [\<lparr>slot_map = None, slot_poisoned = False\<rparr>],
      dp_tasks = [\<lparr>mt_buffer = wb_facade demo_wgpu_buffer, mt_slot = 0, mt_range = (4, 8)\<rparr>],
      dp_handlers = [None], dp_reports = [], dp_submissions = [1], dp_encoders = []\<rparr>"

theorem staged_writes_are_shipped_witness:
  "\<exists>b s1 s2 s3. dropin_create_buffer demo_backend 0 \<lparr>bd_label = None, bd_size = 8, bd_usage = 32, bd_mapped_at_creation = True\<rparr> demo_dropin = (Ret b, s1)
    \<and> for_each (stage_write b) [((4, 8), [1, 2]), ((5, 6), [3])] s1 = (Ret (), s2)
    \<and> unmap demo_backend b s2 = (Ret (), s3)
    \<and> dp_facade s3 = write_range demo_link (wb_facade b) 0 [0, 0, 0, 0, 1, 3, 0, 0] (dp_facade s1)"
proof -
  let ?d = "\<lparr>bd_label = None, bd_size = 8, bd_usage = 32, bd_mapped_at_creation = True\<rparr>"
  let ?writes = "[((4, 8), [1, 2]), ((5, 6), [3])] :: staged_write list"
  obtain b s1 where b: "dropin_create_buffer demo_backend 0 ?d demo_dropin = (Ret b, s1)"
    using create_mapped_returns [of ?d demo_backend 0 demo_dropin] by auto
  have fits: "\<forall>w \<in> set ?writes. write_fits (bd_size ?d) w"
    by (simp add: write_fits_def)
  have "fold overlay ?writes (replicate (unat (bd_size ?d)) 0) = [0, 0, 0, 0, 1, 3, 0, 0]"
  proof -
    have "unat (bd_size ?d) = 8" by simp
    moreover have "replicate 8 0 = [0, 0, 0, 0, 0, 0, 0, 0 :: byte]" by (simp add: eval_nat_numeral)
    ultimately show ?thesis by (simp add: overlay_def)
  qed
  with staged_writes_are_shipped [OF _ b fits] b show ?thesis
    by (auto simp: demo_backend_def)
qed

theorem mapped_range_is_relative_witness:
  "fst (run_map_task demo_backend 0 demo_dropin) = Ret True
   \<and> fst (get_mapped_range demo_wgpu_buffer (4, 8) (snd (run_map_task demo_backend 0 demo_dropin))) = Panic"
proof -
  let ?r = "(Included 4, Excluded 8) :: bound \<times> bound"
  have rd: "read_range demo_link (wb_facade demo_wgpu_buffer) ?r (dp_facade demo_dropin) = (Ret bs, fa) \<Longrightarrow> length bs = 4"
    "fst (read_range demo_link (wb_facade demo_wgpu_buffer) ?r (dp_facade demo_dropin)) = Ret (replicate 4 0)" for bs fa
    by (auto simp: read_range_def bounds_to_offset_size_def demo_link_def request_on_def andThen_def saturating_sub_u64_def
        demo_dropin_def lift_opt_def)
  obtain s1 where run: "run_map_task demo_backend 0 demo_dropin = (Ret True, s1)"
    using rd(2) by (cases "read_range demo_link (wb_facade demo_wgpu_buffer) ?r (dp_facade demo_dropin)")
      (auto simp: run_map_task_def demo_dropin_def demo_backend_def with_slot_def andThen_def Let_def)
  have task: "0 < length (dp_tasks demo_dropin)"
    "dp_tasks demo_dropin ! 0 = \<lparr>mt_buffer = wb_facade demo_wgpu_buffer, mt_slot = wb_slot demo_wgpu_buffer, mt_range = (4, 8)\<rparr>"
    "wb_slot demo_wgpu_buffer < length (dp_slots demo_dropin)"
    by (simp_all add: demo_dropin_def demo_wgpu_buffer_def)
  have "\<exists>s2. get_mapped_range demo_wgpu_buffer (4, 8) s1 = (Panic, s2) \<and> slot_poisoned (dp_slots s2 ! wb_slot demo_wgpu_buffer)
      \<and> fst (unmap demo_backend demo_wgpu_buffer s2) = Panic"
    by (rule mapped_range_is_relative [OF task(1,2) run task(3)]) (simp_all add: demo_backend_def rd(1))
  with run show ?thesis by auto
qed

end
