(* ===== verification/Dropin_System.thy ===== *)
theory Dropin_System
  imports Dropin Client_Properties
begin

section \<open>Programs over the drop-in\<close>

text \<open>
  A program written against wgpu, running on the drop-in backend: a sequence of calls on one device,
  among which the runtime runs the tasks that \<open>map_async\<close> has spawned. Every call of the drop-in is
  some calls of the facade, \<open>facade_calls\<close>; a program on the drop-in is so a program of the facade, and
  what holds of those (\<open>Composed\<close>) holds of it. What the drop-in adds is who holds a buffer: a pending
  task owns a clone of its buffer's handle, so a buffer that is dropped while it is being mapped lives
  until its bytes are there.

  Recording commands calls nothing on the facade (\<open>Dropin_Properties\<close>) and is left out; a submission
  takes the recordings.
\<close>

subsection \<open>Calls that do not ask the server\<close>

text \<open>Methods with an empty body (\<open>dispatch.rs\<close>): a callback that is passed is dropped without a call.\<close>

definition buffer_destroy :: "wgpu_buffer \<Rightarrow> ('w, 'c, unit) call" where
  "buffer_destroy _ = ret ()"

definition texture_destroy :: "texture \<Rightarrow> ('w, 'c, unit) call" where
  "texture_destroy _ = ret ()"

definition device_destroy :: "('w, 'c, unit) call" where
  "device_destroy = ret ()"

definition set_device_lost_callback :: "nat \<Rightarrow> ('w, 'c, unit) call" where
  "set_device_lost_callback _ = ret ()"

definition push_error_scope :: "('w, 'c, unit) call" where
  "push_error_scope = ret ()"

definition on_submitted_work_done :: "nat \<Rightarrow> ('w, 'c, unit) call" where
  "on_submitted_work_done _ = ret ()"

definition on_uncaptured_error :: "nat \<Rightarrow> nat \<Rightarrow> ('w, 'c, unit) call" where
  "on_uncaptured_error dev handler = install dev handler"

datatype quiet_call =
    DestroyBuffer wgpu_buffer
  | DestroyTexture texture
  | DestroyDevice
  | SetDeviceLostCallback nat
  | PushErrorScope
  | OnSubmittedWorkDone nat
  | OnUncapturedError nat

fun quiet :: "nat \<Rightarrow> quiet_call \<Rightarrow> ('w, 'c, unit) call" where
  "quiet dev (DestroyBuffer b) = buffer_destroy b"
| "quiet dev (DestroyTexture t) = texture_destroy t"
| "quiet dev DestroyDevice = device_destroy"
| "quiet dev (SetDeviceLostCallback f) = set_device_lost_callback f"
| "quiet dev PushErrorScope = push_error_scope"
| "quiet dev (OnSubmittedWorkDone f) = on_submitted_work_done f"
| "quiet dev (OnUncapturedError h) = on_uncaptured_error dev h"

lemma quiet_state: "dp_facade (snd (quiet dev q s)) = dp_facade s" "dp_tasks (snd (quiet dev q s)) = dp_tasks s"
  by (cases q; simp add: buffer_destroy_def texture_destroy_def device_destroy_def set_device_lost_callback_def
      push_error_scope_def on_submitted_work_done_def on_uncaptured_error_def install_def)+

text \<open>Methods that answer the same whatever has happened.\<close>

datatype poll_status = QueueEmpty | WaitSucceeded | Polled

definition dropin_poll :: "('w, 'c, poll_status) call" where
  "dropin_poll = ret QueueEmpty"

definition poll_all_devices :: "('w, 'c, bool) call" where
  "poll_all_devices = ret True"

definition pop_error_scope :: "('w, 'c, wgpu_error option) call" where
  "pop_error_scope = ret None"

definition get_compilation_info :: "('w, 'c, string list) call" where
  "get_compilation_info = ret []"

definition create_staging_buffer :: "u64 \<Rightarrow> ('w, 'c, bytes option) call" where
  "create_staging_buffer _ = ret None"

definition validate_write_buffer :: "u64 \<Rightarrow> u64 \<Rightarrow> ('w, 'c, unit option) call" where
  "validate_write_buffer _ _ = ret (Some ())"

text \<open>Panics: constructing an instance from a descriptor, and anything with a surface.\<close>

definition instance_from_descriptor :: "('w, 'c, unit) call" where
  "instance_from_descriptor = panic"

definition create_surface :: "('w, 'c, unit) call" where
  "create_surface = panic"

text \<open>The adapter's description, for the version of the crate.\<close>

datatype device_type = OtherDevice | IntegratedGpu | DiscreteGpu | VirtualGpu | CpuDevice

datatype wgpu_backend = Noop | Vulkan | Metal | Dx12 | Gl | BrowserWebGpu

record adapter_info =
  ai_name :: string
  ai_vendor :: u32
  ai_device :: u32
  ai_device_type :: device_type
  ai_driver :: string
  ai_driver_info :: string
  ai_backend :: wgpu_backend

definition remote_adapter_info :: "string \<Rightarrow> adapter_info" where
  "remote_adapter_info version =
     \<lparr>ai_name = ''wgpu-remote'', ai_vendor = 0, ai_device = 0, ai_device_type = OtherDevice, ai_driver = ''wgpu-remote'',
      ai_driver_info = version, ai_backend = Noop\<rparr>"

subsection \<open>Calls\<close>

text \<open>
  \<open>DropinFill\<close> is the use of a mapped range: get it, write to it, drop it. \<open>DropinDrop\<close> is the drop of
  the last reference to a wgpu object, which drops the facade's handle in it.
\<close>

datatype 'w dropin_op =
    DropinBuffer buffer_descriptor
  | DropinTexture "'w texture_descriptor"
  | DropinSampler "'w sampler_descriptor"
  | DropinShaderModule "'w wg_shader_module_descriptor"
  | DropinBindGroupLayout "'w bind_group_layout_descriptor"
  | DropinBindGroup wg_bind_group_descriptor
  | DropinPipelineLayout "'w wg_pipeline_layout_descriptor"
  | DropinRenderPipeline "'w wg_render_pipeline_descriptor"
  | DropinComputePipeline "'w wg_compute_pipeline_descriptor"
  | DropinView texture "'w texture_view_descriptor"
  | DropinRenderLayout render_pipeline u32
  | DropinComputeLayout compute_pipeline u32
  | DropinDrop nat
  | DropinWriteBuffer "wgpu_buffer wgpu_ref" u64 bytes
  | DropinWriteTexture "texture wgpu_ref" u32 'w 'w bytes 'w 'w
  | DropinSubmit "'w recording wgpu_ref list"
  | DropinMapAsync wgpu_buffer "u64 \<times> u64"
  | DropinRunTask nat
  | DropinFill wgpu_buffer "u64 \<times> u64" bytes
  | DropinUnmap wgpu_buffer
  | DropinQuiet quiet_call

definition void :: "('s, 'e, 'a) step \<Rightarrow> ('s, 'e, unit) step" where
  "void m = andThen m (\<lambda>_. ret ())"

fun dropin_call :: "('w, 'c) backend \<Rightarrow> nat \<Rightarrow> 'w dropin_op \<Rightarrow> ('w, 'c, unit) call" where
  "dropin_call bk dev (DropinBuffer desc) = void (dropin_create_buffer bk dev desc)"
| "dropin_call bk dev (DropinTexture desc) = void (dropin_create_texture bk dev desc)"
| "dropin_call bk dev (DropinSampler desc) = void (dropin_create_sampler bk dev desc)"
| "dropin_call bk dev (DropinShaderModule desc) = void (dropin_create_shader_module bk dev desc)"
| "dropin_call bk dev (DropinBindGroupLayout desc) = void (dropin_create_bind_group_layout bk dev desc)"
| "dropin_call bk dev (DropinBindGroup desc) = void (dropin_create_bind_group bk dev desc)"
| "dropin_call bk dev (DropinPipelineLayout desc) = void (dropin_create_pipeline_layout bk dev desc)"
| "dropin_call bk dev (DropinRenderPipeline desc) = void (dropin_create_render_pipeline bk dev desc)"
| "dropin_call bk dev (DropinComputePipeline desc) = void (dropin_create_compute_pipeline bk dev desc)"
| "dropin_call bk dev (DropinView tex desc) = void (dropin_create_view bk tex desc)"
| "dropin_call bk dev (DropinRenderLayout p index) = void (dropin_render_bind_group_layout bk p index)"
| "dropin_call bk dev (DropinComputeLayout p index) = void (dropin_compute_bind_group_layout bk p index)"
| "dropin_call bk dev (DropinDrop a) = tell_facade (drop_cell (bk_link bk) a)"
| "dropin_call bk dev (DropinWriteBuffer buf off data) = dropin_write_buffer bk buf off data"
| "dropin_call bk dev (DropinWriteTexture tex mip org aspect data layout extent) =
     dropin_write_texture bk tex mip org aspect data layout extent"
| "dropin_call bk dev (DropinSubmit cbs) = void (dropin_submit bk dev cbs)"
| "dropin_call bk dev (DropinMapAsync b rng) = map_async b rng"
| "dropin_call bk dev (DropinRunTask k) = void (run_map_task bk k)"
| "dropin_call bk dev (DropinFill b sub data) =
     andThen (get_mapped_range b sub) (\<lambda>r. andThen (range_write data r) drop_range)"
| "dropin_call bk dev (DropinUnmap b) = unmap bk b"
| "dropin_call bk dev (DropinQuiet q) = quiet dev q"

text \<open>A panic unwinds the call; the program's other threads go on.\<close>

definition dropin_step :: "('w, 'c) backend \<Rightarrow> nat \<Rightarrow> 'w dropin_op \<Rightarrow> ('w, 'c) dropin \<Rightarrow> ('w, 'c) dropin" where
  "dropin_step bk dev op s = snd (dropin_call bk dev op s)"

definition dropin_run :: "('w, 'c) backend \<Rightarrow> nat \<Rightarrow> 'w dropin_op list \<Rightarrow> ('w, 'c) dropin \<Rightarrow> ('w, 'c) dropin" where
  "dropin_run bk dev = fold (dropin_step bk dev)"

subsection \<open>What the drop-in calls on the facade\<close>

fun facade_calls :: "('w, 'c) backend \<Rightarrow> 'w dropin_op \<Rightarrow> ('w, 'c) dropin \<Rightarrow> 'w facade_op list" where
  "facade_calls bk (DropinBuffer desc) s =
     [OpCreateBuffer (let proto = translate_buffer desc in if bd_mapped_at_creation desc
        then proto\<lparr>bd_usage := or (bd_usage proto) (bk_copy_dst bk), bd_mapped_at_creation := False\<rparr> else proto)]"
| "facade_calls bk (DropinTexture desc) s = [OpCreateTexture (translate_texture desc)]"
| "facade_calls bk (DropinSampler desc) s = [OpCreateSampler (translate_sampler desc)]"
| "facade_calls bk (DropinShaderModule desc) s =
     (case translate_shader_module desc of None \<Rightarrow> [] | Some proto \<Rightarrow> [OpCreateShaderModule proto])"
| "facade_calls bk (DropinBindGroupLayout desc) s = [OpCreateBindGroupLayout (translate_bind_group_layout desc)]"
| "facade_calls bk (DropinBindGroup desc) s =
     (case translate_bind_group desc of Inl _ \<Rightarrow> [] | Inr proto \<Rightarrow> [OpCreateBindGroup proto])"
| "facade_calls bk (DropinPipelineLayout desc) s =
     (case translate_pipeline_layout desc of Inl _ \<Rightarrow> [] | Inr proto \<Rightarrow> [OpCreatePipelineLayout proto])"
| "facade_calls bk (DropinRenderPipeline desc) s =
     (case translate_render_pipeline desc of Inl _ \<Rightarrow> [] | Inr proto \<Rightarrow> [OpCreateRenderPipeline proto])"
| "facade_calls bk (DropinComputePipeline desc) s =
     (case translate_compute_pipeline desc of Inl _ \<Rightarrow> [] | Inr proto \<Rightarrow> [OpCreateComputePipeline proto])"
| "facade_calls bk (DropinView tex desc) s = [OpCreateView tex (translate_texture_view desc)]"
| "facade_calls bk (DropinRenderLayout p index) s = [OpRenderLayout p index]"
| "facade_calls bk (DropinComputeLayout p index) s = [OpComputeLayout p index]"
| "facade_calls bk (DropinDrop a) s = [OpDrop a]"
| "facade_calls bk (DropinWriteBuffer (Ours b) off data) s = [OpWriteBuffer (wb_facade b) off data]"
| "facade_calls bk (DropinWriteTexture (Ours tex) mip org aspect data layout extent) s =
     [OpWriteTexture tex mip org aspect data layout extent]"
| "facade_calls bk (DropinSubmit cbs) s =
     (if Foreign \<in> set cbs then [] else [OpSubmit (map from_recording (List.map_filter as_custom cbs))])"
| "facade_calls bk (DropinMapAsync b rng) s = [OpClone (hd_cell (wb_facade b))]"
| "facade_calls bk (DropinRunTask k) s =
     (let t = dp_tasks s ! k in
      [OpRead (mt_buffer t) (Included (fst (mt_range t)), Excluded (snd (mt_range t))), OpDrop (hd_cell (mt_buffer t))])"
| "facade_calls bk (DropinUnmap b) s =
     (if slot_poisoned (dp_slots s ! wb_slot b) then []
      else case slot_map (dp_slots s ! wb_slot b) of Some (WriteMap data) \<Rightarrow> [OpWriteRange (wb_facade b) 0 data] | _ \<Rightarrow> [])"
| "facade_calls bk _ s = []"

lemma facade_run_simps [simp]:
  "facade_run lk dev [] st = st" "facade_run lk dev (op # ops) st = facade_run lk dev ops (facade_step lk dev op st)"
  by (simp_all add: facade_run_def)

lemma with_slot_facade [simp]:
  "dp_facade (snd (with_slot k body s)) = dp_facade s" "dp_tasks (snd (with_slot k body s)) = dp_tasks s"
  by (auto simp: with_slot_def Let_def split: option.splits)

lemma with_slot_out: "with_slot k body s = (r, s') \<Longrightarrow> dp_facade s' = dp_facade s \<and> dp_tasks s' = dp_tasks s"
  by (metis with_slot_facade snd_conv)

lemma snd_void [simp]: "snd (void m s) = snd (m s)"
  by (simp add: void_def andThen_def split: prod.splits flow.splits)

lemma on_facade_state [simp]:
  "dp_facade (snd (on_facade f s)) = snd (f (dp_facade s))" "dp_tasks (snd (on_facade f s)) = dp_tasks s"
  by (simp_all add: on_facade_def split: prod.splits)

lemma tell_facade_state [simp]:
  "dp_facade (snd (tell_facade f s)) = f (dp_facade s)" "dp_tasks (snd (tell_facade f s)) = dp_tasks s"
  by (simp_all add: tell_facade_def)

text \<open>A sequence of two calls of which one does not touch what is asked for.\<close>

lemma snd_andThen_first:
  assumes "\<And>a s'. f (snd (f' a s')) = f s'"
  shows "f (snd (andThen m f' s)) = f (snd (m s))"
  using assms by (simp add: andThen_def split: prod.splits flow.splits)

lemma new_slot_state [simp]:
  "dp_facade (snd (new_slot m s)) = dp_facade s" "dp_tasks (snd (new_slot m s)) = dp_tasks s"
  by (simp_all add: new_slot_def)

lemma run_map_task_state:
  "dp_facade (snd (run_map_task bk k s)) = facade_run (bk_link bk) dev (facade_calls bk (DropinRunTask k) s) (dp_facade s)"
  "dp_tasks (snd (run_map_task bk k s)) = take k (dp_tasks s) @ drop (Suc k) (dp_tasks s)"
  by (auto simp: run_map_task_def Let_def drop_handle_def andThen_def dest!: with_slot_out split: prod.splits flow.splits)

lemma dropin_create_buffer_state:
  "dp_facade (snd (dropin_create_buffer bk dev desc s)) =
     facade_run (bk_link bk) dev (facade_calls bk (DropinBuffer desc) s) (dp_facade s)"
  "dp_tasks (snd (dropin_create_buffer bk dev desc s)) = dp_tasks s"
  by (simp_all add: dropin_create_buffer_def dropin_new_buffer_def dropin_new_mapped_at_creation_def Let_def
      snd_andThen_first [of dp_facade] snd_andThen_first [of dp_tasks])

lemma dropin_submit_state:
  "dp_facade (snd (dropin_submit bk dev cbs s)) =
     facade_run (bk_link bk) dev (facade_calls bk (DropinSubmit cbs) s) (dp_facade s)"
  "dp_tasks (snd (dropin_submit bk dev cbs s)) = dp_tasks s"
  by (auto simp: dropin_submit_def Let_def andThen_def report_def fetch_add_def split: prod.splits flow.splits option.splits)

lemma map_async_state:
  "dp_facade (snd (map_async b rng s)) = clone_cell (hd_cell (wb_facade b)) (dp_facade s)"
  "dp_tasks (snd (map_async b rng s)) = dp_tasks s @ [\<lparr>mt_buffer = wb_facade b, mt_slot = wb_slot b, mt_range = rng\<rparr>]"
  by (simp_all add: map_async_def andThen_def on_facade_def clone_handle_def)

lemma range_written:
  "dp_facade (snd (andThen (range_write data r) drop_range s)) = dp_facade s \<and>
   dp_tasks (snd (andThen (range_write data r) drop_range s)) = dp_tasks s"
  by (cases r) (simp_all add: andThen_def)

lemma fill_state:
  "dp_facade (snd (andThen (get_mapped_range b sub) (\<lambda>r. andThen (range_write data r) drop_range) s)) = dp_facade s"
  "dp_tasks (snd (andThen (get_mapped_range b sub) (\<lambda>r. andThen (range_write data r) drop_range) s)) = dp_tasks s"
proof -
  note first = snd_andThen_first [of dp_facade, OF conjunct1 [OF range_written]] snd_andThen_first [of dp_tasks, OF conjunct2 [OF range_written]]
  show "dp_facade (snd (andThen (get_mapped_range b sub) (\<lambda>r. andThen (range_write data r) drop_range) s)) = dp_facade s"
    by (subst first) (simp add: get_mapped_range_def)
  show "dp_tasks (snd (andThen (get_mapped_range b sub) (\<lambda>r. andThen (range_write data r) drop_range) s)) = dp_tasks s"
    by (subst first) (simp add: get_mapped_range_def)
qed

lemma unmap_state:
  "dp_facade (snd (unmap bk b s)) = facade_run (bk_link bk) dev (facade_calls bk (DropinUnmap b) s) (dp_facade s)"
  "dp_tasks (snd (unmap bk b s)) = dp_tasks s"
  by (simp_all add: unmap_def with_slot_def andThen_def Let_def split: option.splits map_state.splits)

lemma translated_state:
  "dp_facade (snd (andThen (or_panic r) (\<lambda>proto. on_facade (f proto)) s)) =
     (case r of Inl _ \<Rightarrow> dp_facade s | Inr proto \<Rightarrow> snd (f proto (dp_facade s)))"
  "dp_tasks (snd (andThen (or_panic r) (\<lambda>proto. on_facade (f proto)) s)) = dp_tasks s"
  "dp_facade (snd (andThen (lift_opt m) (\<lambda>proto. on_facade (g proto)) s)) =
     (case m of None \<Rightarrow> dp_facade s | Some proto \<Rightarrow> snd (g proto (dp_facade s)))"
  "dp_tasks (snd (andThen (lift_opt m) (\<lambda>proto. on_facade (g proto)) s)) = dp_tasks s"
  by (cases r; cases m; simp add: or_panic_def andThen_def)+

lemmas dropin_call_state =
  run_map_task_state dropin_create_buffer_state dropin_submit_state map_async_state fill_state unmap_state translated_state

text \<open>Every call of the drop-in is its calls of the facade.\<close>

lemma dropin_facade:
  "dp_facade (dropin_step bk dev op s) = facade_run (bk_link bk) dev (facade_calls bk op s) (dp_facade s)"
proof (cases op)
  case (DropinWriteBuffer r off data)
  then show ?thesis
    by (cases r) (simp_all add: dropin_step_def dropin_write_buffer_def expect_ours_def andThen_def)
next
  case (DropinWriteTexture r mip org aspect data layout extent)
  then show ?thesis
    by (cases r) (simp_all add: dropin_step_def dropin_write_texture_def expect_ours_def andThen_def)
qed (simp_all add: dropin_step_def dropin_call_state quiet_state dropin_create_texture_def dropin_create_sampler_def
    dropin_create_shader_module_def dropin_create_bind_group_layout_def dropin_create_bind_group_def
    dropin_create_pipeline_layout_def dropin_create_render_pipeline_def dropin_create_compute_pipeline_def
    dropin_create_view_def dropin_render_bind_group_layout_def dropin_compute_bind_group_layout_def
    del: facade_calls.simps(1,16,18,19) split: option.split sum.split)

lemma dropin_tasks:
  "dp_tasks (dropin_step bk dev op s) =
     (case op of
        DropinMapAsync b rng \<Rightarrow> dp_tasks s @ [\<lparr>mt_buffer = wb_facade b, mt_slot = wb_slot b, mt_range = rng\<rparr>]
      | DropinRunTask k \<Rightarrow> take k (dp_tasks s) @ drop (Suc k) (dp_tasks s)
      | _ \<Rightarrow> dp_tasks s)"
proof (cases op)
  case (DropinWriteBuffer r off data)
  then show ?thesis
    by (cases r) (simp_all add: dropin_step_def dropin_write_buffer_def expect_ours_def andThen_def)
next
  case (DropinWriteTexture r mip org aspect data layout extent)
  then show ?thesis
    by (cases r) (simp_all add: dropin_step_def dropin_write_texture_def expect_ours_def andThen_def)
qed (simp_all add: dropin_step_def dropin_call_state quiet_state dropin_create_texture_def dropin_create_sampler_def
    dropin_create_shader_module_def dropin_create_bind_group_layout_def dropin_create_bind_group_def
    dropin_create_pipeline_layout_def dropin_create_render_pipeline_def dropin_create_compute_pipeline_def
    dropin_create_view_def dropin_render_bind_group_layout_def dropin_compute_bind_group_layout_def)

subsection \<open>Who holds a buffer\<close>

text \<open>
  The pending tasks that own a clone of a handle, and whether the program itself still holds one: it
  owns what is counted beyond them.
\<close>

definition tasks_on :: "nat \<Rightarrow> map_task list \<Rightarrow> nat" where
  "tasks_on a ts = length (filter (\<lambda>t. hd_cell (mt_buffer t) = a) ts)"

definition program_owns :: "nat \<Rightarrow> ('w, 'c) dropin \<Rightarrow> bool" where
  "program_owns a s \<longleftrightarrow> a < length (fa_cells (dp_facade s)) \<and> tasks_on a (dp_tasks s) < cell_count (fa_cells (dp_facade s) ! a)"

definition names_cell :: "buffer \<Rightarrow> 'c facade \<Rightarrow> bool" where
  "names_cell b fa \<longleftrightarrow> hd_cell b < length (fa_cells fa) \<and> cell_resource (fa_cells fa ! hd_cell b) = RBuffer (hd_id b)"

definition tasks_held :: "('w, 'c) dropin \<Rightarrow> bool" where
  "tasks_held s \<longleftrightarrow> (\<forall>t \<in> set (dp_tasks s). names_cell (mt_buffer t) (dp_facade s))
     \<and> (\<forall>a < length (fa_cells (dp_facade s)). tasks_on a (dp_tasks s) \<le> cell_count (fa_cells (dp_facade s) ! a))"

text \<open>
  What a program may call: it drops and maps what it owns, and otherwise names resources with live
  handles only, in what its call translates to. When tasks run is not its choice.
\<close>

fun dropin_allowed :: "('w, 'c) backend \<Rightarrow> nat \<Rightarrow> 'w dropin_op \<Rightarrow> ('w, 'c) dropin \<Rightarrow> bool" where
  "dropin_allowed bk dev (DropinDrop a) s \<longleftrightarrow> program_owns a s"
| "dropin_allowed bk dev (DropinMapAsync b rng) s \<longleftrightarrow>
     program_owns (hd_cell (wb_facade b)) s \<and> names_cell (wb_facade b) (dp_facade s)"
| "dropin_allowed bk dev (DropinRunTask k) s \<longleftrightarrow> k < length (dp_tasks s)"
| "dropin_allowed bk dev op s \<longleftrightarrow> list_all (\<lambda>call. op_allowed call dev (dp_facade s)) (facade_calls bk op s)"

abbreviation all_dropin_allowed :: "('w, 'c) backend \<Rightarrow> nat \<Rightarrow> 'w dropin_op list \<Rightarrow> ('w, 'c) dropin \<Rightarrow> bool" where
  "all_dropin_allowed bk dev \<equiv> all_along (dropin_allowed bk dev) (dropin_step bk dev)"

lemma tasks_on_simps [simp]:
  "tasks_on a [] = 0" "tasks_on a (t # ts) = (if hd_cell (mt_buffer t) = a then Suc (tasks_on a ts) else tasks_on a ts)"
  "tasks_on a (ts @ ts') = tasks_on a ts + tasks_on a ts'"
  by (simp_all add: tasks_on_def)

lemma tasks_on_removed:
  assumes "k < length ts"
  shows "tasks_on a ts = tasks_on a (take k ts @ drop (Suc k) ts) + (if hd_cell (mt_buffer (ts ! k)) = a then 1 else 0)"
  by (subst id_take_nth_drop [OF assms]) (simp add: tasks_on_def)

lemma tasks_on_none: "\<forall>t \<in> set ts. hd_cell (mt_buffer t) \<noteq> a \<Longrightarrow> tasks_on a ts = 0"
  by (simp add: tasks_on_def filter_empty_conv)

lemma tasks_on_pos: "k < length ts \<Longrightarrow> 0 < tasks_on (hd_cell (mt_buffer (ts ! k))) ts"
  by (simp add: tasks_on_def filter_empty_conv) (metis nth_mem)

subsection \<open>What a call of the facade does to the cells\<close>

lemma read_range_cells:
  "fa_cells (snd (read_range lk b rng st)) = fa_cells st" "fa_minters (snd (read_range lk b rng st)) = fa_minters st"
proof -
  have request: "fa_cells (snd (request_on lk act st)) = fa_cells st \<and> fa_minters (snd (request_on lk act st)) = fa_minters st" for act
    by (simp add: request_on_def split: prod.split sum.split)
  show "fa_cells (snd (read_range lk b rng st)) = fa_cells st" "fa_minters (snd (read_range lk b rng st)) = fa_minters st"
    by (cases rule: read_range_cases [of lk b rng st]; simp add: request)+
qed

lemma facade_step_minters: "op_kind op = None \<Longrightarrow> fa_minters (facade_step lk dev op st) = fa_minters st"
  by (cases op) (auto simp: read_range_cells clone_cell_def drop_cell_def Let_def spawn_destroy_def send_on_def
      queue_write_buffer_def write_range_def queue_write_texture_def queue_submit_def split: sum.splits)

lemma facade_step_cells:
  assumes "\<And>a. op \<noteq> OpClone a" and "\<And>a. op \<noteq> OpDrop a"
  shows "\<exists>new. fa_cells (facade_step lk dev op st) = fa_cells st @ new"
proof (cases "op_kind op")
  case (Some k)
  obtain n m where "mint_kind k (fa_minters st ! op_minter op dev) = (numbered k n, m)"
    using mint_kind_numbered by blast
  from facade_step_create [OF Some this, of lk] show ?thesis by (simp add: new_cell_sets(1) send_on_def)
next
  case None
  then show ?thesis
    using assms by (cases op) (auto simp: read_range_cells send_on_def queue_write_buffer_def write_range_def
        queue_write_texture_def queue_submit_def split: sum.splits)
qed

subsection \<open>The invariant\<close>

definition dropin_ok :: "nat \<Rightarrow> nat \<Rightarrow> ('w, ('w, 'h, 'g) wire) dropin \<Rightarrow> bool" where
  "dropin_ok dev n s \<longleftrightarrow> in_step dev (dp_facade s) \<and> minted dev (dp_facade s) \<le> n \<and> tasks_held s"

lemma recounted:
  assumes "fa_cells fa' = (fa_cells fa)[a := (fa_cells fa ! a)\<lparr>cell_count := n\<rparr>]"
  shows "names_cell b fa' = names_cell b fa"
    "i < length (fa_cells fa) \<Longrightarrow> cell_count (fa_cells fa' ! i) = (if i = a then n else cell_count (fa_cells fa ! i))"
  using assms by (cases "a < length (fa_cells fa)"; auto simp: names_cell_def nth_list_update)+

lemma drop_cell_cells:
  "fa_cells (drop_cell lk a st) = (fa_cells st)[a := (fa_cells st ! a)\<lparr>cell_count := cell_count (fa_cells st ! a) - 1\<rparr>]"
  "fa_minters (drop_cell lk a st) = fa_minters st"
  by (simp_all add: drop_cell_def Let_def spawn_destroy_def send_on_def)

lemma tasks_held_recounted:
  assumes "tasks_held s" and "fa_cells (dp_facade s') =
      (fa_cells (dp_facade s))[a := (fa_cells (dp_facade s) ! a)\<lparr>cell_count := n\<rparr>]"
    and "\<And>t. t \<in> set (dp_tasks s') \<Longrightarrow> names_cell (mt_buffer t) (dp_facade s)"
    and "\<And>i. i \<noteq> a \<Longrightarrow> tasks_on i (dp_tasks s') \<le> tasks_on i (dp_tasks s)" and "tasks_on a (dp_tasks s') \<le> n"
  shows "tasks_held s'"
proof -
  have "tasks_on i (dp_tasks s') \<le> cell_count (fa_cells (dp_facade s') ! i)" if "i < length (fa_cells (dp_facade s))" for i
    using recounted(2) [OF assms(2) that] assms(1,5) le_trans [OF assms(4) [of i]] that by (auto simp: tasks_held_def)
  then show ?thesis
    using assms(2,3) recounted(1) [OF assms(2)] by (simp add: tasks_held_def)
qed

lemma tasks_held_extended:
  assumes "tasks_held s" and "fa_cells (dp_facade s') = fa_cells (dp_facade s) @ new" and "dp_tasks s' = dp_tasks s"
  shows "tasks_held s'"
proof -
  have "tasks_on i (dp_tasks s) = 0" if "\<not> i < length (fa_cells (dp_facade s))" for i
    using assms(1) that by (intro tasks_on_none) (auto simp: tasks_held_def names_cell_def)
  then show ?thesis
    using assms by (auto simp: tasks_held_def names_cell_def nth_append)
qed

lemma single_facade_call:
  assumes "\<nexists>a b rng k. op = DropinDrop a \<or> op = DropinMapAsync b rng \<or> op = DropinRunTask k"
  shows "facade_calls bk op s = [] \<or>
    (\<exists>call. facade_calls bk op s = [call] \<and> (\<forall>a. call \<noteq> OpClone a) \<and> (\<forall>a. call \<noteq> OpDrop a))"
proof (cases op)
  case (DropinWriteBuffer r off data)
  then show ?thesis by (cases r) simp_all
next
  case (DropinWriteTexture r mip org aspect data layout extent)
  then show ?thesis by (cases r) simp_all
qed (use assms in \<open>simp_all split: option.split sum.split map_state.split\<close>)

lemma dropin_step_ok:
  assumes "dropin_ok dev n s" and "benign srv" and "bk_link bk = served net srv oc dbg" and "dropin_allowed bk dev op s"
    and "n < id_capacity"
  shows "dropin_ok dev (Suc n) (dropin_step bk dev op s)"
proof -
  let ?lk = "served net srv oc dbg" and ?fa = "dp_facade s" and ?s' = "dropin_step bk dev op s"
  have ok: "in_step dev ?fa" "minted dev ?fa \<le> n" "tasks_held s" using assms(1) by (simp_all add: dropin_ok_def)
  have fa': "dp_facade ?s' = facade_run ?lk dev (facade_calls bk op s) ?fa" by (simp add: dropin_facade assms(3))
  show ?thesis
  proof (cases "\<exists>a b rng k. op = DropinDrop a \<or> op = DropinMapAsync b rng \<or> op = DropinRunTask k")
    case False
    then have tasks: "dp_tasks ?s' = dp_tasks s" by (simp add: dropin_tasks split: dropin_op.split)
    have allowed: "list_all (\<lambda>call. op_allowed call dev ?fa) (facade_calls bk op s)"
      using assms(4) False by (cases op) simp_all
    from single_facade_call [OF False, of bk s] consider "facade_calls bk op s = []"
      | call where "facade_calls bk op s = [call]" "\<forall>a. call \<noteq> OpClone a" "\<forall>a. call \<noteq> OpDrop a" by blast
    then show ?thesis
    proof cases
      case 1
      then show ?thesis
        using ok fa' tasks tasks_held_extended [of s ?s' "[]"] by (simp add: dropin_ok_def)
    next
      case (2 call)
      then obtain new where "fa_cells (facade_step ?lk dev call ?fa) = fa_cells ?fa @ new"
        using facade_step_cells by metis
      then show ?thesis
        using 2(1) allowed ok fa' tasks in_step_step [OF ok(1) assms(2), of call net oc dbg]
          minted_step [OF ok(1) assms(2), of call net oc dbg] assms(5) tasks_held_extended [of s ?s' new]
        by (simp add: dropin_ok_def)
    qed
  next
    case True
    then consider a where "op = DropinDrop a" | b rng where "op = DropinMapAsync b rng" | k where "op = DropinRunTask k"
      by blast
    then show ?thesis
    proof cases
      case (1 a)
      have own: "a < length (fa_cells ?fa)" "tasks_on a (dp_tasks s) < cell_count (fa_cells ?fa ! a)"
        using assms(4) by (simp_all add: 1 program_owns_def)
      have facade': "dp_facade ?s' = drop_cell ?lk a ?fa" and tasks': "dp_tasks ?s' = dp_tasks s"
        using fa' by (simp_all add: 1 dropin_tasks)
      have "tasks_held ?s'"
        by (rule tasks_held_recounted [OF ok(3), of ?s' a "cell_count (fa_cells ?fa ! a) - 1"])
          (use ok(3) own in \<open>simp_all add: facade' tasks' drop_cell_cells tasks_held_def\<close>)
      then show ?thesis
        using in_step_drop [OF ok(1) assms(2) own(1)] own(2) ok(2)
        by (simp add: dropin_ok_def facade' minted_def drop_cell_cells)
    next
      case (2 b rng)
      let ?a = "hd_cell (wb_facade b)"
      have own: "?a < length (fa_cells ?fa)" "tasks_on ?a (dp_tasks s) < cell_count (fa_cells ?fa ! ?a)"
        "names_cell (wb_facade b) ?fa"
        using assms(4) by (simp_all add: 2 program_owns_def)
      have facade': "dp_facade ?s' = clone_cell ?a ?fa"
        and tasks': "dp_tasks ?s' = dp_tasks s @ [\<lparr>mt_buffer = wb_facade b, mt_slot = wb_slot b, mt_range = rng\<rparr>]"
        using fa' by (simp_all add: 2 dropin_tasks)
      have "tasks_held ?s'"
        by (rule tasks_held_recounted [OF ok(3), of ?s' ?a "cell_count (fa_cells ?fa ! ?a) + 1"])
          (use ok(3) own in \<open>auto simp: facade' tasks' clone_cell_def tasks_held_def\<close>)
      then show ?thesis
        using in_step_clone [OF ok(1) own(1)] own(2) ok(2)
        by (simp add: dropin_ok_def facade' minted_def clone_cell_def)
    next
      case (3 k)
      let ?t = "dp_tasks s ! k" and ?rest = "take k (dp_tasks s) @ drop (Suc k) (dp_tasks s)"
      let ?a = "hd_cell (mt_buffer ?t)" and ?b = "mt_buffer ?t"
      let ?rng = "(Included (fst (mt_range ?t)), Excluded (snd (mt_range ?t)))"
      have k: "k < length (dp_tasks s)" using assms(4) by (simp add: 3)
      then have named: "names_cell ?b ?fa" using ok(3) by (simp add: tasks_held_def)
      then have a: "?a < length (fa_cells ?fa)" "cell_resource (fa_cells ?fa ! ?a) = RBuffer (hd_id ?b)"
        by (simp_all add: names_cell_def)
      have count: "0 < cell_count (fa_cells ?fa ! ?a)"
        using tasks_on_pos [OF k] ok(3) a(1) by (fastforce simp: tasks_held_def)
      then have "RBuffer (hd_id ?b) \<in> live ?fa" using a by (auto simp: live_nth)
      then have read: "in_step dev (snd (read_range ?lk ?b ?rng ?fa))"
        using in_step_step [OF ok(1) assms(2), of "OpRead ?b ?rng" net oc dbg] ok(2) assms(5) by (simp add: op_allowed_def)
      have cells': "fa_cells (dp_facade ?s') = (fa_cells ?fa)[?a := (fa_cells ?fa ! ?a)\<lparr>cell_count := cell_count (fa_cells ?fa ! ?a) - 1\<rparr>]"
        and facade': "dp_facade ?s' = drop_cell ?lk ?a (snd (read_range ?lk ?b ?rng ?fa))"
        using fa' by (simp_all add: 3 Let_def drop_cell_cells read_range_cells)
      have tasks': "dp_tasks ?s' = ?rest" by (simp add: 3 dropin_tasks)
      have "tasks_held ?s'"
      proof (rule tasks_held_recounted [OF ok(3) cells'])
        show "names_cell (mt_buffer t) ?fa" if "t \<in> set (dp_tasks ?s')" for t
          using that ok(3) by (auto simp: tasks' tasks_held_def dest: in_set_takeD in_set_dropD)
        show "tasks_on i (dp_tasks ?s') \<le> tasks_on i (dp_tasks s)" for i
          using tasks_on_removed [OF k, of i] by (simp add: tasks')
        have "tasks_on ?a (dp_tasks s) \<le> cell_count (fa_cells ?fa ! ?a)" using ok(3) a(1) by (simp add: tasks_held_def)
        then show "tasks_on ?a (dp_tasks ?s') \<le> cell_count (fa_cells ?fa ! ?a) - 1"
          using tasks_on_removed [OF k, of ?a] by (simp add: tasks')
      qed
      then show ?thesis
        using in_step_drop [OF read assms(2), of ?a net oc dbg] a(1) count ok(2)
        by (simp add: dropin_ok_def facade' minted_def drop_cell_cells read_range_cells)
    qed
  qed
qed

interpretation dropin_program: budgeted
  "\<lambda>n s. benign srv \<and> bk_link bk = served net srv oc dbg \<and> dropin_ok dev n s" "dropin_allowed bk dev" "dropin_step bk dev" id_capacity
  for net srv oc dbg bk dev
  by unfold_locales (auto intro: dropin_step_ok)

subsection \<open>Programs get no errors\<close>

lemma dropin_run_facade:
  "\<exists>calls. dp_facade (dropin_run bk dev ops s) = facade_run (bk_link bk) dev calls (dp_facade s)"
proof (induction ops arbitrary: s)
  case (Cons op ops)
  then obtain calls where "dp_facade (dropin_run bk dev ops (dropin_step bk dev op s))
      = facade_run (bk_link bk) dev calls (dp_facade (dropin_step bk dev op s))" by blast
  then have "dp_facade (dropin_run bk dev (op # ops) s) = facade_run (bk_link bk) dev (facade_calls bk op s @ calls) (dp_facade s)"
    by (simp add: dropin_run_def dropin_facade facade_run_def)
  then show ?case by blast
next
  case Nil
  show ?case by (intro exI [of _ "[]"]) (simp add: dropin_run_def)
qed

definition new_dropin :: "'c facade \<Rightarrow> ('w, 'c) dropin" where
  "new_dropin fa =
     \<lparr>dp_facade = fa, dp_slots = [], dp_tasks = [], dp_handlers = [], dp_reports = [], dp_submissions = [], dp_encoders = []\<rparr>"

text \<open>A program that gets its adapter and its device.\<close>

definition gets_device :: "('w, 'c) backend \<Rightarrow> ('w, 'c) dropin \<Rightarrow> nat \<Rightarrow> ('w, 'c) dropin \<Rightarrow> bool" where
  "gets_device bk s dev s' \<longleftrightarrow>
     (\<exists>s1. dropin_request_adapter bk s = (Ret True, s1) \<and> dropin_request_device bk s1 = (Ret dev, s'))"

lemma gets_device_connects:
  assumes "gets_device bk (new_dropin fa) dev s"
  shows "connect_device (bk_link bk) fa = (Ret dev, dp_facade s)" "dp_tasks s = []"
proof -
  obtain s1 where s1: "dropin_request_adapter bk (new_dropin fa) = (Ret True, s1)" "dropin_request_device bk s1 = (Ret dev, s)"
    using assms by (auto simp: gets_device_def)
  obtain r1 fa1 where a: "request_adapter (bk_link bk) fa = (r1, fa1)" by (rule prod.exhaust)
  have adapter: "r1 = Ret ()" "s1 = new_dropin fa1"
    using s1(1) by (auto simp: dropin_request_adapter_def new_dropin_def a split: flow.splits)
  obtain r2 fa2 where d: "request_device (bk_link bk) fa1 = (r2, fa2)" by (rule prod.exhaust)
  have device: "r2 = Ret dev" "dp_facade s = fa2" "dp_tasks s = []"
    using s1(2) by (auto simp: adapter(2) dropin_request_device_def new_dropin_def d split: flow.splits)
  then show "connect_device (bk_link bk) fa = (Ret dev, dp_facade s)" "dp_tasks s = []"
    by (simp_all add: connect_device_def andThen_def a adapter(1) d)
qed

text \<open>C9: programs on the drop-in are programs of the facade, and get no errors. Over fewer than \<open>2\<^sup>6\<^sup>4\<close>
  calls, interleaved in any way with the tasks of \<open>map_async\<close>, when a program drops and maps only what it
  owns and its other calls name, once translated, only resources with live handles, no answer of the
  server is an error, whether the calls return or panic, up to the first create that is lost: whose frame
  does not encode, or which is made when the stream has ended, by a readback too large for a frame, say,
  or a fault of the transport. When no create was lost, whatever else was, every resource with a live
  handle is known to the server, and so is the buffer of every task that has not run yet, also when the
  program has dropped it since.\<close>

theorem dropin_programs_get_no_errors:
  assumes "benign srv" and "bk_link bk = served net srv oc dbg" and "gets_device bk (new_dropin (fresh_client g)) dev s0"
    and "all_dropin_allowed bk dev ops s0" and "length ops < 2 ^ 64" and "s = dropin_run bk dev ops s0"
  shows "(\<exists>calls. dp_facade s = facade_run (served net srv oc dbg) dev calls (dp_facade s0))
    \<and> no_error (undisturbed (wi_log (fa_client (dp_facade s))))
    \<and> (intact (wi_log (fa_client (dp_facade s))) \<longrightarrow>
        live (dp_facade s) \<subseteq> known (wi_engine (fa_client (dp_facade s)))
        \<and> (\<forall>t \<in> set (dp_tasks s). RBuffer (hd_id (mt_buffer t)) \<in> known (wi_engine (fa_client (dp_facade s)))))"
proof -
  note start = gets_device_connects [OF assms(3), unfolded assms(2)]
  note st0 = connected [OF start(1)] connected_state [OF start(1)]
  have "dropin_ok 0 0 s0" using st0 start(2) by (simp add: dropin_ok_def tasks_held_def)
  with dropin_program.run_keeps_ok [OF _ assms(4), where srv = srv and net = net and oc = oc and dbg = dbg and n = 0] assms st0(1) have ok: "dropin_ok 0 (length ops) s"
    by (simp add: id_capacity_def dropin_run_def)
  have "RBuffer (hd_id (mt_buffer t)) \<in> live (dp_facade s)" if t: "t \<in> set (dp_tasks s)" for t
  proof -
    obtain k where k: "k < length (dp_tasks s)" "t = dp_tasks s ! k" using t by (auto simp: in_set_conv_nth)
    have "names_cell (mt_buffer t) (dp_facade s)" using ok t by (simp add: dropin_ok_def tasks_held_def)
    moreover have "tasks_on (hd_cell (mt_buffer t)) (dp_tasks s) \<le> cell_count (fa_cells (dp_facade s) ! hd_cell (mt_buffer t))"
      using ok calculation by (simp add: dropin_ok_def tasks_held_def names_cell_def)
    ultimately show ?thesis using tasks_on_pos [OF k(1)] k(2) by (auto simp: live_nth names_cell_def)
  qed
  moreover have "\<exists>calls. dp_facade s = facade_run (served net srv oc dbg) dev calls (dp_facade s0)"
    using dropin_run_facade [of bk dev ops s0] by (simp add: assms(2,6))
  ultimately show ?thesis using ok by (auto simp: dropin_ok_def in_step_def)
qed

text \<open>A buffer that is dropped while it is being mapped.\<close>

definition demo_backend :: "(nat, (nat, nat, nat) wire) backend" where
  "demo_backend = \<lparr>bk_link = served demo_net demo_service False demo_debug, bk_copy_dst = 8, bk_show_error = (\<lambda>_. [])\<rparr>"

definition demo_dropin :: "(nat, (nat, nat, nat) wire) dropin" where
  "demo_dropin = (new_dropin (demo_start 0))\<lparr>dp_handlers := [None], dp_submissions := [1]\<rparr>"

lemma demo_gets_device: "gets_device demo_backend (new_dropin (fresh_client 0)) 0 demo_dropin"
proof -
  obtain r fa where a: "request_adapter (bk_link demo_backend) (fresh_client 0) = (r, fa)" by (rule prod.exhaust)
  have "connect_device (bk_link demo_backend) (fresh_client 0) = (Ret 0, demo_start 0)"
    by (simp add: demo_backend_def demo_connected)
  then have "r = Ret ()" "request_device (bk_link demo_backend) fa = (Ret 0, demo_start 0)"
    by (auto simp: connect_device_def andThen_def a split: flow.splits)
  then show ?thesis
    using a by (simp add: gets_device_def dropin_request_adapter_def dropin_request_device_def new_dropin_def demo_dropin_def)
qed

theorem dropin_programs_get_no_errors_witness:
  "no_error (wi_log (fa_client (dp_facade (dropin_run demo_backend 0
      [DropinBuffer demo_buffer, DropinMapAsync \<lparr>wb_facade = \<lparr>hd_cell = 0, hd_id = Id 1, buf_size = 4\<rparr>, wb_slot = 0\<rparr> (0, 4),
       DropinDrop 0, DropinRunTask 0] demo_dropin))))"
proof -
  let ?ops = "[DropinBuffer demo_buffer, DropinMapAsync \<lparr>wb_facade = \<lparr>hd_cell = 0, hd_id = Id 1, buf_size = 4\<rparr>, wb_slot = 0\<rparr> (0, 4),
       DropinDrop 0, DropinRunTask 0] :: nat dropin_op list"
  let ?s = "dropin_run demo_backend 0 ?ops demo_dropin"
  have lk: "bk_link demo_backend = served demo_net demo_service False demo_debug" by (simp add: demo_backend_def)
  have "all_dropin_allowed demo_backend 0 ?ops demo_dropin"
    by (simp add: demo_backend_def demo_dropin_def new_dropin_def dropin_facade dropin_tasks op_allowed_def program_owns_def
        names_cell_def Let_def facade_eval clone_cell_def drop_cell_cells new_minter_def)
  note ends = dropin_programs_get_no_errors [OF demo_benign lk demo_gets_device this _ refl]
  then obtain calls where "dp_facade ?s = facade_run (served demo_net demo_service False demo_debug) 0 calls (demo_start 0)"
    by (auto simp: demo_dropin_def new_dropin_def)
  then have "all_answered (wi_log (fa_client (dp_facade ?s)))" by (simp add: demo_answered [OF demo_benign])
  from all_answered_intact [OF this] ends show ?thesis by simp
qed

end
