(* ===== verification/Arguments.thy ===== *)
theory Arguments
  imports Prelude "HOL-Library.Multiset"
begin

section \<open>Command lines of the binaries\<close>

text \<open>
  \<open>parse_args\<close> of \<open>bin/wgpu-remote-cli.rs\<close> and of \<open>bin/wgpu-remote-server.rs\<close>: a loop over the arguments
  that sets the variables of the options, then the command. A path is its string. \<open>u32::from_str\<close> is
  written out; \<open>SocketAddr::from_str\<close> is a parameter, with the type of addresses. The loop returns,
  refuses with a message, or prints the usage and exits (\<open>--help\<close>).

  The contract: options may come in any order, and the command they describe is the one parsed.
\<close>

datatype 'a parsed = Parsed 'a | Refused string | UsageShown

subsection \<open>Numbers\<close>

definition digit_of :: "char \<Rightarrow> nat option" where
  "digit_of c = (let n = of_char c in if 48 \<le> n \<and> n \<le> 57 then Some (n - 48) else None)"

fun parse_digits :: "nat \<Rightarrow> string \<Rightarrow> string + u32" where
  "parse_digits acc [] = Inr (of_nat acc)"
| "parse_digits acc (c # cs) =
     (case digit_of c of
        None \<Rightarrow> Inl ''invalid digit found in string''
      | Some d \<Rightarrow>
          if acc * 10 + d < 2 ^ 32 then parse_digits (acc * 10 + d) cs
          else Inl ''number too large to fit in target type'')"

definition parse_u32 :: "string \<Rightarrow> string + u32" where
  "parse_u32 s =
     (case s of
        [] \<Rightarrow> Inl ''cannot parse integer from empty string''
      | c # cs \<Rightarrow>
          if c = CHR ''+'' \<and> cs \<noteq> [] then parse_digits 0 cs else parse_digits 0 s)"

lemma digit_of_digit_char [simp]: "d < 10 \<Longrightarrow> digit_of (digit_char d) = Some d"
  by (simp add: digit_of_def digit_char_def Let_def)

lemma parse_show_digits: "n < 2 ^ 32 \<Longrightarrow> parse_digits 0 (show_nat n @ rest) = parse_digits n rest"
proof (induction n arbitrary: rest rule: show_nat.induct)
  case (1 n)
  show ?case
  proof (cases "n < 10")
    case True
    with 1(2) show ?thesis by (subst show_nat.simps) simp
  next
    case False
    then have "show_nat n @ rest = show_nat (n div 10) @ (digit_char (n mod 10) # rest)"
      by (subst show_nat.simps) simp
    moreover have "n div 10 < 2 ^ 32" using 1(2) by linarith
    ultimately show ?thesis using 1(1) [OF False, of "digit_char (n mod 10) # rest"] 1(2) by simp
  qed
qed

lemma show_nat_digits: "\<exists>d cs. show_nat n = digit_char d # cs \<and> d < 10"
proof (induction n rule: show_nat.induct)
  case (1 n)
  then show ?case by (cases "n < 10") (subst show_nat.simps; auto)+
qed

lemma parse_show_u32 [simp]: "parse_u32 (show_u32 w) = Inr w"
proof -
  obtain d cs where s: "show_u32 w = digit_char d # cs" and "d < 10"
    using show_nat_digits by blast
  then have "digit_char d \<noteq> CHR ''+''"
    using digit_of_digit_char [of d] by (auto simp: digit_of_def)
  moreover have "unat w < 2 ^ 32" using unsigned_less [of w] by simp
  then have "parse_digits 0 (show_u32 w) = Inr w"
    using parse_show_digits [of "unat w" "[]"] by simp
  ultimately show ?thesis using s by (simp add: parse_u32_def)
qed

subsection \<open>The client's options\<close>

record 'addr cli_flags =
  fl_sub :: "string option"
  fl_server :: 'addr
  fl_ca_cert :: string
  fl_server_name :: string
  fl_iroh :: bool
  fl_endpoint_id :: "string option"
  fl_count :: u32
  fl_width :: u32
  fl_height :: u32
  fl_tile :: u32
  fl_output :: string

record 'addr quic_opts =
  qo_server :: 'addr
  qo_ca_cert :: string
  qo_server_name :: string

record iroh_opts =
  io_endpoint_id :: string

datatype 'addr transport_opts = QuicTransport "'addr quic_opts" | IrohTransport iroh_opts

record checkerboard_args =
  cb_width :: u32
  cb_height :: u32
  cb_tile :: u32
  cb_output :: string

datatype workload = Ping | ComputeDouble u32 | RenderCheckerboard checkerboard_args

record 'addr cli_cmd =
  cc_transport :: "'addr transport_opts"
  cc_workload :: workload

definition cli_defaults :: "'addr \<Rightarrow> 'addr cli_flags" where
  "cli_defaults server =
     \<lparr>fl_sub = None, fl_server = server, fl_ca_cert = ''./ca-cert.der'', fl_server_name = ''localhost'',
      fl_iroh = False, fl_endpoint_id = None, fl_count = 8, fl_width = 256, fl_height = 256, fl_tile = 32,
      fl_output = ''./checkerboard.ppm''\<rparr>"

text \<open>\<open>v.parse().map_err(|e| format!("invalid {name}: {e}"))?\<close>\<close>

definition parse_value :: "string \<Rightarrow> (string \<Rightarrow> string + 'v) \<Rightarrow> string \<Rightarrow> string + 'v" where
  "parse_value name p v = (case p v of Inl e \<Rightarrow> Inl (''invalid '' @ name @ '': '' @ e) | Inr x \<Rightarrow> Inr x)"

text \<open>The options with a value: \<open>None\<close> for any other argument, and what the value does to the variables.\<close>

definition cli_value ::
  "(string \<Rightarrow> string + 'addr) \<Rightarrow> string \<Rightarrow> (string \<Rightarrow> 'addr cli_flags \<Rightarrow> string + 'addr cli_flags) option" where
  "cli_value pa arg =
     (if arg = ''--server'' then Some (\<lambda>v fl. bind_res (parse_value ''--server'' pa v) (\<lambda>a. Inr (fl\<lparr>fl_server := a\<rparr>)))
      else if arg = ''--ca-cert'' \<or> arg = ''--cert'' then Some (\<lambda>v fl. Inr (fl\<lparr>fl_ca_cert := v\<rparr>))
      else if arg = ''--server-name'' then Some (\<lambda>v fl. Inr (fl\<lparr>fl_server_name := v\<rparr>))
      else if arg = ''--endpoint-id'' then Some (\<lambda>v fl. Inr (fl\<lparr>fl_endpoint_id := Some v\<rparr>))
      else if arg = ''--count'' then Some (\<lambda>v fl. bind_res (parse_value ''--count'' parse_u32 v) (\<lambda>n. Inr (fl\<lparr>fl_count := n\<rparr>)))
      else if arg = ''--width'' then Some (\<lambda>v fl. bind_res (parse_value ''--width'' parse_u32 v) (\<lambda>n. Inr (fl\<lparr>fl_width := n\<rparr>)))
      else if arg = ''--height'' then Some (\<lambda>v fl. bind_res (parse_value ''--height'' parse_u32 v) (\<lambda>n. Inr (fl\<lparr>fl_height := n\<rparr>)))
      else if arg = ''--tile'' then Some (\<lambda>v fl. bind_res (parse_value ''--tile'' parse_u32 v) (\<lambda>n. Inr (fl\<lparr>fl_tile := n\<rparr>)))
      else if arg = ''--output'' then Some (\<lambda>v fl. Inr (fl\<lparr>fl_output := v\<rparr>))
      else None)"

definition needs_value :: "string \<Rightarrow> string" where
  "needs_value arg = (if arg = ''--cert'' then ''--ca-cert'' else arg) @ '' needs a value''"

definition subcommands :: "string list" where
  "subcommands = [''ping'', ''compute-double'', ''render-checkerboard'']"

fun cli_loop :: "(string \<Rightarrow> string + 'addr) \<Rightarrow> string list \<Rightarrow> 'addr cli_flags \<Rightarrow> 'addr cli_flags parsed" where
  "cli_loop pa [] fl = Parsed fl"
| "cli_loop pa (arg # argv) fl =
     (case cli_value pa arg of
        Some f \<Rightarrow>
          (case argv of
             [] \<Rightarrow> Refused (needs_value arg)
           | v # argv \<Rightarrow> (case f v fl of Inl e \<Rightarrow> Refused e | Inr fl \<Rightarrow> cli_loop pa argv fl))
      | None \<Rightarrow>
          if arg = ''--iroh'' then cli_loop pa argv (fl\<lparr>fl_iroh := True\<rparr>)
          else if arg = ''-h'' \<or> arg = ''--help'' then UsageShown
          else if take 1 arg \<noteq> ''-'' \<and> fl_sub fl = None
          then if arg \<in> set subcommands then cli_loop pa argv (fl\<lparr>fl_sub := Some arg\<rparr>)
               else Refused (''unknown subcommand: '' @ arg)
          else Refused (''unknown argument: '' @ arg))"

definition cli_command :: "'addr cli_flags \<Rightarrow> 'addr cli_cmd parsed" where
  "cli_command fl =
     (case fl_sub fl of
        None \<Rightarrow> Refused ''missing subcommand''
      | Some sub \<Rightarrow>
          (case (if fl_iroh fl
                 then case fl_endpoint_id fl of
                     None \<Rightarrow> Inl ''--iroh requires --endpoint-id''
                   | Some i \<Rightarrow> Inr (IrohTransport \<lparr>io_endpoint_id = i\<rparr>)
                 else Inr (QuicTransport \<lparr>qo_server = fl_server fl, qo_ca_cert = fl_ca_cert fl,
                     qo_server_name = fl_server_name fl\<rparr>)) of
             Inl e \<Rightarrow> Refused e
           | Inr transport \<Rightarrow> Parsed \<lparr>cc_transport = transport,
               cc_workload =
                 (if sub = ''ping'' then Ping
                  else if sub = ''compute-double'' then ComputeDouble (fl_count fl)
                  else RenderCheckerboard \<lparr>cb_width = fl_width fl, cb_height = fl_height fl, cb_tile = fl_tile fl,
                    cb_output = fl_output fl\<rparr>)\<rparr>))"

text \<open>\<open>server\<close> is the default address, \<open>127.0.0.1:4433\<close>.\<close>

definition cli_parse_args :: "(string \<Rightarrow> string + 'addr) \<Rightarrow> 'addr \<Rightarrow> string list \<Rightarrow> 'addr cli_cmd parsed" where
  "cli_parse_args pa server argv =
     (case cli_loop pa argv (cli_defaults server) of
        Parsed fl \<Rightarrow> cli_command fl
      | Refused e \<Rightarrow> Refused e
      | UsageShown \<Rightarrow> UsageShown)"

subsection \<open>The server's options\<close>

record 'addr server_flags =
  sf_bind :: 'addr
  sf_ca_cert :: string
  sf_ca_key :: string
  sf_extra_sans :: "string list"
  sf_cert_out :: "string option"
  sf_self_signed :: bool
  sf_port_file :: "string option"
  sf_iroh :: bool

record ca_args =
  ca_cert_path :: string
  ca_key_path :: string

text \<open>\<open>ServeArgs\<close> has the fields of the variables.\<close>

datatype 'addr server_cmd = Serve "'addr server_flags" | InitCa ca_args

definition server_defaults :: "'addr \<Rightarrow> 'addr server_flags" where
  "server_defaults bind =
     \<lparr>sf_bind = bind, sf_ca_cert = ''./ca-cert.der'', sf_ca_key = ''./ca-key.der'', sf_extra_sans = [],
      sf_cert_out = None, sf_self_signed = False, sf_port_file = None, sf_iroh = False\<rparr>"

definition server_value ::
  "(string \<Rightarrow> string + 'addr) \<Rightarrow> string \<Rightarrow> (string \<Rightarrow> 'addr server_flags \<Rightarrow> string + 'addr server_flags) option" where
  "server_value pa arg =
     (if arg = ''--bind'' then Some (\<lambda>v fl. bind_res (parse_value ''--bind'' pa v) (\<lambda>a. Inr (fl\<lparr>sf_bind := a\<rparr>)))
      else if arg = ''--ca-cert'' then Some (\<lambda>v fl. Inr (fl\<lparr>sf_ca_cert := v\<rparr>))
      else if arg = ''--ca-key'' then Some (\<lambda>v fl. Inr (fl\<lparr>sf_ca_key := v\<rparr>))
      else if arg = ''--san'' then Some (\<lambda>v fl. Inr (fl\<lparr>sf_extra_sans := sf_extra_sans fl @ [v]\<rparr>))
      else if arg = ''--cert-out'' then Some (\<lambda>v fl. Inr (fl\<lparr>sf_cert_out := Some v\<rparr>))
      else if arg = ''--port-file'' then Some (\<lambda>v fl. Inr (fl\<lparr>sf_port_file := Some v\<rparr>))
      else None)"

fun server_loop :: "(string \<Rightarrow> string + 'addr) \<Rightarrow> string list \<Rightarrow> 'addr server_flags \<Rightarrow> 'addr server_flags parsed" where
  "server_loop pa [] fl = Parsed fl"
| "server_loop pa (arg # argv) fl =
     (case server_value pa arg of
        Some f \<Rightarrow>
          (case argv of
             [] \<Rightarrow> Refused (arg @ '' requires a value'')
           | v # argv \<Rightarrow> (case f v fl of Inl e \<Rightarrow> Refused e | Inr fl \<Rightarrow> server_loop pa argv fl))
      | None \<Rightarrow>
          if arg = ''--self-signed'' then server_loop pa argv (fl\<lparr>sf_self_signed := True\<rparr>)
          else if arg = ''--iroh'' then server_loop pa argv (fl\<lparr>sf_iroh := True\<rparr>)
          else if arg = ''-h'' \<or> arg = ''--help'' then UsageShown
          else Refused (''unknown argument: '' @ arg))"

definition server_parse_args :: "(string \<Rightarrow> string + 'addr) \<Rightarrow> 'addr \<Rightarrow> string list \<Rightarrow> 'addr server_cmd parsed" where
  "server_parse_args pa bind argv =
     (let is_init_ca = (case argv of [] \<Rightarrow> False | arg # _ \<Rightarrow> arg = ''init-ca'');
          argv = (if is_init_ca then tl argv else argv)
      in case server_loop pa argv (server_defaults bind) of
           Parsed fl \<Rightarrow>
             if is_init_ca then Parsed (InitCa \<lparr>ca_cert_path = sf_ca_cert fl, ca_key_path = sf_ca_key fl\<rparr>)
             else Parsed (Serve fl)
         | Refused e \<Rightarrow> Refused e
         | UsageShown \<Rightarrow> UsageShown)"

subsection \<open>Options in any order\<close>

text \<open>What a user means: a set of options, each given once, in some order.\<close>

datatype 'addr cli_option =
    OServer 'addr | OCaCert string | OServerName string | OIroh | OEndpointId string | OCount u32 | OWidth u32
  | OHeight u32 | OTile u32 | OOutput string | OSubcommand string

fun option_words :: "('addr \<Rightarrow> string) \<Rightarrow> 'addr cli_option \<Rightarrow> string list" where
  "option_words sh (OServer a) = [''--server'', sh a]"
| "option_words sh (OCaCert p) = [''--ca-cert'', p]"
| "option_words sh (OServerName n) = [''--server-name'', n]"
| "option_words sh OIroh = [''--iroh'']"
| "option_words sh (OEndpointId i) = [''--endpoint-id'', i]"
| "option_words sh (OCount n) = [''--count'', show_u32 n]"
| "option_words sh (OWidth n) = [''--width'', show_u32 n]"
| "option_words sh (OHeight n) = [''--height'', show_u32 n]"
| "option_words sh (OTile n) = [''--tile'', show_u32 n]"
| "option_words sh (OOutput p) = [''--output'', p]"
| "option_words sh (OSubcommand s) = [s]"

fun apply_option :: "'addr cli_option \<Rightarrow> 'addr cli_flags \<Rightarrow> 'addr cli_flags" where
  "apply_option (OServer a) fl = fl\<lparr>fl_server := a\<rparr>"
| "apply_option (OCaCert p) fl = fl\<lparr>fl_ca_cert := p\<rparr>"
| "apply_option (OServerName n) fl = fl\<lparr>fl_server_name := n\<rparr>"
| "apply_option OIroh fl = fl\<lparr>fl_iroh := True\<rparr>"
| "apply_option (OEndpointId i) fl = fl\<lparr>fl_endpoint_id := Some i\<rparr>"
| "apply_option (OCount n) fl = fl\<lparr>fl_count := n\<rparr>"
| "apply_option (OWidth n) fl = fl\<lparr>fl_width := n\<rparr>"
| "apply_option (OHeight n) fl = fl\<lparr>fl_height := n\<rparr>"
| "apply_option (OTile n) fl = fl\<lparr>fl_tile := n\<rparr>"
| "apply_option (OOutput p) fl = fl\<lparr>fl_output := p\<rparr>"
| "apply_option (OSubcommand s) fl = fl\<lparr>fl_sub := Some s\<rparr>"

fun option_no :: "'addr cli_option \<Rightarrow> nat" where
  "option_no (OServer _) = 0"
| "option_no (OCaCert _) = 1"
| "option_no (OServerName _) = 2"
| "option_no OIroh = 3"
| "option_no (OEndpointId _) = 4"
| "option_no (OCount _) = 5"
| "option_no (OWidth _) = 6"
| "option_no (OHeight _) = 7"
| "option_no (OTile _) = 8"
| "option_no (OOutput _) = 9"
| "option_no (OSubcommand _) = 10"

fun transport_options :: "'addr transport_opts \<Rightarrow> 'addr cli_option list" where
  "transport_options (QuicTransport q) = [OServer (qo_server q), OCaCert (qo_ca_cert q), OServerName (qo_server_name q)]"
| "transport_options (IrohTransport i) = [OIroh, OEndpointId (io_endpoint_id i)]"

fun workload_options :: "workload \<Rightarrow> 'addr cli_option list" where
  "workload_options Ping = [OSubcommand ''ping'']"
| "workload_options (ComputeDouble n) = [OSubcommand ''compute-double'', OCount n]"
| "workload_options (RenderCheckerboard a) =
     [OSubcommand ''render-checkerboard'', OWidth (cb_width a), OHeight (cb_height a), OTile (cb_tile a), OOutput (cb_output a)]"

definition command_options :: "'addr cli_cmd \<Rightarrow> 'addr cli_option list" where
  "command_options cmd = transport_options (cc_transport cmd) @ workload_options (cc_workload cmd)"

lemma apply_option_commute_less:
  "option_no a < option_no b \<Longrightarrow> apply_option a (apply_option b fl) = apply_option b (apply_option a fl)"
  by (cases a; cases b) simp_all

lemma apply_option_commute:
  "option_no a \<noteq> option_no b \<Longrightarrow> apply_option a (apply_option b fl) = apply_option b (apply_option a fl)"
  using apply_option_commute_less [of a b fl] apply_option_commute_less [of b a fl] by (auto simp: neq_iff)

definition one_subcommand :: "'addr cli_option list \<Rightarrow> 'addr cli_flags \<Rightarrow> bool" where
  "one_subcommand opts fl \<longleftrightarrow> distinct (map option_no opts) \<and> (fl_sub fl \<noteq> None \<longrightarrow> 10 \<notin> option_no ` set opts)
     \<and> (\<forall>s. OSubcommand s \<in> set opts \<longrightarrow> s \<in> set subcommands)"

lemma one_subcommand_Cons:
  "one_subcommand (a # opts) fl \<Longrightarrow> one_subcommand opts (apply_option a fl)"
proof -
  assume one: "one_subcommand (a # opts) fl"
  have "fl_sub (apply_option a fl) \<noteq> None \<Longrightarrow> option_no a = 10 \<or> fl_sub fl \<noteq> None"
    by (cases a) simp_all
  then show ?thesis using one by (auto simp: one_subcommand_def)
qed

lemma subcommandE:
  assumes "s \<in> set subcommands"
  obtains "s = ''ping''" | "s = ''compute-double''" | "s = ''render-checkerboard''"
  using assms by (simp only: subcommands_def list.set insert_iff empty_iff) blast

lemma subcommand_members [simp]:
  "''ping'' \<in> set subcommands" "''compute-double'' \<in> set subcommands" "''render-checkerboard'' \<in> set subcommands"
  by (simp_all add: subcommands_def)

lemma cli_loop_option:
  assumes "\<And>a. pa (sh a) = Inr a" and "one_subcommand (opt # opts) fl"
  shows "cli_loop pa (option_words sh opt @ argv) fl = cli_loop pa argv (apply_option opt fl)"
proof (cases opt)
  case (OSubcommand s)
  with assms(2) have s: "s \<in> set subcommands" and fl: "fl_sub fl = None"
    by (simp_all add: one_subcommand_def)
  have "cli_value pa ''ping'' = None" "cli_value pa ''compute-double'' = None" "cli_value pa ''render-checkerboard'' = None"
    by (simp_all add: cli_value_def)
  with s OSubcommand fl show ?thesis by (elim subcommandE) simp_all
qed (simp_all add: cli_value_def parse_value_def assms(1))

lemma cli_loop_options:
  assumes "\<And>a. pa (sh a) = Inr a" and "one_subcommand opts fl"
  shows "cli_loop pa (concat (map (option_words sh) opts)) fl = Parsed (fold apply_option opts fl)"
  using assms(2)
proof (induction opts arbitrary: fl)
  case (Cons opt opts)
  then show ?case
    using cli_loop_option [OF assms(1) Cons.prems] one_subcommand_Cons by fastforce
qed simp

lemma command_options_distinct: "distinct (map option_no (command_options cmd))"
  by (cases "cc_transport cmd"; cases "cc_workload cmd") (simp_all add: command_options_def)

lemma command_options_subcommand: "OSubcommand s \<in> set (command_options cmd) \<Longrightarrow> s \<in> set subcommands"
  by (cases "cc_transport cmd"; cases "cc_workload cmd") (auto simp: command_options_def subcommands_def)

lemma cli_command_options: "cli_command (fold apply_option (command_options cmd) (cli_defaults server)) = Parsed cmd"
  by (cases "cc_transport cmd"; cases "cc_workload cmd")
    (simp_all add: command_options_def cli_command_def cli_defaults_def)

lemma fold_options_permuted:
  assumes "mset opts = mset (command_options cmd)"
  shows "fold apply_option opts = fold apply_option (command_options cmd)"
proof (rule fold_multiset_equiv [OF _ assms])
  fix a b
  assume "a \<in> set opts" and "b \<in> set opts"
  then have ab: "a \<in> set (command_options cmd)" "b \<in> set (command_options cmd)"
    using mset_eq_setD [OF assms] by auto
  show "apply_option a \<circ> apply_option b = apply_option b \<circ> apply_option a"
  proof (cases "a = b")
    case False
    then have "option_no a \<noteq> option_no b"
      using command_options_distinct ab by (auto simp: distinct_map inj_on_def)
    then show ?thesis by (simp add: fun_eq_iff apply_option_commute)
  qed simp
qed

text \<open>C40: the client's command line. Given as options in any order, each followed by its value, every
  command parses back to itself, whatever its transport and workload.\<close>

theorem client_options_in_any_order:
  assumes "\<And>a. pa (sh a) = Inr a" and "mset opts = mset (command_options cmd)"
  shows "cli_parse_args pa server (concat (map (option_words sh) opts)) = Parsed cmd"
proof -
  have "mset (map option_no opts) = mset (map option_no (command_options cmd))" by (simp add: assms(2))
  then have "distinct (map option_no opts)"
    using command_options_distinct mset_eq_imp_distinct_iff by blast
  then have "one_subcommand opts (cli_defaults server)"
    using command_options_subcommand [of _ cmd] mset_eq_setD [OF assms(2)] by (auto simp: one_subcommand_def cli_defaults_def)
  then show ?thesis
    using cli_loop_options [OF assms(1)] cli_command_options
    by (simp add: cli_parse_args_def fold_options_permuted [OF assms(2)])
qed

theorem client_options_in_any_order_witness:
  "cli_parse_args Inr ''127.0.0.1:4433'' [''--count'', ''5'', ''--endpoint-id'', ''6c19'', ''compute-double'', ''--iroh''] =
     Parsed \<lparr>cc_transport = IrohTransport \<lparr>io_endpoint_id = ''6c19''\<rparr>, cc_workload = ComputeDouble 5\<rparr>"
proof -
  let ?cmd = "\<lparr>cc_transport = IrohTransport \<lparr>io_endpoint_id = ''6c19''\<rparr>, cc_workload = ComputeDouble 5\<rparr> :: string cli_cmd"
  let ?opts = "[OCount 5, OEndpointId ''6c19'', OSubcommand ''compute-double'', OIroh] :: string cli_option list"
  have "mset ?opts = mset (command_options ?cmd)" by (simp add: command_options_def)
  moreover have "show_u32 5 = ''5''" by (simp add: show_nat.simps digit_char_def char_of_def bit_Suc_0_iff)
  ultimately show ?thesis
    using client_options_in_any_order [of Inr "\<lambda>a. a" ?opts ?cmd "''127.0.0.1:4433''"] by simp
qed

end
