(* ===== verification/Workloads.thy ===== *)
theory Workloads
  imports Arguments Composed
begin

section \<open>The demo client's workloads\<close>

text \<open>
  \<open>ping\<close>, \<open>compute_double\<close> and \<open>render_checkerboard\<close> of \<open>bin/wgpu-remote-cli.rs\<close>: whole programs over the
  facade. A local variable that owns a handle is \<open>let_handle\<close>, which drops it however the rest of the
  block ends, the last declared first. What is printed is left out; what is written to the output file
  is the value.

  Parameters: the plain values of wgpu-types and the shader sources, collected in \<open>literals\<close>; the byte
  order of the client's machine; whether its build checks overflow. \<open>u32\<close> products overflow to a panic
  or wrap, as the build says.
\<close>

record 'w literals =
  li_storage :: u32
  li_uniform :: u32
  li_map_read :: u32
  li_copy_src :: u32
  li_copy_dst :: u32
  li_double_shader :: string
  li_checkerboard_shader :: string
  li_storage_entry :: "u64 \<Rightarrow> 'w"
  li_uniform_entry :: "u64 \<Rightarrow> 'w"
  li_extent :: "u32 \<Rightarrow> u32 \<Rightarrow> u32 \<Rightarrow> 'w"
  li_d2 :: 'w
  li_rgba8 :: 'w
  li_target_usage :: 'w
  li_default_view :: "'w texture_view_descriptor"
  li_primitive :: 'w
  li_multisample :: 'w
  li_color_target :: 'w
  li_clear_store :: 'w
  li_origin_zero :: 'w
  li_aspect_all :: 'w
  li_copy_layout :: "u64 \<Rightarrow> u32 option \<Rightarrow> u32 option \<Rightarrow> 'w"

record 'w host =
  ho_literals :: "'w literals"
  ho_big_endian :: bool
  ho_overflow_checks :: bool

datatype cli_error = ClientFailed client_error | Bailed string

subsection \<open>Machine arithmetic of the client\<close>

definition mul_u32 :: "bool \<Rightarrow> u32 \<Rightarrow> u32 \<Rightarrow> u32 option" where
  "mul_u32 overflow_checks a b =
     (if overflow_checks \<and> 2 ^ 32 \<le> unat a * unat b then None else Some (a * b))"

definition add_u32 :: "bool \<Rightarrow> u32 \<Rightarrow> u32 \<Rightarrow> u32 option" where
  "add_u32 overflow_checks a b =
     (if overflow_checks \<and> 2 ^ 32 \<le> unat a + unat b then None else Some (a + b))"

lemma mul_u32_fits [simp]: "unat a * unat b < 2 ^ 32 \<Longrightarrow> mul_u32 c a b = Some (a * b)"
  by (simp add: mul_u32_def)

lemma unat_mul_u32: "unat (a :: u32) * unat b < 2 ^ 32 \<Longrightarrow> unat (a * b) = unat a * unat b"
  using unat_mult_lem [of a b] by simp

text \<open>\<open>v.div_ceil(align) * align\<close>; \<open>div_ceil\<close> does not overflow, and panics on \<open>align = 0\<close>.\<close>

definition div_ceil_u32 :: "u32 \<Rightarrow> u32 \<Rightarrow> u32" where
  "div_ceil_u32 v d = (if v mod d = 0 then v div d else v div d + 1)"

definition align_up :: "bool \<Rightarrow> u32 \<Rightarrow> u32 \<Rightarrow> u32 option" where
  "align_up overflow_checks v align =
     (if align = 0 then None else mul_u32 overflow_checks (div_ceil_u32 v align) align)"

definition u32_to_ne_bytes :: "bool \<Rightarrow> u32 \<Rightarrow> bytes" where
  "u32_to_ne_bytes big w = (if big then u32_to_be_bytes w else rev (u32_to_be_bytes w))"

definition u32_from_ne_bytes :: "bool \<Rightarrow> byte \<Rightarrow> byte \<Rightarrow> byte \<Rightarrow> byte \<Rightarrow> u32" where
  "u32_from_ne_bytes big a b c d = (if big then u32_from_be_bytes a b c d else u32_from_be_bytes d c b a)"

text \<open>\<open>chunks_exact(4).map(from_ne_bytes)\<close>: a remainder of less than four bytes is left out.\<close>

fun u32s_of :: "bool \<Rightarrow> bytes \<Rightarrow> u32 list" where
  "u32s_of big (a # b # c # d # bs) = u32_from_ne_bytes big a b c d # u32s_of big bs"
| "u32s_of big bs = []"

lemma u32s_of_bytes [simp]: "u32s_of big (u32_to_ne_bytes big w @ bs) = w # u32s_of big bs"
  by (simp add: u32_to_ne_bytes_def u32_to_be_bytes_def u32_from_ne_bytes_def)

lemma u32s_of_concat: "u32s_of big (concat (map (u32_to_ne_bytes big) ws)) = ws"
  by (induction ws) simp_all

subsection \<open>Effects\<close>

definition via_client :: "('c facade, client_error, 'a) step \<Rightarrow> ('c facade, cli_error, 'a) step" where
  "via_client m st =
     (case m st of (Ret a, st) \<Rightarrow> (Ret a, st) | (Fail e, st) \<Rightarrow> (Fail (ClientFailed e), st) | (Panic, st) \<Rightarrow> (Panic, st))"

definition tell :: "('c facade \<Rightarrow> 'c facade) \<Rightarrow> ('c facade, cli_error, unit) step" where
  "tell f st = (Ret (), f st)"

definition let_handle ::
  "('w, 'c) link \<Rightarrow> ('c facade \<Rightarrow> ('k, 'z) handle_scheme \<times> 'c facade) \<Rightarrow>
     (('k, 'z) handle_scheme \<Rightarrow> ('c facade, cli_error, 'a) step) \<Rightarrow> ('c facade, cli_error, 'a) step" where
  "let_handle lk create body st =
     (case create st of (h, st) \<Rightarrow> (case body h st of (r, st) \<Rightarrow> (r, drop_handle lk h st)))"

subsection \<open>ping\<close>

definition ping :: "('w, 'c) link \<Rightarrow> ('c facade, cli_error, u32) step" where
  "ping lk =
     andThen (via_client (request_on lk (Hello PROTOCOL_VERSION))) (\<lambda>response.
       case response of
         HelloAck protocol_version \<Rightarrow> ret protocol_version
       | RespError code message \<Rightarrow> fail (Bailed ''server returned error'')
       | other \<Rightarrow> fail (Bailed ''expected HelloAck''))"

subsection \<open>compute-double\<close>

definition double_input :: "u32 \<Rightarrow> u32 list" where
  "double_input cnt = map of_nat [1 ..< Suc (unat cnt)]"

definition double_on_device :: "'w host \<Rightarrow> ('w, 'c) link \<Rightarrow> u32 \<Rightarrow> nat \<Rightarrow> ('c facade, cli_error, unit) step" where
  "double_on_device ho lk cnt dev =
     (let li = ho_literals ho;
          input = double_input cnt;
          input_bytes = concat (map (u32_to_ne_bytes (ho_big_endian ho)) input);
          buffer_size = of_nat (length input_bytes)
      in
      let_handle lk (create_buffer_on lk dev
          \<lparr>bd_label = Some ''storage'', bd_size = buffer_size,
           bd_usage = or (or (li_storage li) (li_copy_dst li)) (li_copy_src li), bd_mapped_at_creation = False\<rparr>) (\<lambda>storage.
      let_handle lk (create_buffer_on lk dev
          \<lparr>bd_label = Some ''staging'', bd_size = buffer_size,
           bd_usage = or (li_copy_dst li) (li_map_read li), bd_mapped_at_creation = False\<rparr>) (\<lambda>staging.
      andThen (tell (queue_write_buffer lk storage 0 input_bytes)) (\<lambda>_.
      let_handle lk (create_shader_module_on lk dev
          \<lparr>sm_label = Some ''double'', sm_source = Wgsl (li_double_shader li)\<rparr>) (\<lambda>shader.
      let_handle lk (create_bind_group_layout_on lk dev
          \<lparr>bgl_label = Some ''storage-bgl'', bgl_entries = [li_storage_entry li buffer_size]\<rparr>) (\<lambda>bgl.
      let_handle lk (create_bind_group_on lk dev
          \<lparr>bg_label = Some ''storage-bg'', bg_layout = hd_id bgl,
           bg_entries = [\<lparr>bge_binding = 0, bge_resource = BRBuffer (hd_id storage) 0 None\<rparr>]\<rparr>) (\<lambda>bind_group.
      let_handle lk (create_pipeline_layout_on lk dev
          \<lparr>pl_label = Some ''compute-layout'', pl_bind_group_layouts = [hd_id bgl], pl_push_constant_ranges = []\<rparr>) (\<lambda>pipeline_layout.
      let_handle lk (create_compute_pipeline_on lk dev
          \<lparr>cp_label = Some ''double-pipeline'', cp_layout = Some (hd_id pipeline_layout), cp_module = hd_id shader,
           cp_entry_point = Some ''main'', cp_constants = []\<rparr>) (\<lambda>pipeline.
        let pass = begin_compute_pass (Some ''double-pass'') (create_command_encoder (Some ''double-cmds''));
            pass = compute_set_pipeline pipeline pass;
            pass = compute_set_bind_group 0 bind_group [] pass;
            pass = dispatch_workgroups cnt 1 1 pass;
            encoder = drop_compute_pass pass;
            encoder = copy_buffer_to_buffer storage 0 staging 0 buffer_size encoder
        in
        andThen (via_client (queue_submit lk [finish encoder])) (\<lambda>_.
        andThen (via_client (read_all lk staging)) (\<lambda>bytes.
          let output = u32s_of (ho_big_endian ho) bytes in
          andThen (lift_opt (those (map (\<lambda>n. mul_u32 (ho_overflow_checks ho) n 2) input))) (\<lambda>expected.
            if output = expected then ret () else fail (Bailed ''output did not match expected'')))))))))))))"

definition compute_double :: "'w host \<Rightarrow> ('w, 'c) link \<Rightarrow> u32 \<Rightarrow> ('c facade, cli_error, unit) step" where
  "compute_double ho lk cnt =
     (if cnt = 0 then fail (Bailed ''--count must be at least 1'')
      else
        andThen (via_client (request_adapter lk)) (\<lambda>_.
        andThen (via_client (request_device lk)) (double_on_device ho lk cnt)))"

subsection \<open>render-checkerboard\<close>

text \<open>
  The loop that strips the padding of the rows: \<open>raw[p]\<close> panics out of range, and so does the
  arithmetic on \<open>u32\<close> in a build with overflow checks. Indices are \<open>usize\<close>, exact.
\<close>

definition pixel_at :: "bool \<Rightarrow> bytes \<Rightarrow> nat \<Rightarrow> u32 \<Rightarrow> bytes option" where
  "pixel_at oc raw_bytes base col =
     (case mul_u32 oc col 4 of
        None \<Rightarrow> None
      | Some off \<Rightarrow>
          let p = base + unat off in
          if p + 2 < length raw_bytes then Some [raw_bytes ! p, raw_bytes ! (p + 1), raw_bytes ! (p + 2)] else None)"

definition row_at :: "bool \<Rightarrow> bytes \<Rightarrow> u32 \<Rightarrow> u32 \<Rightarrow> u32 \<Rightarrow> bytes option" where
  "row_at oc raw_bytes width padded_bpr row =
     (case mul_u32 oc row padded_bpr of
        None \<Rightarrow> None
      | Some base \<Rightarrow> map_option concat (those (map (\<lambda>col. pixel_at oc raw_bytes (unat base) (of_nat col)) [0 ..< unat width])))"

definition strip_padding :: "bool \<Rightarrow> bytes \<Rightarrow> u32 \<Rightarrow> u32 \<Rightarrow> u32 \<Rightarrow> bytes option" where
  "strip_padding oc raw_bytes width height padded_bpr =
     (case mul_u32 oc width height of
        None \<Rightarrow> None
      | Some area \<Rightarrow>
          (case mul_u32 oc area 3 of
             None \<Rightarrow> None
           | Some _ \<Rightarrow>
               map_option concat (those (map (\<lambda>row. row_at oc raw_bytes width padded_bpr (of_nat row)) [0 ..< unat height]))))"

definition COPY_BPR_ALIGNMENT :: u32 where
  "COPY_BPR_ALIGNMENT = 256"

text \<open>The bytes per row, padded, and the size of the staging buffer.\<close>

definition staging_layout :: "bool \<Rightarrow> u32 \<Rightarrow> u32 \<Rightarrow> (u32 \<times> u64) option" where
  "staging_layout oc width height =
     Option.bind (mul_u32 oc width 4) (\<lambda>unpadded_bpr.
     Option.bind (align_up oc unpadded_bpr COPY_BPR_ALIGNMENT) (\<lambda>padded_bpr.
     Option.bind (mul_u32 oc padded_bpr height) (\<lambda>staging_size.
       Some (padded_bpr, ucast staging_size))))"

definition ppm_header :: "u32 \<Rightarrow> u32 \<Rightarrow> string" where
  "ppm_header width height =
     ''P6'' @ [char_of (10 :: nat)] @ show_u32 width @ '' '' @ show_u32 height @ [char_of (10 :: nat)] @ ''255'' @ [char_of (10 :: nat)]"

datatype ppm_target = ToStdout | ToFile string

definition checkerboard_on_device ::
  "'w host \<Rightarrow> ('w, 'c) link \<Rightarrow> checkerboard_args \<Rightarrow> nat \<Rightarrow> ('c facade, cli_error, ppm_target \<times> string \<times> bytes) step" where
  "checkerboard_on_device ho lk args dev =
     (let li = ho_literals ho; oc = ho_overflow_checks ho; ne = u32_to_ne_bytes (ho_big_endian ho) in
      let_handle lk (create_texture_on lk dev
          \<lparr>td_label = Some ''checkerboard'', td_size = li_extent li (cb_width args) (cb_height args) 1,
           td_mip_level_count = 1, td_sample_count = 1, td_dimension = li_d2 li, td_format = li_rgba8 li,
           td_usage = li_target_usage li, td_view_formats = []\<rparr>) (\<lambda>texture.
      let_handle lk (create_view lk texture (li_default_view li)) (\<lambda>view.
      andThen (lift_opt (staging_layout oc (cb_width args) (cb_height args))) (\<lambda>(padded_bpr, staging_size).
      let_handle lk (create_buffer_on lk dev
          \<lparr>bd_label = Some ''params'', bd_size = 16, bd_usage = or (li_uniform li) (li_copy_dst li),
           bd_mapped_at_creation = False\<rparr>) (\<lambda>uniform.
      andThen (tell (queue_write_buffer lk uniform 0
          (ne (cb_tile args) @ ne (cb_width args) @ ne (cb_height args) @ ne 0))) (\<lambda>_.
      let_handle lk (create_buffer_on lk dev
          \<lparr>bd_label = Some ''staging'', bd_size = staging_size, bd_usage = or (li_copy_dst li) (li_map_read li),
           bd_mapped_at_creation = False\<rparr>) (\<lambda>staging.
      let_handle lk (create_bind_group_layout_on lk dev
          \<lparr>bgl_label = Some ''params-bgl'', bgl_entries = [li_uniform_entry li 16]\<rparr>) (\<lambda>bgl.
      let_handle lk (create_bind_group_on lk dev
          \<lparr>bg_label = Some ''params-bg'', bg_layout = hd_id bgl,
           bg_entries = [\<lparr>bge_binding = 0, bge_resource = BRBuffer (hd_id uniform) 0 None\<rparr>]\<rparr>) (\<lambda>bind_group.
      let_handle lk (create_pipeline_layout_on lk dev
          \<lparr>pl_label = Some ''checker-layout'', pl_bind_group_layouts = [hd_id bgl], pl_push_constant_ranges = []\<rparr>) (\<lambda>pipeline_layout.
      let_handle lk (create_shader_module_on lk dev
          \<lparr>sm_label = Some ''checkerboard'', sm_source = Wgsl (li_checkerboard_shader li)\<rparr>) (\<lambda>shader.
      let_handle lk (create_render_pipeline_on lk dev
          \<lparr>rp_label = Some ''checker-pipe'', rp_layout = Some (hd_id pipeline_layout),
           rp_vertex = \<lparr>vs_module = hd_id shader, vs_entry_point = Some ''vs_main'', vs_constants = [], vs_buffers = []\<rparr>,
           rp_primitive = li_primitive li, rp_depth_stencil = None, rp_multisample = li_multisample li,
           rp_fragment = Some \<lparr>fs_module = hd_id shader, fs_entry_point = Some ''fs_main'', fs_constants = [],
             fs_targets = [Some (li_color_target li)]\<rparr>,
           rp_multiview = None\<rparr>) (\<lambda>pipeline.
        let pass = begin_render_pass
              \<lparr>rpd_label = Some ''checker-pass'',
               rpd_color_attachments = [Some \<lparr>cah_view = view, cah_depth_slice = None, cah_resolve_target = None,
                 cah_ops = li_clear_store li\<rparr>],
               rpd_depth_stencil_attachment = None\<rparr> (create_command_encoder (Some ''checker-cmds''));
            pass = render_set_pipeline pipeline pass;
            pass = render_set_bind_group 0 bind_group [] pass;
            pass = draw (0, 3) (0, 1) pass;
            encoder = drop_render_pass pass;
            encoder = copy_texture_to_buffer texture 0 (li_origin_zero li) (li_aspect_all li) staging
              (li_copy_layout li 0 (Some padded_bpr) (Some (cb_height args)))
              (li_extent li (cb_width args) (cb_height args) 1) encoder
        in
        andThen (via_client (queue_submit lk [finish encoder])) (\<lambda>_.
        andThen (via_client (read_all lk staging)) (\<lambda>raw_bytes.
        andThen (lift_opt (strip_padding oc raw_bytes (cb_width args) (cb_height args) padded_bpr)) (\<lambda>rgb.
          ret (if cb_output args = ''-'' then ToStdout else ToFile (cb_output args),
               ppm_header (cb_width args) (cb_height args), rgb))))))))))))))))"

definition render_checkerboard ::
  "'w host \<Rightarrow> ('w, 'c) link \<Rightarrow> checkerboard_args \<Rightarrow> ('c facade, cli_error, ppm_target \<times> string \<times> bytes) step" where
  "render_checkerboard ho lk args =
     (if cb_width args = 0 \<or> cb_height args = 0 \<or> cb_tile args = 0
      then fail (Bailed ''--width, --height, and --tile must all be at least 1'')
      else
        andThen (via_client (request_adapter lk)) (\<lambda>_.
        andThen (via_client (request_device lk)) (checkerboard_on_device ho lk args)))"

subsection \<open>run_workload\<close>

definition run_workload ::
  "'w host \<Rightarrow> ('w, 'c) link \<Rightarrow> workload \<Rightarrow> ('c facade, cli_error, (ppm_target \<times> string \<times> bytes) option) step" where
  "run_workload ho lk w =
     (case w of
        Ping \<Rightarrow> andThen (ping lk) (\<lambda>_. ret None)
      | ComputeDouble n \<Rightarrow> andThen (compute_double ho lk n) (\<lambda>_. ret None)
      | RenderCheckerboard args \<Rightarrow> andThen (render_checkerboard ho lk args) (\<lambda>out. ret (Some out)))"

end
