(* ===== verification/Workload_Properties.thy ===== *)
theory Workload_Properties
  imports Workloads Client_Properties
begin

section \<open>Properties of the workloads\<close>

text \<open>
  The layout of the checkerboard's image, and the workloads against a server: whatever its device
  computes, they get no error answer and leave no resource behind.
\<close>

subsection \<open>Padded rows\<close>

text \<open>The bytes of a padded row, as a number.\<close>

definition padded_row :: "nat \<Rightarrow> nat" where
  "padded_row width = 256 * ((4 * width + 255) div 256)"

lemma padded_row_bounds: "4 * width \<le> padded_row width" "padded_row width < 4 * width + 256"
  unfolding padded_row_def by linarith+

lemma div_ceil_256: "((n :: nat) + 255) div 256 = (if n mod 256 = 0 then n div 256 else n div 256 + 1)"
proof -
  define q r where "q = n div 256" and "r = n mod 256"
  then have n: "n = q * 256 + r" and r: "r < 256" by simp_all
  have "(n + 255) div 256 = q + (r + 255) div 256"
    using div_mult_self3 [of 256 q "r + 255"] by (simp add: n add.assoc)
  moreover have "(r + 255) div 256 = (if r = 0 then 0 else 1)"
    using r div_nat_eqI [of 256 1 "r + 255"] by auto
  ultimately show ?thesis by (simp add: q_def r_def)
qed

lemma unat_div_ceil_256: "unat (div_ceil_u32 v 256) = (unat v + 255) div 256"
proof -
  have md: "unat (v mod 256) = unat v mod 256" "unat (v div 256) = unat v div 256"
    by (simp_all add: unat_mod unat_div)
  have "unat v < 2 ^ 32" using unsigned_less [of v] by simp
  then have "unat v div 256 < 2 ^ 24" by (simp add: less_mult_imp_div_less)
  then have suc: "unat (v div 256 + 1) = unat v div 256 + 1"
    using unat_add_lem [of "v div 256" 1] by (simp add: md)
  have "(v mod 256 = 0) = (unat v mod 256 = 0)"
    by (metis md(1) unat_eq_zero)
  then show ?thesis
    using suc md(2) div_ceil_256 [of "unat v"] by (simp add: div_ceil_u32_def)
qed

lemma align_up_256:
  assumes "256 * ((unat v + 255) div 256) < 2 ^ 32"
  shows "\<exists>p. align_up oc v 256 = Some p \<and> unat p = 256 * ((unat v + 255) div 256)"
proof -
  have "unat (div_ceil_u32 v 256) * unat (256 :: u32) < 2 ^ 32"
    using assms by (simp add: unat_div_ceil_256 mult.commute)
  then show ?thesis
    using unat_mul_u32 [of "div_ceil_u32 v 256" 256] by (simp add: align_up_def unat_div_ceil_256)
qed

lemma staging_layout_fits:
  assumes "0 < height" and "padded_row (unat width) * unat height < 2 ^ 32"
  shows "\<exists>p n. staging_layout oc width height = Some (p, n) \<and> unat p = padded_row (unat width)
    \<and> unat n = padded_row (unat width) * unat height"
proof -
  have "padded_row (unat width) * 1 \<le> padded_row (unat width) * unat height"
    using assms(1) by (intro mult_le_mono2) (simp add: word_less_nat_alt)
  then have row: "padded_row (unat width) < 2 ^ 32" using assms(2) by linarith
  then have w4: "unat width * unat (4 :: u32) < 2 ^ 32"
    using padded_row_bounds(1) [of "unat width"] by simp
  then have u: "unat (width * 4) = 4 * unat width" using unat_mul_u32 [of width 4] by simp
  obtain p where p: "align_up oc (width * 4) 256 = Some p" "unat p = padded_row (unat width)"
    using align_up_256 [of "width * 4" oc] row by (auto simp: u padded_row_def)
  have fits: "unat p * unat height < 2 ^ 32" using assms(2) p(2) by simp
  then have "unat (ucast (p * height) :: u64) = padded_row (unat width) * unat height"
    using unat_mul_u32 [OF fits] p(2) assms(2) by (simp add: unsigned_ucast_eq take_bit_nat_eq_self_iff)
  then show ?thesis
    using w4 p fits by (simp add: staging_layout_def COPY_BPR_ALIGNMENT_def)
qed

subsection \<open>Stripping\<close>

lemma those_map_Some: "(\<And>x. x \<in> set xs \<Longrightarrow> f x = Some (g x)) \<Longrightarrow> those (map f xs) = Some (map g xs)"
  by (induction xs) auto

lemma concat_blocks_nth:
  assumes "\<And>x. x < n \<Longrightarrow> length (f x) = m" and "i < n" and "j < m"
  shows "concat (map f [0 ..< n]) ! (m * i + j) = f i ! j"
  using assms(1,2)
proof (induction n)
  case (Suc n)
  have len: "length (concat (map f [0 ..< n])) = m * n"
    using Suc.prems(1) by (induction n) simp_all
  show ?case
  proof (cases "i < n")
    case True
    then have "m * Suc i \<le> m * n" by (intro mult_le_mono2) simp
    with assms(3) have "m * i + j < m * n" by simp
    with True Suc show ?thesis by (simp add: nth_append len)
  next
    case False
    with Suc.prems(2) have "i = n" by simp
    then show ?thesis by (simp add: nth_append len)
  qed
qed simp

lemma concat_blocks_length: "(\<And>x. x < n \<Longrightarrow> length (f x) = m) \<Longrightarrow> length (concat (map f [0 ..< n])) = m * n"
  by (induction n) simp_all

definition rgb_at :: "bytes \<Rightarrow> nat \<Rightarrow> nat \<Rightarrow> bytes" where
  "rgb_at raw_bytes base col = [raw_bytes ! (base + 4 * col), raw_bytes ! (base + 4 * col + 1), raw_bytes ! (base + 4 * col + 2)]"

lemma unat_of_nat_u32: "n < 2 ^ 32 \<Longrightarrow> unat (of_nat n :: u32) = n"
  by (simp add: unsigned_of_nat take_bit_nat_eq_self_iff)

lemma pixel_at_fits:
  assumes "4 * col + 3 < 2 ^ 32" and "base + 4 * col + 2 < length raw_bytes"
  shows "pixel_at oc raw_bytes base (of_nat col) = Some (rgb_at raw_bytes base col)"
proof -
  have fits: "unat (of_nat col :: u32) * unat (4 :: u32) < 2 ^ 32" and "unat (of_nat col :: u32) = col"
    using assms(1) unat_of_nat_u32 [of col] by simp_all
  then have "unat (of_nat col * 4 :: u32) = 4 * col" using unat_mul_u32 [OF fits] by simp
  then show ?thesis
    using fits assms(2) by (simp add: pixel_at_def rgb_at_def Let_def add.assoc)
qed

lemma row_at_fits:
  assumes "row * padded + 4 * unat width \<le> length raw_bytes" and "row < 2 ^ 32" and "row * padded < 2 ^ 32"
    and "4 * unat width < 2 ^ 32" and "unat p = padded"
  shows "row_at oc raw_bytes width p (of_nat row) = Some (concat (map (rgb_at raw_bytes (row * padded)) [0 ..< unat width]))"
proof -
  have fits: "unat (of_nat row :: u32) * unat p < 2 ^ 32"
    using assms(2,3,5) unat_of_nat_u32 [of row] by simp
  then have base: "unat (of_nat row * p) = row * padded"
    using unat_mul_u32 [OF fits] assms(2,5) unat_of_nat_u32 [of row] by simp
  have "those (map (\<lambda>col. pixel_at oc raw_bytes (row * padded) (of_nat col)) [0 ..< unat width])
      = Some (map (rgb_at raw_bytes (row * padded)) [0 ..< unat width])"
    using assms(1,4) by (intro those_map_Some pixel_at_fits) auto
  then show ?thesis using fits base by (simp add: row_at_def)
qed

text \<open>The arithmetic of \<open>strip_padding\<close> stays within 32 bits.\<close>

lemma picture_arithmetic:
  fixes width height :: u32
  assumes "0 < height" and "padded_row (unat width) * unat height < 2 ^ 32"
  shows "4 * unat width < 2 ^ 32" and "mul_u32 oc width height = Some (width * height)"
    and "mul_u32 oc (width * height) 3 = Some (width * height * 3)"
proof -
  let ?w = "unat width" and ?h = "unat height"
  have "4 * ?w * ?h \<le> padded_row ?w * ?h" by (intro mult_le_mono1 padded_row_bounds(1))
  then have picture: "4 * ?w * ?h < 2 ^ 32" using assms(2) by (rule le_less_trans)
  then have area: "?w * ?h * 4 < 2 ^ 32" by (simp only: ac_simps)
  then have fits: "?w * ?h < 2 ^ 32" by linarith
  then show "mul_u32 oc width height = Some (width * height)" by (rule mul_u32_fits)
  have "unat (width * height) = ?w * ?h" using fits by (rule unat_mul_u32)
  moreover have "?w * ?h * 3 < 2 ^ 32" using area by linarith
  moreover have "unat (3 :: u32) = 3" by simp
  ultimately have "unat (width * height) * unat (3 :: u32) < 2 ^ 32" by (simp only:)
  then show "mul_u32 oc (width * height) 3 = Some (width * height * 3)" by (rule mul_u32_fits)
  have "1 \<le> ?h" using assms(1) by (simp add: word_less_nat_alt)
  then have "4 * ?w * 1 \<le> 4 * ?w * ?h" by (intro mult_le_mono2)
  then show "4 * ?w < 2 ^ 32" using picture by linarith
qed

text \<open>C38: the image is the picture that was rendered. When the padded rows of a picture with a row and a
  column fit in 32 bits, nothing overflows, the staging buffer has exactly the size of its padded rows,
  and from a readback of that size the program reads within bounds and gets an image of three bytes for
  each pixel, those the readback has for it at its row and column.\<close>

theorem checkerboard_image:
  assumes "0 < width" and "0 < height" and "padded_row (unat width) * unat height < 2 ^ 32"
  shows "\<exists>p n. staging_layout oc width height = Some (p, n) \<and> unat n = padded_row (unat width) * unat height
    \<and> (\<forall>raw_bytes. length raw_bytes = unat n \<longrightarrow>
        (\<exists>rgb. strip_padding oc raw_bytes width height p = Some rgb \<and> length rgb = 3 * unat width * unat height
          \<and> (\<forall>row < unat height. \<forall>col < unat width. \<forall>k < 3.
               rgb ! (3 * unat width * row + (3 * col + k)) = raw_bytes ! (padded_row (unat width) * row + 4 * col + k))))"
proof -
  let ?P = "padded_row (unat width)" and ?w = "unat width" and ?h = "unat height"
  obtain p n where layout: "staging_layout oc width height = Some (p, n)" "unat p = ?P" "unat n = ?P * ?h"
    using staging_layout_fits [OF assms(2,3)] by blast
  note P = padded_row_bounds(1) [of ?w]
  note fits = picture_arithmetic [OF assms(2,3)]
  have "\<exists>rgb. strip_padding oc raw_bytes width height p = Some rgb \<and> length rgb = 3 * ?w * ?h
      \<and> (\<forall>row < ?h. \<forall>col < ?w. \<forall>k < 3. rgb ! (3 * ?w * row + (3 * col + k)) = raw_bytes ! (?P * row + 4 * col + k))"
    if raw: "length raw_bytes = unat n" for raw_bytes
  proof -
    let ?row = "\<lambda>row. concat (map (rgb_at raw_bytes (row * ?P)) [0 ..< ?w])"
    have row: "row_at oc raw_bytes width p (of_nat row) = Some (?row row)" if "row < ?h" for row
    proof (rule row_at_fits [OF _ _ _ fits(1) layout(2)])
      have "?P * Suc row \<le> ?P * ?h" using that by (intro mult_le_mono2) simp
      then show "row * ?P + 4 * ?w \<le> length raw_bytes" "row * ?P < 2 ^ 32"
        using P raw layout(3) assms(3) by (simp_all add: mult.commute)
      show "row < 2 ^ 32" using that unsigned_less [of height, where 'a = nat] by simp
    qed
    have len: "length (?row row) = 3 * ?w" for row
      by (rule concat_blocks_length) (simp add: rgb_at_def)
    have nth: "?row row ! (3 * col + k) = raw_bytes ! (?P * row + 4 * col + k)" if "col < ?w" "k < 3" for row col k
    proof -
      have "k = 0 \<or> k = 1 \<or> k = 2" using that(2) by linarith
      then show ?thesis
        using concat_blocks_nth [of ?w "rgb_at raw_bytes (row * ?P)" 3 col k] that
        by (auto simp: rgb_at_def mult.commute)
    qed
    have "strip_padding oc raw_bytes width height p = Some (concat (map ?row [0 ..< ?h]))"
      using those_map_Some [of "[0 ..< ?h]" "\<lambda>row. row_at oc raw_bytes width p (of_nat row)" ?row] row
      by (simp add: strip_padding_def fits(2,3))
    then show ?thesis
      using concat_blocks_length [of ?h ?row "3 * ?w"] concat_blocks_nth [of ?h ?row "3 * ?w"] len nth by simp
  qed
  then show ?thesis using layout by blast
qed

theorem checkerboard_image_witness:
  "\<exists>p n. staging_layout True 2 1 = Some (p, n)
     \<and> (\<exists>rgb. strip_padding True (replicate (unat n) 7) 2 1 p = Some rgb \<and> length rgb = 6)"
proof -
  have "(0 :: u32) < 2" "(0 :: u32) < 1" "padded_row (unat (2 :: u32)) * unat (1 :: u32) < 2 ^ 32"
    by (simp_all add: padded_row_def)
  from checkerboard_image [OF this, of True] obtain p n where layout: "staging_layout True 2 1 = Some (p, n)"
    and strip: "\<forall>raw_bytes. length raw_bytes = unat n \<longrightarrow>
      (\<exists>rgb. strip_padding True raw_bytes 2 1 p = Some rgb \<and> length rgb = 3 * unat (2 :: u32) * unat (1 :: u32))"
    by blast
  from strip have "\<exists>rgb. strip_padding True (replicate (unat n) 7) 2 1 p = Some rgb \<and> length rgb = 6" by simp
  with layout show ?thesis by blast
qed

text \<open>Larger pictures: the size of the staging buffer wraps in a build without overflow checks.\<close>

lemma staging_size_wraps:
  "staging_layout False 32768 32768 = Some (131072, 0)" "staging_layout True 32768 32768 = None"
  by (simp_all add: staging_layout_def mul_u32_def align_up_def div_ceil_u32_def COPY_BPR_ALIGNMENT_def)

subsection \<open>Programs that clean up\<close>

text \<open>
  What the parts of a workload keep, when the resources they use have live handles and at most \<open>k\<close> ids
  are minted: the client and the server stay in step, and the handles there were are as they were;
  those made on the way are all dropped.
\<close>

definition grown :: "cell list \<Rightarrow> cell list \<Rightarrow> bool" where
  "grown cs cs' \<longleftrightarrow> (\<exists>extra. cs' = cs @ extra \<and> (\<forall>c \<in> set extra. cell_count c = 0))"

definition clean ::
  "nat \<Rightarrow> nat \<Rightarrow> resource_id set \<Rightarrow> (('w, 'h, 'g) wire facade, cli_error, 'a) step \<Rightarrow> bool" where
  "clean dev k R m \<longleftrightarrow>
     (\<forall>st. in_step dev st \<and> R \<subseteq> live st \<and> minted dev st + k < id_capacity \<longrightarrow>
        (let st' = snd (m st) in
         in_step dev st' \<and> minted dev st' \<le> minted dev st + k \<and> grown (fa_cells st) (fa_cells st')))"

lemma cleanD:
  assumes "clean dev k R m" and "in_step dev st" and "R \<subseteq> live st" and "minted dev st + k < id_capacity"
  shows "in_step dev (snd (m st))" "minted dev (snd (m st)) \<le> minted dev st + k"
    "grown (fa_cells st) (fa_cells (snd (m st)))"
  using assms by (simp_all add: clean_def Let_def)

lemma grown_trans: "grown a b \<Longrightarrow> grown b c \<Longrightarrow> grown a c"
  unfolding grown_def by force

lemma grown_live: "grown (fa_cells st) (fa_cells st') \<Longrightarrow> live st' = live st"
  by (auto simp: grown_def live_def)

lemma clean_pure: "clean dev k R (ret a)" "clean dev k R (fail e)" "clean dev k R panic" "clean dev k R (lift_opt x)"
  by (simp_all add: clean_def grown_def Let_def lift_opt_def split: option.split)

lemma clean_andThen:
  fixes m :: "(('w, 'h, 'g) wire facade, cli_error, 'a) step"
  assumes "clean dev 0 R m" and "\<And>a. clean dev k R (f a)"
  shows "clean dev k R (andThen m f)"
  unfolding clean_def Let_def
proof (intro allI impI)
  fix st :: "('w, 'h, 'g) wire facade"
  assume st: "in_step dev st \<and> R \<subseteq> live st \<and> minted dev st + k < id_capacity"
  obtain r st' where m: "m st = (r, st')" by (rule prod.exhaust)
  note first = cleanD [OF assms(1), of st, unfolded m snd_conv]
  show "in_step dev (snd (andThen m f st)) \<and> minted dev (snd (andThen m f st)) \<le> minted dev st + k
    \<and> grown (fa_cells st) (fa_cells (snd (andThen m f st)))"
  proof (cases r)
    case (Ret a)
    have "R \<subseteq> live st'" using first(3) st grown_live [of st st'] by simp
    then show ?thesis
      using cleanD [OF assms(2) [of a], of st'] first st Ret by (auto simp: andThen_def m intro: grown_trans)
  qed (use first st in \<open>simp_all add: andThen_def m\<close>)
qed

lemma clean_let: "clean dev k R (f x) \<Longrightarrow> clean dev k R (let y = x in f y)"
  by simp

lemma snd_via_client: "snd (via_client m st) = snd (m st)"
  by (simp add: via_client_def split: prod.splits flow.splits)

text \<open>A step that is one call of the facade, and neither makes nor drops a handle.\<close>

lemma clean_facade_op:
  fixes m :: "(('w, 'h, 'g) wire facade, cli_error, 'a) step"
  assumes "benign srv" and "\<And>st. snd (m st) = facade_step (served net srv oc dbg) dev op st"
    and "\<And>st. fa_cells (snd (m st)) = fa_cells st" and "\<And>st. fa_minters (snd (m st)) = fa_minters st"
    and "supported (op_action op 0)" and "set (op_refs op) \<subseteq> R" and "\<And>st :: ('w, 'h, 'g) wire facade. holds_handles op dev st"
  shows "clean dev k R m"
  unfolding clean_def Let_def
proof (intro allI impI)
  fix st :: "('w, 'h, 'g) wire facade"
  assume st: "in_step dev st \<and> R \<subseteq> live st \<and> minted dev st + k < id_capacity"
  then have "op_allowed op dev st" using assms(5-7) by (auto simp: op_allowed_def)
  then have "in_step dev (snd (m st))"
    using in_step_step [OF _ assms(1), of dev st op net oc dbg] st assms(2) by simp
  then show "in_step dev (snd (m st)) \<and> minted dev (snd (m st)) \<le> minted dev st + k
    \<and> grown (fa_cells st) (fa_cells (snd (m st)))"
    using assms(3,4) by (simp add: minted_def grown_def)
qed

lemma clean_write:
  assumes "benign srv" and "RBuffer (hd_id b) \<in> R"
  shows "clean dev k R (tell (queue_write_buffer (served net srv oc dbg) b off data))"
  by (rule clean_facade_op [OF assms(1), where op = "OpWriteBuffer b off data" and net = net and oc = oc and dbg = dbg])
    (use assms(2) in \<open>auto simp: tell_def queue_write_buffer_def send_on_def\<close>)

lemma clean_submit:
  assumes "benign srv" and "set (concat (map (recording_refs \<circ> into_recording) cbs)) \<subseteq> R"
  shows "clean dev k R (via_client (queue_submit (served net srv oc dbg) cbs))"
  by (rule clean_facade_op [OF assms(1), where op = "OpSubmit cbs" and net = net and oc = oc and dbg = dbg])
    (use assms(2) in \<open>auto simp: snd_via_client queue_submit_def send_on_def split: sum.splits\<close>)

lemma clean_read:
  assumes "benign srv" and "RBuffer (hd_id b) \<in> R"
  shows "clean dev k R (via_client (read_all (served net srv oc dbg) b))"
  by (rule clean_facade_op [OF assms(1), where op = "OpRead b (Unbounded, Unbounded)" and net = net and oc = oc and dbg = dbg])
    (use assms(2) in \<open>auto simp: snd_via_client read_all_def served_wire.read_range_state\<close>)

text \<open>A call that makes a handle.\<close>

definition makes ::
  "('w, 'c) link \<Rightarrow> nat \<Rightarrow> 'w facade_op \<Rightarrow> ('c facade \<Rightarrow> ('k, 'z) handle_scheme \<times> 'c facade) \<Rightarrow>
     ('k id \<Rightarrow> resource_id) \<Rightarrow> (('k, 'z) handle_scheme \<Rightarrow> bool) \<Rightarrow> bool" where
  "makes lk dev op create wrap P \<longleftrightarrow>
     op_kind op \<noteq> None \<and> op_minter op dev = dev \<and> supported (op_action op 0)
     \<and> (\<forall>st. case create st of (h, st') \<Rightarrow>
          st' = facade_step lk dev op st \<and> hd_cell h = length (fa_cells st) \<and> P h
          \<and> fa_cells st' = fa_cells st @ [\<lparr>cell_resource = wrap (hd_id h), cell_count = 1\<rparr>])"

lemma makes_intros:
  "makes lk dev (OpCreateBuffer d1) (create_buffer_on lk dev d1) RBuffer (\<lambda>_. True)"
  "(case sm_source d2 of Wgsl _ \<Rightarrow> True | _ \<Rightarrow> False) \<Longrightarrow> makes lk dev (OpCreateShaderModule d2) (create_shader_module_on lk dev d2) RShaderModule (\<lambda>_. True)"
  "makes lk dev (OpCreateBindGroupLayout d3) (create_bind_group_layout_on lk dev d3) RBindGroupLayout (\<lambda>_. True)"
  "list_all (\<lambda>e. binding_supported (bge_resource e)) (bg_entries d4) \<Longrightarrow>
     makes lk dev (OpCreateBindGroup d4) (create_bind_group_on lk dev d4) RBindGroup (\<lambda>_. True)"
  "makes lk dev (OpCreatePipelineLayout d5) (create_pipeline_layout_on lk dev d5) RPipelineLayout (\<lambda>_. True)"
  "makes lk dev (OpCreateComputePipeline d6) (create_compute_pipeline_on lk dev d6) RComputePipeline (\<lambda>_. True)"
  "makes lk dev (OpCreateRenderPipeline d7) (create_render_pipeline_on lk dev d7) RRenderPipeline (\<lambda>_. True)"
  "makes lk dev (OpCreateTexture d8) (create_texture_on lk dev d8) RTexture (\<lambda>h. hd_minter h = dev)"
  "hd_minter t = dev \<Longrightarrow> makes lk dev (OpCreateView t d9) (create_view lk t d9) RTextureView (\<lambda>_. True)"
  by (simp_all add: makes_def create_on_defs mint_with_def new_handle_defs mint_defs send_on_def split: prod.split)

lemma holds_handles_makes: "op_kind op \<noteq> None \<Longrightarrow> op_minter op dev = dev \<Longrightarrow> holds_handles op dev st"
  by (cases op) simp_all

lemma drop_new_cell:
  assumes "fa_cells st = cs @ \<lparr>cell_resource = r, cell_count = 1\<rparr> # extra"
  shows "fa_cells (drop_cell (served net srv oc dbg) (length cs) st) = cs @ \<lparr>cell_resource = r, cell_count = 0\<rparr> # extra"
    "fa_minters (drop_cell (served net srv oc dbg) (length cs) st) = fa_minters st"
  using assms by (simp_all add: drop_cell_def Let_def spawn_destroy_def send_on_def)

lemma clean_let_handle:
  fixes body :: "('k, 'z) handle_scheme \<Rightarrow> (('w, 'h, 'g) wire facade, cli_error, 'a) step"
  assumes "benign srv" and "makes (served net srv oc dbg) dev op create wrap P" and "set (op_refs op) \<subseteq> R"
    and "\<And>h. P h \<Longrightarrow> clean dev k (insert (wrap (hd_id h)) R) (body h)"
  shows "clean dev (Suc k) R (let_handle (served net srv oc dbg) create body)"
  unfolding clean_def Let_def
proof (intro allI impI)
  fix st :: "('w, 'h, 'g) wire facade"
  assume st: "in_step dev st \<and> R \<subseteq> live st \<and> minted dev st + Suc k < id_capacity"
  let ?lk = "served net srv oc dbg"
  obtain h st1 where create: "create st = (h, st1)" by (rule prod.exhaust)
  have made: "st1 = facade_step ?lk dev op st" "hd_cell h = length (fa_cells st)" "P h"
    "fa_cells st1 = fa_cells st @ [\<lparr>cell_resource = wrap (hd_id h), cell_count = 1\<rparr>]"
    and op: "op_kind op \<noteq> None" "op_minter op dev = dev" "supported (op_action op 0)"
    using assms(2) create by (auto simp: makes_def split: prod.splits dest: spec [of _ st])
  have allowed: "op_allowed op dev st"
    using st op assms(3) holds_handles_makes [OF op(1,2)] by (auto simp: op_allowed_def)
  have st1: "in_step dev st1" "minted dev st1 \<le> Suc (minted dev st)"
    using in_step_step [OF _ assms(1) allowed] minted_step [OF _ assms(1) allowed] st made(1) by auto
  have "insert (wrap (hd_id h)) R \<subseteq> live st1"
    using st made(4) by (auto simp: live_eq)
  moreover have "minted dev st1 + k < id_capacity" using st st1(2) by linarith
  ultimately obtain r st2 where body: "body h st1 = (r, st2)" "in_step dev st2" "minted dev st2 \<le> minted dev st1 + k"
    "grown (fa_cells st1) (fa_cells st2)"
    using cleanD [OF assms(4) [OF made(3)] st1(1)] by (metis prod.collapse)
  obtain extra where cells: "fa_cells st2 = fa_cells st @ \<lparr>cell_resource = wrap (hd_id h), cell_count = 1\<rparr> # extra"
    "\<forall>c \<in> set extra. cell_count c = 0"
    using body(4) made(4) by (auto simp: grown_def)
  have ends: "snd (let_handle ?lk create body st) = drop_cell ?lk (length (fa_cells st)) st2"
    by (simp add: let_handle_def create body(1) drop_handle_def made(2))
  have "in_step dev (drop_cell ?lk (length (fa_cells st)) st2)"
    by (rule in_step_drop [OF body(2) assms(1)]) (simp_all add: cells(1))
  then show "in_step dev (snd (let_handle ?lk create body st))
    \<and> minted dev (snd (let_handle ?lk create body st)) \<le> minted dev st + Suc k
    \<and> grown (fa_cells st) (fa_cells (snd (let_handle ?lk create body st)))"
    using drop_new_cell [OF cells(1), of net srv oc dbg] body(3) st1(2) cells(2)
    by (simp add: ends minted_def grown_def)
qed

subsection \<open>The workloads\<close>

lemma via_client_andThen: "andThen (via_client m) (\<lambda>a. andThen (via_client (f a)) f') = andThen (via_client (andThen m f)) f'"
  by (auto simp: fun_eq_iff andThen_def via_client_def split: prod.split flow.split)

text \<open>A workload that connects and runs on its device; when the handshake fails nothing is left to clean up.\<close>

lemma handshake:
  assumes "(r, st) = andThen (via_client (request_adapter (served net srv oc dbg))) (\<lambda>_.
      andThen (via_client (request_device (served net srv oc dbg))) m) (fresh_client g)"
  obtains (connected) st0 where "connect_device (served net srv oc dbg) (fresh_client g) = (Ret 0, st0)" and "(r, st) = m 0 st0"
  | (refused) e where "r = Fail (ClientFailed e)" and "only_greets (fresh_client g) st" and "\<not> all_answered (wi_log (fa_client st))"
proof -
  let ?lk = "served net srv oc dbg"
  obtain r0 st0 where run: "connect_device ?lk (fresh_client g) = (r0, st0)" by (rule prod.exhaust)
  have eq: "(r, st) = (case r0 of Ret dev \<Rightarrow> m dev st0 | Fail e \<Rightarrow> (Fail (ClientFailed e), st0) | Panic \<Rightarrow> (Panic, st0))"
    using assms unfolding via_client_andThen connect_device_def [symmetric]
    by (simp add: andThen_def via_client_def run split: flow.split)
  from connect_device_greets(2) [OF run] show ?thesis
  proof
    assume "(\<exists>e. r0 = Fail e) \<and> fa_minters st0 = fa_minters (fresh_client g) \<and> \<not> all_answered (wi_log (fa_client st0))"
    then show ?thesis using refused connect_device_greets(1) [OF run] eq by auto
  next
    assume *: "r0 = Ret (length (fa_minters (fresh_client g))) \<and> st0 = (fresh_client g)\<lparr>
        fa_minters := fa_minters (fresh_client g) @ [new_minter], fa_client := (fa_client (fresh_client g))\<lparr>
        wi_log := wi_log (fa_client (fresh_client g)) @ [(Hello PROTOCOL_VERSION, Some (HelloAck PROTOCOL_VERSION)),
          (RequestAdapter, Some RespOk), (RequestDevice None, Some RespOk)],
        wi_stream := Opened, wi_next := wi_next (fa_client (fresh_client g)) + 3\<rparr>\<rparr>"
    then have "r0 = Ret 0" by (simp add: fresh_client_def)
    then show ?thesis using connected [OF run [unfolded \<open>r0 = Ret 0\<close>]] eq by simp
  qed
qed

lemma connected_clean:
  assumes "connect_device (served net srv oc dbg) (fresh_client g) = (Ret 0, st0)" and "clean 0 k {} m" and "k < 2 ^ 63"
  shows "in_step 0 (snd (m st0))" "live (snd (m st0)) = {}"
proof -
  note st0 = connected_state [OF assms(1)]
  have "minted 0 st0 + k < id_capacity" using assms(3) by (simp add: st0(4) id_capacity_def)
  note ends = cleanD [OF assms(2) st0(8) _ this]
  then have "live (snd (m st0)) = live st0" using grown_live by blast
  then show "in_step 0 (snd (m st0))" "live (snd (m st0)) = {}" using ends st0(6) by simp_all
qed

lemma greeted:
  assumes "only_greets (fresh_client g) st"
  shows "no_error (undisturbed (wi_log (fa_client st)))" "live st = {}" "wi_engine (fa_client st) = new_engine g"
  using assms greetings_harmless [of "wi_log (fa_client st)"] by (auto simp: only_greets_def fresh_client_def live_def)

lemma clean_after_handshake:
  assumes "clean 0 k {} (m 0)" and "k < 2 ^ 63"
    and "run = andThen (via_client (request_adapter (served net srv oc dbg))) (\<lambda>_.
      andThen (via_client (request_device (served net srv oc dbg))) m)"
  shows "no_error (undisturbed (wi_log (fa_client (snd (run (fresh_client g))))))
    \<and> live (snd (run (fresh_client g))) = {}"
proof -
  obtain r st where r: "run (fresh_client g) = (r, st)" by (rule prod.exhaust)
  from r [symmetric, unfolded assms(3)] show ?thesis
  proof (cases rule: handshake)
    case (connected st0)
    then show ?thesis
      using connected_clean [OF connected(1) assms(1,2)] by (simp add: r in_step_def connected(2) [symmetric])
  next
    case (refused e)
    then show ?thesis using greeted [OF refused(2)] by (simp add: r)
  qed
qed

lemma clean_if: "clean dev k R m \<Longrightarrow> clean dev k R m' \<Longrightarrow> clean dev k R (if b then m else m')"
  by simp

lemma clean_case_prod: "(\<And>x y. clean dev k R (f x y)) \<Longrightarrow> clean dev k R (case p of (x, y) \<Rightarrow> f x y)"
  by (cases p) simp

lemmas clean_handles = clean_let_handle [OF _ makes_intros(1)] clean_let_handle [OF _ makes_intros(2)]
  clean_let_handle [OF _ makes_intros(3)] clean_let_handle [OF _ makes_intros(4)] clean_let_handle [OF _ makes_intros(5)]
  clean_let_handle [OF _ makes_intros(6)] clean_let_handle [OF _ makes_intros(7)] clean_let_handle [OF _ makes_intros(8)]
  clean_let_handle [OF _ makes_intros(9)]

lemmas recorded =
  recording_refs_def into_recording_def finish_def create_command_encoder_def new_encoder_def begin_compute_pass_def
  compute_set_pipeline_def compute_set_bind_group_def dispatch_workgroups_def push_compute_def drop_compute_pass_def
  push_command_def copy_buffer_to_buffer_def begin_render_pass_def render_set_pipeline_def render_set_bind_group_def
  draw_def push_render_def drop_render_pass_def copy_texture_to_buffer_def color_attachment_ids_def color_refs_def
  depth_refs_def

lemma clean_double:
  assumes "benign srv"
  shows "clean dev (Suc (Suc (Suc (Suc (Suc (Suc (Suc 0))))))) {} (double_on_device ho (served net srv oc dbg) cnt dev)"
  unfolding double_on_device_def Let_def
  by (intro clean_handles [OF assms] clean_andThen clean_pure clean_if clean_write [OF assms] clean_submit [OF assms]
      clean_read [OF assms])
    (simp_all add: layout_refs_def recorded)

lemma clean_checkerboard:
  assumes "benign srv"
  shows "clean dev (Suc (Suc (Suc (Suc (Suc (Suc (Suc (Suc (Suc 0))))))))) {}
    (checkerboard_on_device ho (served net srv oc dbg) args dev)"
  unfolding checkerboard_on_device_def Let_def
  by (intro clean_handles [OF assms] clean_andThen clean_pure clean_case_prod clean_if clean_write [OF assms]
      clean_submit [OF assms] clean_read [OF assms])
    (simp_all add: layout_refs_def recorded)

lemma snd_andThen_ret: "snd (andThen m (\<lambda>a. ret (f a)) st) = snd (m st)"
  by (simp add: andThen_def split: prod.split flow.split)

lemma nothing_done: "no_error (undisturbed (wi_log (fa_client (fresh_client g)))) \<and> live (fresh_client g) = {}"
  by (simp add: fresh_client_def no_error_def live_def undisturbed_def)

lemma ping_greets:
  assumes "ping (served net srv oc dbg) (fresh_client g) = (r, st)"
  shows "only_greets (fresh_client g) st" "all_answered (wi_log (fa_client st)) \<Longrightarrow> r = Ret PROTOCOL_VERSION"
proof -
  obtain r1 st1 where run: "request_on (served net srv oc dbg) (Hello PROTOCOL_VERSION) (fresh_client g) = (r1, st1)" by (rule prod.exhaust)
  note hello = request_on_greets [OF run, of "HelloAck PROTOCOL_VERSION"]
  have "st = st1" using assms hello(3) by (auto simp: ping_def andThen_def via_client_def run split: flow.splits response.splits)
  then show "only_greets (fresh_client g) st" using hello(1) by simp
  show "r = Ret PROTOCOL_VERSION" if "all_answered (wi_log (fa_client st))"
    using assms hello(3) that \<open>st = st1\<close> by (auto simp: ping_def andThen_def via_client_def run)
qed

text \<open>C37: the workloads are well-behaved clients. Run against a fresh server whose device does not panic,
  each of them, whatever its parameters and whatever the device computes and the transport does, gets no
  error answer to anything it asks or sends, up to a create that is lost on the way, and ends with every
  resource it made without a handle, on success, on an error and on a panic of its own.\<close>

theorem workloads_are_clean:
  assumes "benign srv"
  shows "no_error (undisturbed (wi_log (fa_client (snd (run_workload ho (served net srv oc dbg) w (fresh_client g))))))
    \<and> live (snd (run_workload ho (served net srv oc dbg) w (fresh_client g))) = {}"
proof (cases w)
  case Ping
  obtain r st where run: "ping (served net srv oc dbg) (fresh_client g) = (r, st)" by (rule prod.exhaust)
  then show ?thesis using greeted [OF ping_greets(1) [OF run]] by (simp add: Ping run_workload_def snd_andThen_ret)
next
  case (ComputeDouble n)
  then show ?thesis
    using clean_after_handshake [where m = "double_on_device ho (served net srv oc dbg) n", OF clean_double [OF assms] _ refl, of net srv oc dbg g]
      nothing_done [of g]
    by (auto simp: run_workload_def snd_andThen_ret compute_double_def)
next
  case (RenderCheckerboard args)
  then show ?thesis
    using clean_after_handshake [where m = "checkerboard_on_device ho (served net srv oc dbg) args", OF clean_checkerboard [OF assms] _ refl, of net srv oc dbg g]
      nothing_done [of g]
    by (auto simp: run_workload_def snd_andThen_ret render_checkerboard_def)
qed

definition demo_host :: "nat host" where
  "demo_host =
     \<lparr>ho_literals = \<lparr>li_storage = 128, li_uniform = 64, li_map_read = 1, li_copy_src = 4, li_copy_dst = 8,
        li_double_shader = [], li_checkerboard_shader = [], li_storage_entry = (\<lambda>_. 0), li_uniform_entry = (\<lambda>_. 0),
        li_extent = (\<lambda>_ _ _. 0), li_d2 = 0, li_rgba8 = 0, li_target_usage = 0,
        li_default_view = \<lparr>tv_label = None, tv_format = None, tv_dimension = None, tv_usage = None, tv_aspect = 0,
          tv_base_mip_level = 0, tv_mip_level_count = None, tv_base_array_layer = 0, tv_array_layer_count = None\<rparr>,
        li_primitive = 0, li_multisample = 0, li_color_target = 0, li_clear_store = 0, li_origin_zero = 0,
        li_aspect_all = 0, li_copy_layout = (\<lambda>_ _ _. 0)\<rparr>,
      ho_big_endian = False, ho_overflow_checks = True\<rparr>"

theorem workloads_are_clean_witness:
  "live (snd (run_workload demo_host (served demo_net demo_service False demo_debug) (ComputeDouble 3) (fresh_client 0))) = {}"
  using workloads_are_clean [OF demo_benign] by simp

end
