(* ===== verification/Serializers.thy ===== *)
theory Serializers
  imports Commands Codec "HOL-Library.Countable"
begin

section \<open>A serializer for every recording\<close>

text \<open>
  bincode is a parameter of the model. There is a serializer that encodes every recording: the types of
  the messages are countable, so that a value can be written as its number, in unary. The properties that
  assume a serializer are witnessed with it where a table is too small.
\<close>

instance id :: (type) countable
  by (rule countable_classI [of "\<lambda>i. to_nat (raw i)"]) (simp add: id.expand)

instance image_copy_buffer_ext :: (countable, countable) countable
  by (rule countable_classI [of "\<lambda>r. to_nat (icb_buffer r, icb_layout r, image_copy_buffer.more r)"])
    (simp add: image_copy_buffer.equality)

instance image_copy_texture_ext :: (countable, countable) countable
  by (rule countable_classI [of "\<lambda>r. to_nat (ict_texture r, ict_mip_level r, ict_origin r, ict_aspect r, image_copy_texture.more r)"])
    (simp add: image_copy_texture.equality)

instance color_attachment_ext :: (countable, countable) countable
  by (rule countable_classI [of "\<lambda>r. to_nat (ca_view r, ca_depth_slice r, ca_resolve_target r, ca_ops r, color_attachment.more r)"])
    (simp add: color_attachment.equality)

instance depth_stencil_attachment_ext :: (countable, countable) countable
  by (rule countable_classI [of "\<lambda>r. to_nat (da_view r, da_depth_ops r, da_stencil_ops r, depth_stencil_attachment.more r)"])
    (simp add: depth_stencil_attachment.equality)

instance compute_command :: countable by countable_datatype

instance render_command :: (countable) countable by countable_datatype

instance encoder_command :: (countable) countable by countable_datatype

instance recording_ext :: (countable, countable) countable
  by (rule countable_classI [of "\<lambda>r. to_nat (rec_label r, rec_commands r, recording.more r)"]) (simp add: recording.equality)

definition unary_bincode :: "'a :: countable bincode" where
  "unary_bincode =
     \<lparr>bc_encode = (\<lambda>v. Inr (replicate (to_nat v) 1)), bc_decode = (\<lambda>b. Inr (from_nat (length b), length b))\<rparr>"

lemma unary_bincode_ok: "bincode_ok unary_bincode"
  by (simp add: bincode_ok_def unary_bincode_def)

lemma unary_bincode_total: "bc_encode unary_bincode v \<noteq> Inl e"
  by (simp add: unary_bincode_def)

end
