(* ===== verification/Remote.thy ===== *)
theory Remote
  imports Workload_Properties Serializers
begin

section \<open>Remote and local\<close>

text \<open>
  The workloads of \<open>bin/wgpu-remote-cli.rs\<close>, written once more against wgpu itself, as they would run on
  the machine that has the GPU: no ids, no messages, no engine. The theorems of this theory say that the
  remote programs are these local ones, call for call: the server's device ends in the same state, and
  the program in the same result, unless the client fails to serialise its command buffer.

  What the server does on top is visible in the local programs: it submits nothing after every buffer
  write, to flush it.
\<close>

subsection \<open>The local programs\<close>

definition direct :: "('g, response, 'a) step \<Rightarrow> ('g, cli_error, 'a) step" where
  "direct m g =
     (case m g of (Ret a, g') \<Rightarrow> (Ret a, g') | (Fail _, g') \<Rightarrow> (Panic, g') | (Panic, g') \<Rightarrow> (Panic, g'))"

definition local_write :: "('w, 'h, 'g) wgpu \<Rightarrow> 'h \<Rightarrow> u64 \<Rightarrow> bytes \<Rightarrow> ('g, cli_error, unit) step" where
  "local_write d h off data =
     andThen (direct (gpu_exec d (QueueWriteBuffer h off data))) (\<lambda>_. direct (gpu_exec d (QueueSubmit [])))"

definition local_submit ::
  "('w, 'h, 'g) wgpu \<Rightarrow> string option \<Rightarrow> ('h \<Rightarrow> ('g, response, unit) step) \<Rightarrow> ('g, cli_error, unit) step" where
  "local_submit d label body =
     andThen (direct (gpu_create d (MkCommandEncoder label))) (\<lambda>encoder.
     andThen (direct (body encoder)) (\<lambda>_.
     andThen (direct (gpu_create d (FinishEncoder encoder))) (\<lambda>cb.
       direct (gpu_exec d (QueueSubmit [cb])))))"

definition local_read :: "('w, 'h, 'g) wgpu \<Rightarrow> 'h \<Rightarrow> u64 \<Rightarrow> ('g, cli_error, bytes) step" where
  "local_read d h len =
     (let whole = \<lparr>gsl_buffer = h, gsl_start = 0, gsl_end = Some len\<rparr> in
      andThen (direct (gpu_map_async d whole)) (\<lambda>r.
        if r = MapOk then
          andThen (direct (gpu_mapped_range d whole)) (\<lambda>bytes.
          andThen (direct (gpu_exec d (UnmapBuffer h))) (\<lambda>_. ret bytes))
        else fail (Bailed ''mapping failed'')))"

definition local_double :: "('w, 'h, 'g) wgpu \<Rightarrow> 'w host \<Rightarrow> u32 \<Rightarrow> ('g, cli_error, unit) step" where
  "local_double d ho cnt =
     (let li = ho_literals ho;
          input = double_input cnt;
          input_bytes = concat (map (u32_to_ne_bytes (ho_big_endian ho)) input);
          buffer_size = of_nat (length input_bytes);
          create = \<lambda>call. direct (gpu_create d call)
      in
      if cnt = 0 then fail (Bailed ''--count must be at least 1'')
      else
        andThen (create (MkBuffer \<lparr>bd_label = Some ''storage'', bd_size = buffer_size,
            bd_usage = or (or (li_storage li) (li_copy_dst li)) (li_copy_src li), bd_mapped_at_creation = False\<rparr>)) (\<lambda>storage.
        andThen (create (MkBuffer \<lparr>bd_label = Some ''staging'', bd_size = buffer_size,
            bd_usage = or (li_copy_dst li) (li_map_read li), bd_mapped_at_creation = False\<rparr>)) (\<lambda>staging.
        andThen (local_write d storage 0 input_bytes) (\<lambda>_.
        andThen (create (MkShaderModule (Some ''double'') (li_double_shader li))) (\<lambda>shader.
        andThen (create (MkBindGroupLayout \<lparr>bgl_label = Some ''storage-bgl'', bgl_entries = [li_storage_entry li buffer_size]\<rparr>)) (\<lambda>bgl.
        andThen (create (MkBindGroup \<lparr>gbg_label = Some ''storage-bg'', gbg_layout = bgl,
            gbg_entries = [(0, GBuffer storage 0 None)]\<rparr>)) (\<lambda>bind_group.
        andThen (create (MkPipelineLayout \<lparr>gpl_label = Some ''compute-layout'', gpl_bind_group_layouts = [bgl],
            gpl_push_constant_ranges = []\<rparr>)) (\<lambda>pipeline_layout.
        andThen (create (MkComputePipeline \<lparr>gcp_label = Some ''double-pipeline'', gcp_layout = Some pipeline_layout,
            gcp_module = shader, gcp_entry_point = Some ''main'', gcp_constants = []\<rparr>)) (\<lambda>pipeline.
        andThen (local_submit d (Some ''double-cmds'') (\<lambda>encoder.
          andThen (with_pass d (MkComputePass encoder (Some ''double-pass'')) (\<lambda>pass.
            andThen (gpu_exec d (PassSetPipeline pass pipeline)) (\<lambda>_.
            andThen (gpu_exec d (PassSetBindGroup pass 0 bind_group [])) (\<lambda>_.
              gpu_exec d (PassDispatchWorkgroups pass cnt 1 1))))) (\<lambda>_.
            gpu_exec d (EncCopyBufferToBuffer encoder storage 0 staging 0 buffer_size)))) (\<lambda>_.
        andThen (local_read d staging buffer_size) (\<lambda>bytes.
          let output = u32s_of (ho_big_endian ho) bytes in
          andThen (lift_opt (those (map (\<lambda>n. mul_u32 (ho_overflow_checks ho) n 2) input))) (\<lambda>expected.
            if output = expected then ret () else fail (Bailed ''output did not match expected'')))))))))))))"

definition local_checkerboard ::
  "('w, 'h, 'g) wgpu \<Rightarrow> 'w host \<Rightarrow> checkerboard_args \<Rightarrow> ('g, cli_error, ppm_target \<times> string \<times> bytes) step" where
  "local_checkerboard d ho args =
     (let li = ho_literals ho; oc = ho_overflow_checks ho; ne = u32_to_ne_bytes (ho_big_endian ho);
          create = \<lambda>call. direct (gpu_create d call)
      in
      if cb_width args = 0 \<or> cb_height args = 0 \<or> cb_tile args = 0
      then fail (Bailed ''--width, --height, and --tile must all be at least 1'')
      else
        andThen (create (MkTexture \<lparr>td_label = Some ''checkerboard'', td_size = li_extent li (cb_width args) (cb_height args) 1,
            td_mip_level_count = 1, td_sample_count = 1, td_dimension = li_d2 li, td_format = li_rgba8 li,
            td_usage = li_target_usage li, td_view_formats = []\<rparr>)) (\<lambda>texture.
        andThen (create (MkTextureView texture (li_default_view li))) (\<lambda>view.
        andThen (lift_opt (staging_layout oc (cb_width args) (cb_height args))) (\<lambda>(padded_bpr, staging_size).
        andThen (create (MkBuffer \<lparr>bd_label = Some ''params'', bd_size = 16, bd_usage = or (li_uniform li) (li_copy_dst li),
            bd_mapped_at_creation = False\<rparr>)) (\<lambda>uniform.
        andThen (local_write d uniform 0 (ne (cb_tile args) @ ne (cb_width args) @ ne (cb_height args) @ ne 0)) (\<lambda>_.
        andThen (create (MkBuffer \<lparr>bd_label = Some ''staging'', bd_size = staging_size, bd_usage = or (li_copy_dst li) (li_map_read li),
            bd_mapped_at_creation = False\<rparr>)) (\<lambda>staging.
        andThen (create (MkBindGroupLayout \<lparr>bgl_label = Some ''params-bgl'', bgl_entries = [li_uniform_entry li 16]\<rparr>)) (\<lambda>bgl.
        andThen (create (MkBindGroup \<lparr>gbg_label = Some ''params-bg'', gbg_layout = bgl,
            gbg_entries = [(0, GBuffer uniform 0 None)]\<rparr>)) (\<lambda>bind_group.
        andThen (create (MkPipelineLayout \<lparr>gpl_label = Some ''checker-layout'', gpl_bind_group_layouts = [bgl],
            gpl_push_constant_ranges = []\<rparr>)) (\<lambda>pipeline_layout.
        andThen (create (MkShaderModule (Some ''checkerboard'') (li_checkerboard_shader li))) (\<lambda>shader.
        andThen (create (MkRenderPipeline
            \<lparr>grp_label = Some ''checker-pipe'', grp_layout = Some pipeline_layout,
             grp_vertex = \<lparr>gvs_module = shader, gvs_entry_point = Some ''vs_main'', gvs_constants = [], gvs_buffers = []\<rparr>,
             grp_primitive = li_primitive li, grp_depth_stencil = None, grp_multisample = li_multisample li,
             grp_fragment = Some \<lparr>gfs_module = shader, gfs_entry_point = Some ''fs_main'', gfs_constants = [],
               gfs_targets = [Some (li_color_target li)]\<rparr>,
             grp_multiview = None\<rparr>)) (\<lambda>pipeline.
        andThen (local_submit d (Some ''checker-cmds'') (\<lambda>encoder.
          andThen (with_pass d (MkRenderPass encoder (Some ''checker-pass'')
              [Some \<lparr>gca_view = view, gca_depth_slice = None, gca_resolve_target = None, gca_ops = li_clear_store li\<rparr>] None) (\<lambda>pass.
            andThen (gpu_exec d (PassSetPipeline pass pipeline)) (\<lambda>_.
            andThen (gpu_exec d (PassSetBindGroup pass 0 bind_group [])) (\<lambda>_.
              gpu_exec d (PassDraw pass (0, 3) (0, 1)))))) (\<lambda>_.
            gpu_exec d (EncCopyTextureToBuffer encoder
              \<lparr>gct_texture = texture, gct_mip_level = 0, gct_origin = li_origin_zero li, gct_aspect = li_aspect_all li\<rparr>
              \<lparr>gcb_buffer = staging, gcb_layout = li_copy_layout li 0 (Some padded_bpr) (Some (cb_height args))\<rparr>
              (li_extent li (cb_width args) (cb_height args) 1))))) (\<lambda>_.
        andThen (local_read d staging staging_size) (\<lambda>raw_bytes.
        andThen (lift_opt (strip_padding oc raw_bytes (cb_width args) (cb_height args) padded_bpr)) (\<lambda>rgb.
          ret (if cb_output args = ''-'' then ToStdout else ToFile (cb_output args),
               ppm_header (cb_width args) (cb_height args), rgb))))))))))))))))"

subsection \<open>The handles behind the ids\<close>

fun handle_of :: "'h resource_tables \<Rightarrow> resource_id \<Rightarrow> 'h option" where
  "handle_of t (RBuffer i) = buffers t i"
| "handle_of t (RTexture i) = textures t i"
| "handle_of t (RTextureView i) = texture_views t i"
| "handle_of t (RSampler i) = samplers t i"
| "handle_of t (RShaderModule i) = shader_modules t i"
| "handle_of t (RBindGroupLayout i) = bind_group_layouts t i"
| "handle_of t (RBindGroup i) = bind_groups t i"
| "handle_of t (RPipelineLayout i) = pipeline_layouts t i"
| "handle_of t (RRenderPipeline i) = render_pipelines t i"
| "handle_of t (RComputePipeline i) = compute_pipelines t i"
| "handle_of t (RDevice i) = None"
| "handle_of t (RQueue i) = None"
| "handle_of t (RCommandBuffer i) = None"

abbreviation gpu_of :: "('w, 'h, 'g) wire facade \<Rightarrow> 'g" where
  "gpu_of st \<equiv> eng_gpu (wi_engine (fa_client st))"

abbreviation tables_of :: "('w, 'h, 'g) wire facade \<Rightarrow> 'h resource_tables" where
  "tables_of st \<equiv> eng_tables (wi_engine (fa_client st))"

definition held :: "('w, 'h, 'g) wire facade \<Rightarrow> (resource_id \<times> 'h) set" where
  "held st = {(r, h). r \<in> live st \<and> handle_of (tables_of st) r = Some h}"

lemma handle_of_insert:
  "handle_of (insert_in buffers_update i1 h t) = (handle_of t)(RBuffer i1 \<mapsto> h)"
  "handle_of (insert_in textures_update i2 h t) = (handle_of t)(RTexture i2 \<mapsto> h)"
  "handle_of (insert_in texture_views_update i3 h t) = (handle_of t)(RTextureView i3 \<mapsto> h)"
  "handle_of (insert_in shader_modules_update i4 h t) = (handle_of t)(RShaderModule i4 \<mapsto> h)"
  "handle_of (insert_in bind_group_layouts_update i5 h t) = (handle_of t)(RBindGroupLayout i5 \<mapsto> h)"
  "handle_of (insert_in bind_groups_update i6 h t) = (handle_of t)(RBindGroup i6 \<mapsto> h)"
  "handle_of (insert_in pipeline_layouts_update i7 h t) = (handle_of t)(RPipelineLayout i7 \<mapsto> h)"
  "handle_of (insert_in render_pipelines_update i8 h t) = (handle_of t)(RRenderPipeline i8 \<mapsto> h)"
  "handle_of (insert_in compute_pipelines_update i9 h t) = (handle_of t)(RComputePipeline i9 \<mapsto> h)"
  by (rule ext, rename_tac r, case_tac r; simp add: insert_in_def)+

subsection \<open>Mirroring\<close>

text \<open>
  A remote step mirrors a local one when, from any state in which the resources it uses have live handles
  and the server's tables hold for them the handles the local step uses, and if every action on the wire
  has been answered when it ends, it has the same result and the same effect on the device, and keeps
  those handles. It may instead fail to encode a command buffer.
\<close>

abbreviation answered :: "('w, 'h, 'g) wire facade \<Rightarrow> bool" where
  "answered st \<equiv> all_answered (wi_log (fa_client st))"

definition encode_failed :: "('w, 'h, 'g) server \<Rightarrow> (cli_error, 'a) flow \<Rightarrow> bool" where
  "encode_failed srv r \<longleftrightarrow>
     (\<exists>e recording. encode_recording (srv_recordings srv) recording = Inl e \<and> r = Fail (ClientFailed (EncodeFailed e)))"

definition mirrors ::
  "'w net \<Rightarrow> ('w, 'h, 'g) server \<Rightarrow> nat \<Rightarrow> nat \<Rightarrow> (resource_id \<times> 'h) set \<Rightarrow> (('w, 'h, 'g) wire facade, cli_error, 'a) step \<Rightarrow>
     ('g, cli_error, 'a) step \<Rightarrow> bool" where
  "mirrors net srv dev k H m l \<longleftrightarrow>
     clean dev k (fst ` H) m \<and> wired net srv (\<lambda>st. snd (m st))
     \<and> (\<forall>st. in_step dev st \<and> H \<subseteq> held st \<and> minted dev st + k < id_capacity \<and> answered (snd (m st)) \<longrightarrow>
          encode_failed srv (fst (m st))
          \<or> (fst (m st) = fst (l (gpu_of st)) \<and> gpu_of (snd (m st)) = snd (l (gpu_of st)) \<and> H \<subseteq> held (snd (m st))))"

lemma mirrorsI:
  assumes "clean dev k (fst ` H) m" and "wired net srv (\<lambda>st. snd (m st))"
    and "\<And>st. in_step dev st \<Longrightarrow> H \<subseteq> held st \<Longrightarrow> minted dev st + k < id_capacity \<Longrightarrow> answered (snd (m st)) \<Longrightarrow>
      encode_failed srv (fst (m st))
      \<or> (fst (m st) = fst (l (gpu_of st)) \<and> gpu_of (snd (m st)) = snd (l (gpu_of st)) \<and> H \<subseteq> held (snd (m st)))"
  shows "mirrors net srv dev k H m l"
  using assms unfolding mirrors_def by blast

lemma mirrors_clean: "mirrors net srv dev k H m l \<Longrightarrow> clean dev k (fst ` H) m"
  by (simp add: mirrors_def)

lemma mirrors_wired: "mirrors net srv dev k H m l \<Longrightarrow> wired net srv (\<lambda>st. snd (m st))"
  by (simp add: mirrors_def)

lemma mirrorsD:
  assumes "mirrors net srv dev k H m l" and "in_step dev st" and "H \<subseteq> held st" and "minted dev st + k < id_capacity"
    and "answered (snd (m st))" and "\<not> encode_failed srv (fst (m st))"
  shows "fst (m st) = fst (l (gpu_of st))" "gpu_of (snd (m st)) = snd (l (gpu_of st))" "H \<subseteq> held (snd (m st))"
  using assms unfolding mirrors_def by blast+

lemma wired_answered: "wired net srv f \<Longrightarrow> answered (f st) \<Longrightarrow> answered st"
  unfolding wired_def using wire_run_answered by blast

lemma wired_comp:
  assumes "wired net srv f" and "wired net srv f'"
  shows "wired net srv (\<lambda>st. f' (f st))"
  unfolding wired_def
proof
  fix st
  show "(wire_step net srv)\<^sup>*\<^sup>* (fa_client st) (fa_client (f' (f st)))"
    using rtranclp_trans [OF assms(1) [unfolded wired_def, rule_format] assms(2) [unfolded wired_def, rule_format]] .
qed

lemma wired_andThen:
  assumes "wired net srv (\<lambda>st. snd (m st))" and "\<And>a. wired net srv (\<lambda>st. snd (f a st))"
  shows "wired net srv (\<lambda>st. snd (andThen m f st))"
  unfolding wired_def
proof
  fix st
  obtain r st1 where m: "m st = (r, st1)" by (rule prod.exhaust)
  have first: "(wire_step net srv)\<^sup>*\<^sup>* (fa_client st) (fa_client st1)"
    using assms(1) [unfolded wired_def, rule_format, of st] by (simp add: m)
  show "(wire_step net srv)\<^sup>*\<^sup>* (fa_client st) (fa_client (snd (andThen m f st)))"
  proof (cases r)
    case (Ret a)
    then show ?thesis
      using rtranclp_trans [OF first assms(2) [unfolded wired_def, rule_format]] by (simp add: andThen_def m)
  qed (use first in \<open>simp_all add: andThen_def m\<close>)
qed

text \<open>A step that is one call of the facade.\<close>

lemma wired_call: "(\<And>st. snd (m st) = facade_step (served net srv oc dbg) dev op st) \<Longrightarrow> wired net srv (\<lambda>st. snd (m st))"
  using wired_facade_step [of net srv oc dbg dev op] by simp

lemma held_live: "H \<subseteq> held st \<Longrightarrow> fst ` H \<subseteq> live st"
  by (auto simp: held_def)

lemma mirrors_pure:
  "mirrors net srv dev k H (ret a) (ret a)" "mirrors net srv dev k H (fail e) (fail e)" "mirrors net srv dev k H (lift_opt x) (lift_opt x)"
  by (rule mirrorsI; simp add: clean_pure wired_def lift_opt_def split: option.split)+

lemma mirrors_andThen:
  fixes m :: "(('w, 'h, 'g) wire facade, cli_error, 'a) step"
  assumes "mirrors net srv dev 0 H m l" and "\<And>a. mirrors net srv dev k H (f a) (f' a)"
  shows "mirrors net srv dev k H (andThen m f) (andThen l f')"
proof (rule mirrorsI)
  show "clean dev k (fst ` H) (andThen m f)"
    using clean_andThen [OF mirrors_clean [OF assms(1)]] mirrors_clean [OF assms(2)] by blast
  show "wired net srv (\<lambda>st. snd (andThen m f st))"
    by (rule wired_andThen [OF mirrors_wired [OF assms(1)] mirrors_wired [OF assms(2)]])
next
  fix st :: "('w, 'h, 'g) wire facade"
  assume st: "in_step dev st" "H \<subseteq> held st" "minted dev st + k < id_capacity" and end_answered: "answered (snd (andThen m f st))"
  then have room: "minted dev st + 0 < id_capacity" by simp
  obtain r st1 where m: "m st = (r, st1)" by (rule prod.exhaust)
  have mid: "answered st1"
  proof (cases r)
    case (Ret a)
    then show ?thesis
      using end_answered wired_answered [OF mirrors_wired [OF assms(2) [of a]], of st1] by (simp add: andThen_def m)
  qed (use end_answered in \<open>simp_all add: andThen_def m\<close>)
  note kept = cleanD [OF mirrors_clean [OF assms(1)] st(1) held_live [OF st(2)] room, unfolded m snd_conv]
  show "encode_failed srv (fst (andThen m f st))
    \<or> (fst (andThen m f st) = fst (andThen l f' (gpu_of st)) \<and> gpu_of (snd (andThen m f st)) = snd (andThen l f' (gpu_of st))
      \<and> H \<subseteq> held (snd (andThen m f st)))"
  proof (cases "encode_failed srv r")
    case True
    then show ?thesis by (auto simp: encode_failed_def andThen_def m)
  next
    case False
    note same = mirrorsD [OF assms(1) st(1,2) room, unfolded m fst_conv snd_conv, OF mid False]
    then have l: "l (gpu_of st) = (r, gpu_of st1)" by (simp add: prod_eq_iff)
    show ?thesis
    proof (cases r)
      case (Ret a)
      have "minted dev st1 + k < id_capacity" and "answered (snd (f a st1))"
        using kept(2) st(3) end_answered by (simp_all add: andThen_def m Ret)
      then have "encode_failed srv (fst (f a st1)) \<or> (fst (f a st1) = fst (f' a (gpu_of st1))
          \<and> gpu_of (snd (f a st1)) = snd (f' a (gpu_of st1)) \<and> H \<subseteq> held (snd (f a st1)))"
        using assms(2) [of a] kept(1) same(3) unfolding mirrors_def by blast
      then show ?thesis by (simp add: andThen_def m l Ret)
    qed (use same(3) in \<open>simp_all add: andThen_def m l\<close>)
  qed
qed

lemma mirrors_if: "mirrors net srv dev k H m l \<Longrightarrow> mirrors net srv dev k H m' l' \<Longrightarrow> mirrors net srv dev k H (if b then m else m') (if b then l else l')"
  by simp

lemma mirrors_case_prod:
  "(\<And>x y. mirrors net srv dev k H (f x y) (f' x y)) \<Longrightarrow> mirrors net srv dev k H (case p of (x, y) \<Rightarrow> f x y) (case p of (x, y) \<Rightarrow> f' x y)"
  by (cases p) simp

subsection \<open>Calls of the facade\<close>

lemma direct_eq: "m g = (Ret a, g') \<Longrightarrow> direct m g = (Ret a, g')"
  by (simp add: direct_def)

lemma held_cong: "fa_cells st' = fa_cells st \<Longrightarrow> tables_of st' = tables_of st \<Longrightarrow> held st' = held st"
  by (simp add: held_def live_def)

lemma held_handle: "(r, h) \<in> H \<Longrightarrow> H \<subseteq> held st \<Longrightarrow> handle_of (tables_of st) r = Some h"
  by (auto simp: held_def)

abbreviation agree :: "(resource_id \<times> 'h) set \<Rightarrow> 'h resource_tables \<Rightarrow> bool" where
  "agree H t \<equiv> \<forall>p \<in> H. handle_of t (fst p) = Some (snd p)"

lemma held_agree: "H \<subseteq> held st \<Longrightarrow> agree H (tables_of st)"
  by (auto simp: held_def)

lemma handle_eq: "handle_action srv act s = (Ret r, s') \<Longrightarrow> handle srv act s = (Ret (Some r), s')"
  by (simp add: handle_def answer_def andThen_def)

text \<open>An action that was answered has been handled.\<close>

lemma deliver_eq:
  assumes "all_answered (wi_log (snd (deliver net srv act w)))" and "handle srv act (wi_engine w) = (Ret (Some r), s')"
  shows "fst (deliver net srv act w) = Inr r" "wi_engine (snd (deliver net srv act w)) = s'"
proof -
  obtain x w' where d: "deliver net srv act w = (x, w')" by (rule prod.exhaust)
  obtain y where "x = Inr y" using assms(1) deliver_log(1) [OF d] by (cases x) (auto simp: d all_answered_def)
  then show "fst (deliver net srv act w) = Inr r" "wi_engine (snd (deliver net srv act w)) = s'"
    using deliver_Inr [of net srv act w y w'] assms(2) by (auto simp: d)
qed

lemma transmit_eq:
  assumes "all_answered (wi_log (transmit net srv act w))" and "handle srv act (wi_engine w) = (Ret (Some r), s')"
  shows "wi_engine (transmit net srv act w) = s'"
  using assms deliver_eq(2) [OF _ assms(2), of net] by (auto simp: transmit_def logged_def all_answered_def split: if_splits)

lemma benign_gpu:
  assumes "benign srv"
  shows "\<exists>h g'. gpu_create (srv_device srv) c g = (Ret h, g')" "\<exists>g'. gpu_exec (srv_device srv) x g = (Ret (), g')"
    "\<exists>g'. gpu_map_async (srv_device srv) sl g = (Ret MapOk, g')" "\<exists>b g'. gpu_mapped_range (srv_device srv) sl g = (Ret b, g')"
proof -
  have d: "never_panics (srv_device srv)" "maps_succeed (srv_device srv)" using assms by (simp_all add: benign_def)
  show "\<exists>h g'. gpu_create (srv_device srv) c g = (Ret h, g')" "\<exists>g'. gpu_exec (srv_device srv) x g = (Ret (), g')"
    "\<exists>b g'. gpu_mapped_range (srv_device srv) sl g = (Ret b, g')"
    using gpu_call_Ret [OF d(1)] by blast+
  have "fst (wg_map_async (srv_device srv) sl g) = Some MapOk"
    using d unfolding never_panics_def maps_succeed_def by blast
  then show "\<exists>g'. gpu_map_async (srv_device srv) sl g = (Ret MapOk, g')"
    by (cases "wg_map_async (srv_device srv) sl g") (simp add: gpu_map_async_def)
qed

text \<open>Device steps that return.\<close>

definition goes :: "('g, response, 'a) step \<Rightarrow> bool" where
  "goes m \<longleftrightarrow> (\<forall>g. \<exists>a g'. m g = (Ret a, g'))"

lemma goes_call: "benign srv \<Longrightarrow> goes (gpu_create (srv_device srv) c)" "benign srv \<Longrightarrow> goes (gpu_exec (srv_device srv) x)"
  unfolding goes_def by (metis benign_gpu(1), metis benign_gpu(2))

lemma goes_andThen: "goes m \<Longrightarrow> (\<And>a. goes (f a)) \<Longrightarrow> goes (andThen m f)"
  unfolding goes_def by (simp add: andThen_eq_Ret) metis

lemma goes_with_pass: "benign srv \<Longrightarrow> (\<And>p. goes (body p)) \<Longrightarrow> goes (with_pass (srv_device srv) b body)"
  unfolding with_pass_def
proof (rule goes_andThen [OF goes_call(1)])
  fix p
  assume "benign srv" and body: "\<And>p. goes (body p)"
  show "goes (\<lambda>g. case body p g of (Ret u, g') \<Rightarrow> gpu_exec (srv_device srv) (EndPass p) g'
      | (Fail e, g') \<Rightarrow> andThen (gpu_exec (srv_device srv) (EndPass p)) (\<lambda>_. fail e) g' | (Panic, g') \<Rightarrow> (Panic, g'))"
    unfolding goes_def
  proof
    fix g
    obtain u g' where "body p g = (Ret u, g')" using body unfolding goes_def by blast
    then show "\<exists>a g''. (case body p g of (Ret u, g') \<Rightarrow> gpu_exec (srv_device srv) (EndPass p) g'
      | (Fail e, g') \<Rightarrow> andThen (gpu_exec (srv_device srv) (EndPass p)) (\<lambda>_. fail e) g' | (Panic, g') \<Rightarrow> (Panic, g')) = (Ret a, g'')"
      using benign_gpu(2) [OF \<open>benign srv\<close>] by fastforce
  qed
qed

lemma goes_unit: "goes m \<Longrightarrow> \<exists>g'. m g = (Ret (), g')"
  unfolding goes_def by simp

lemma mirrors_write:
  assumes "benign srv" and "(RBuffer (hd_id b), h) \<in> H"
  shows "mirrors net srv dev k H (tell (queue_write_buffer (served net srv oc dbg) b off data)) (local_write (srv_device srv) h off data)"
proof (rule mirrorsI)
  show "clean dev k (fst ` H) (tell (queue_write_buffer (served net srv oc dbg) b off data))"
    using assms(2) by (intro clean_write [OF assms(1)]) force
  show "wired net srv (\<lambda>st. snd (tell (queue_write_buffer (served net srv oc dbg) b off data) st))"
    by (rule wired_call [of _ net srv oc dbg dev "OpWriteBuffer b off data"]) (simp add: tell_def)
next
  fix st :: "('a, 'b, 'c) wire facade"
  let ?s = "wi_engine (fa_client st)"
  assume "in_step dev st" and H: "H \<subseteq> held st"
    and "answered (snd (tell (queue_write_buffer (served net srv oc dbg) b off data) st))"
  then have st: "all_answered (wi_log (transmit net srv (WriteBuffer (hd_id b) off data) (fa_client st)))" "\<not> eng_poisoned ?s"
    by (simp_all add: in_step_def tell_def queue_write_buffer_def send_on_def)
  have h: "buffers (eng_tables ?s) (hd_id b) = Some h" using held_handle [OF assms(2) H] by simp
  obtain g1 g2 where e: "gpu_exec (srv_device srv) (QueueWriteBuffer h off data) (gpu_of st) = (Ret (), g1)"
    "gpu_exec (srv_device srv) (QueueSubmit []) g1 = (Ret (), g2)"
    using benign_gpu(2) [OF assms(1)] by metis
  have "handle srv (WriteBuffer (hd_id b) off data) ?s = (Ret (Some RespOk), ?s\<lparr>eng_gpu := g2\<rparr>)"
    using st(2) h e by (intro handle_eq) (simp add: write_buffer_def with_buffer_def locked_def andThen_def on_gpu_def)
  note delivered = transmit_eq [OF st(1) this]
  show "encode_failed srv (fst (tell (queue_write_buffer (served net srv oc dbg) b off data) st)) \<or>
      (fst (tell (queue_write_buffer (served net srv oc dbg) b off data) st) = fst (local_write (srv_device srv) h off data (gpu_of st))
       \<and> gpu_of (snd (tell (queue_write_buffer (served net srv oc dbg) b off data) st)) = snd (local_write (srv_device srv) h off data (gpu_of st))
       \<and> H \<subseteq> held (snd (tell (queue_write_buffer (served net srv oc dbg) b off data) st)))"
    using H e by (auto simp: tell_def queue_write_buffer_def send_on_def delivered local_write_def andThen_def direct_def
        held_def live_def)
qed

lemma mirrors_submit:
  assumes "benign srv" and "set (recording_refs (into_recording cb)) \<subseteq> fst ` H"
    and "label = rec_label (into_recording cb)"
    and "\<And>t enc. agree H t \<Longrightarrow>
      for_each (replay_encoder_command srv t enc) (rec_commands (into_recording cb)) = body enc"
    and "\<And>enc. goes (body enc)"
  shows "mirrors net srv dev k H (via_client (queue_submit (served net srv oc dbg) [cb])) (local_submit (srv_device srv) label body)"
proof (rule mirrorsI)
  show "clean dev k (fst ` H) (via_client (queue_submit (served net srv oc dbg) [cb]))"
    using assms(2) by (intro clean_submit [OF assms(1)]) simp
  show "wired net srv (\<lambda>st. snd (via_client (queue_submit (served net srv oc dbg) [cb]) st))"
    by (rule wired_call [of _ net srv oc dbg dev "OpSubmit [cb]"]) (simp add: snd_via_client)
next
  fix st :: "('a, 'b, 'c) wire facade"
  let ?s = "wi_engine (fa_client st)" and ?d = "srv_device srv" and ?r = "into_recording cb"
  assume "in_step dev st" and H: "H \<subseteq> held st"
    and ended: "answered (snd (via_client (queue_submit (served net srv oc dbg) [cb]) st))"
  then have st: "\<not> eng_poisoned ?s" by (simp add: in_step_def)
  let ?m = "via_client (queue_submit (served net srv oc dbg) [cb]) st" and ?l = "local_submit ?d label body (gpu_of st)"
  show "encode_failed srv (fst ?m) \<or> (fst ?m = fst ?l \<and> gpu_of (snd ?m) = snd ?l \<and> H \<subseteq> held (snd ?m))"
  proof (cases "encode_recording (srv_recordings srv) ?r")
    case (Inl e)
    then show ?thesis by (auto simp: via_client_def queue_submit_def encode_failed_def)
  next
    case (Inr payload)
    have dec: "decode_recording (srv_recordings srv) payload = Inr ?r"
      using Inr assms(1) by (intro decode_encode_recording) (simp_all add: benign_def)
    obtain enc g1 where e1: "gpu_create ?d (MkCommandEncoder label) (gpu_of st) = (Ret enc, g1)"
      using benign_gpu(1) [OF assms(1)] by metis
    obtain g2 where e2: "body enc g1 = (Ret (), g2)" using goes_unit [OF assms(5)] by blast
    obtain c g3 where e3: "gpu_create ?d (FinishEncoder enc) g2 = (Ret c, g3)"
      using benign_gpu(1) [OF assms(1)] by metis
    obtain g4 where e4: "gpu_exec ?d (QueueSubmit [c]) g3 = (Ret (), g4)"
      using benign_gpu(2) [OF assms(1)] by metis
    have "for_each (replay_encoder_command srv (eng_tables ?s) enc) (rec_commands ?r) = body enc"
      by (rule assms(4) [OF held_agree [OF H]])
    then have "handle srv (Submit [payload]) ?s = (Ret (Some RespOk), ?s\<lparr>eng_gpu := g4\<rparr>)"
      using st e1 e2 e3 e4 assms(3)
      by (intro handle_eq)
        (simp add: submit_def dec replay_recording_def answer_def locked_def andThen_def on_gpu_def)
    moreover have "all_answered (wi_log (transmit net srv (Submit [payload]) (fa_client st)))"
      using ended Inr by (simp add: snd_via_client queue_submit_def send_on_def)
    ultimately have delivered: "wi_engine (transmit net srv (Submit [payload]) (fa_client st)) = ?s\<lparr>eng_gpu := g4\<rparr>"
      by (intro transmit_eq)
    show ?thesis
      using H e1 e2 e3 e4 Inr by (auto simp: via_client_def queue_submit_def bind_res_eq_Inr send_on_def delivered local_submit_def
          andThen_def direct_def held_def live_def)
  qed
qed

lemma mirrors_read:
  assumes "benign srv" and "(RBuffer (hd_id b), h) \<in> H" and "buf_size b = len"
  shows "mirrors net srv dev k H (via_client (read_all (served net srv oc dbg) b)) (local_read (srv_device srv) h len)"
proof (rule mirrorsI)
  show "clean dev k (fst ` H) (via_client (read_all (served net srv oc dbg) b))"
    using assms(2) by (intro clean_read [OF assms(1)]) force
  show "wired net srv (\<lambda>st. snd (via_client (read_all (served net srv oc dbg) b) st))"
    by (rule wired_call [of _ net srv oc dbg dev "OpRead b (Unbounded, Unbounded)"]) (simp add: snd_via_client read_all_def)
next
  fix st :: "('a, 'b, 'c) wire facade"
  let ?s = "wi_engine (fa_client st)" and ?d = "srv_device srv" and ?whole = "\<lparr>gsl_buffer = h, gsl_start = 0, gsl_end = Some len\<rparr>"
  assume "in_step dev st" and H: "H \<subseteq> held st"
    and ended: "answered (snd (via_client (read_all (served net srv oc dbg) b) st))"
  then have st: "\<not> eng_poisoned ?s" by (simp add: in_step_def)
  have h: "buffers (eng_tables ?s) (hd_id b) = Some h" using held_handle [OF assms(2) H] by simp
  obtain g1 where e1: "gpu_map_async ?d ?whole (gpu_of st) = (Ret MapOk, g1)"
    using benign_gpu(3) [OF assms(1)] by metis
  obtain bs g2 where e2: "gpu_mapped_range ?d ?whole g1 = (Ret bs, g2)"
    using benign_gpu(4) [OF assms(1)] by metis
  obtain g3 where e3: "gpu_exec ?d (UnmapBuffer h) g2 = (Ret (), g3)"
    using benign_gpu(2) [OF assms(1)] by metis
  have rng: "bounds_to_offset_size oc (Unbounded, Unbounded) (buf_size b) = Some (0, len)"
    by (simp add: bounds_to_offset_size_def assms(3) saturating_sub_u64_def)
  have slice: "slice_of (srv_overflow_checks srv) h 0 (Some len) = Some ?whole"
    using assms(1) by (simp add: slice_of_def add_u64_def benign_def)
  have "handle srv (MapBufferForRead (hd_id b) 0 len) ?s = (Ret (Some (BufferData bs)), ?s\<lparr>eng_gpu := g3\<rparr>)"
    using st h e1 e2 e3 by (intro handle_eq) (simp add: read_buffer_def locked_def andThen_def on_gpu_def slice)
  note read = this
  obtain x w' where d: "deliver net srv (MapBufferForRead (hd_id b) 0 len) (fa_client st) = (x, w')" by (rule prod.exhaust)
  have "snd (via_client (read_all (served net srv oc dbg) b) st) = st\<lparr>fa_client := w'\<rparr>"
    by (auto simp: snd_via_client read_all_def read_range_def rng request_on_def andThen_def d split: sum.split response.split)
  then have "all_answered (wi_log (snd (deliver net srv (MapBufferForRead (hd_id b) 0 len) (fa_client st))))"
    using ended by (simp add: d)
  from deliver_eq [OF this read] have delivered: "x = Inr (BufferData bs)" "wi_engine w' = ?s\<lparr>eng_gpu := g3\<rparr>"
    by (simp_all add: d)
  let ?m = "via_client (read_all (served net srv oc dbg) b) st" and ?l = "local_read ?d h len (gpu_of st)"
  show "encode_failed srv (fst ?m) \<or> (fst ?m = fst ?l \<and> gpu_of (snd ?m) = snd ?l \<and> H \<subseteq> held (snd ?m))"
    using H e1 e2 e3 by (auto simp: via_client_def read_all_def read_range_def rng request_on_def d delivered
        local_read_def andThen_def direct_def held_def live_def Let_def)
qed

subsection \<open>Handles\<close>

lemma destroy_run:
  assumes "\<not> eng_poisoned s"
  shows "\<exists>t. handle srv (Destroy r) s = (Ret (Some RespOk), s\<lparr>eng_tables := t\<rparr>)
    \<and> (\<forall>r'. r' \<noteq> r \<longrightarrow> handle_of t r' = handle_of (eng_tables s) r')"
proof (cases "\<exists>i. r = RBuffer i")
  case True
  then obtain i where r: "r = RBuffer i" by blast
  have "handle_of (remove_in buffers_update i (eng_tables s)) r' = handle_of (eng_tables s) r'" if "r' \<noteq> r" for r'
    using that by (cases r') (simp_all add: r remove_in_def)
  moreover have "handle srv (Destroy r) s = (Ret (Some RespOk), s\<lparr>eng_tables := remove_in buffers_update i (eng_tables s)\<rparr>)"
    using assms by (intro handle_eq) (simp add: r destroy_def andThen_def locked_def)
  ultimately show ?thesis by blast
next
  case False
  then have "handle srv (Destroy r) s = (Ret (Some RespOk), s)"
    by (intro handle_eq) (cases r; simp add: destroy_def)
  then show ?thesis by (intro exI [of _ "eng_tables s"]) simp
qed

text \<open>The drop of the last handle of a cell: the device does not notice, the other handles are kept.\<close>

lemma drop_last:
  assumes "in_step dev st" and "a < length (fa_cells st)" and "cell_count (fa_cells st ! a) = 1"
    and "answered (drop_cell (served net srv oc dbg) a st)"
  shows "gpu_of (drop_cell (served net srv oc dbg) a st) = gpu_of st"
    and "(r, h) \<in> held st \<Longrightarrow> r \<noteq> cell_resource (fa_cells st ! a) \<Longrightarrow> (r, h) \<in> held (drop_cell (served net srv oc dbg) a st)"
proof -
  let ?r = "cell_resource (fa_cells st ! a)" and ?st = "set_count a 0 st"
  have ok: "cells_ok dev st" and st: "\<not> eng_poisoned (wi_engine (fa_client st))"
    using assms(1) by (simp_all add: in_step_def)
  obtain t where t: "handle srv (Destroy ?r) (wi_engine (fa_client st)) = (Ret (Some RespOk), (wi_engine (fa_client st))\<lparr>eng_tables := t\<rparr>)"
    "\<forall>r'. r' \<noteq> ?r \<longrightarrow> handle_of t r' = handle_of (tables_of st) r'"
    using destroy_run [OF st] by blast
  have dropped: "fa_client (drop_cell (served net srv oc dbg) a st) = transmit net srv (Destroy ?r) (fa_client st)"
    "fa_cells (drop_cell (served net srv oc dbg) a st) = fa_cells ?st"
    using assms(3) by (simp_all add: drop_cell_eq send_on_def)
  have "all_answered (wi_log (transmit net srv (Destroy ?r) (fa_client st)))" using assms(4) by (simp add: dropped(1))
  note delivered = transmit_eq [OF this t(1)]
  show "gpu_of (drop_cell (served net srv oc dbg) a st) = gpu_of st" by (simp add: dropped(1) delivered)
  have "live (drop_cell (served net srv oc dbg) a st) = live st - {?r}"
    using set_count_sets(2) [OF ok assms(2) refl, of 0] dropped(2) by (simp add: live_def)
  then show "(r, h) \<in> held (drop_cell (served net srv oc dbg) a st)" if "(r, h) \<in> held st" "r \<noteq> ?r"
    using that t(2) by (auto simp: held_def dropped(1) delivered)
qed

lemma wired_let_handle:
  assumes "makes (served net srv oc dbg) dev op create wrap P" and "\<And>h. P h \<Longrightarrow> wired net srv (\<lambda>st. snd (body h st))"
  shows "wired net srv (\<lambda>st. snd (let_handle (served net srv oc dbg) create body st))"
  unfolding wired_def
proof
  fix st
  let ?lk = "served net srv oc dbg"
  obtain h st1 where create: "create st = (h, st1)" by (rule prod.exhaust)
  have made: "st1 = facade_step ?lk dev op st" "P h"
    using assms(1) create by (auto simp: makes_def split: prod.splits dest: spec [of _ st])
  note call = wired_facade_step [of net srv oc dbg, unfolded wired_def, rule_format]
  obtain r st2 where body: "body h st1 = (r, st2)" by (rule prod.exhaust)
  have "(wire_step net srv)\<^sup>*\<^sup>* (fa_client st) (fa_client st1)" unfolding made(1) by (rule call)
  moreover have "(wire_step net srv)\<^sup>*\<^sup>* (fa_client st1) (fa_client st2)"
    using assms(2) [OF made(2), unfolded wired_def, rule_format, of st1] by (simp add: body)
  moreover have "(wire_step net srv)\<^sup>*\<^sup>* (fa_client st2) (fa_client (facade_step ?lk dev (OpDrop (hd_cell h)) st2))" by (rule call)
  ultimately have "(wire_step net srv)\<^sup>*\<^sup>* (fa_client st) (fa_client (facade_step ?lk dev (OpDrop (hd_cell h)) st2))"
    by (meson rtranclp_trans)
  then show "(wire_step net srv)\<^sup>*\<^sup>* (fa_client st) (fa_client (snd (let_handle ?lk create body st)))"
    by (simp add: let_handle_def create body drop_handle_def)
qed

lemma mirrors_let_handle:
  fixes body :: "('k, 'z) handle_scheme \<Rightarrow> (('w, 'h, 'g) wire facade, cli_error, 'a) step"
  assumes "benign srv" and "makes (served net srv oc dbg) dev op create wrap P" and "set (op_refs op) \<subseteq> fst ` H"
    and "op_kind op = Some kd"
    and "\<And>s h g' n. \<not> eng_poisoned s \<Longrightarrow> agree H (eng_tables s) \<Longrightarrow>
      gpu_create (srv_device srv) call (eng_gpu s) = (Ret h, g') \<Longrightarrow>
      \<exists>t. handle srv (op_action op n) s = (Ret (Some RespOk), s\<lparr>eng_gpu := g', eng_tables := t\<rparr>)
        \<and> handle_of t = (handle_of (eng_tables s))(numbered kd n \<mapsto> h)"
    and "\<And>x h. P x \<Longrightarrow> mirrors net srv dev k (insert (wrap (hd_id x), h) H) (body x) (l h)"
  shows "mirrors net srv dev (Suc k) H (let_handle (served net srv oc dbg) create body) (andThen (direct (gpu_create (srv_device srv) call)) l)"
proof (rule mirrorsI)
  show "clean dev (Suc k) (fst ` H) (let_handle (served net srv oc dbg) create body)"
    using mirrors_clean [OF assms(6)] by (intro clean_let_handle [OF assms(1,2,3)]) simp
  show "wired net srv (\<lambda>st. snd (let_handle (served net srv oc dbg) create body st))"
    by (rule wired_let_handle [OF assms(2) mirrors_wired [OF assms(6)]])
next
  fix st :: "('w, 'h, 'g) wire facade"
  let ?lk = "served net srv oc dbg" and ?w = "fa_client st"
  assume st: "in_step dev st" "H \<subseteq> held st" "minted dev st + Suc k < id_capacity"
    and ended: "answered (snd (let_handle ?lk create body st))"
  then have w: "\<not> eng_poisoned (wi_engine ?w)" by (simp add: in_step_def)
  obtain x st1 where create: "create st = (x, st1)" by (rule prod.exhaust)
  have made: "st1 = facade_step ?lk dev op st" "hd_cell x = length (fa_cells st)" "P x"
    "fa_cells st1 = fa_cells st @ [\<lparr>cell_resource = wrap (hd_id x), cell_count = 1\<rparr>]"
    and op: "op_minter op dev = dev" "supported (op_action op 0)"
    using assms(2) create by (auto simp: makes_def split: prod.splits dest: spec [of _ st])
  have allowed: "op_allowed op dev st"
    using op assms(3) held_live [OF st(2)] holds_handles_makes [of op dev st] assms(4) by (auto simp: op_allowed_def)
  have st1: "in_step dev st1" "minted dev st1 + k < id_capacity"
    using in_step_step [OF st(1) assms(1) allowed, where net = net and oc = oc and dbg = dbg] minted_step [OF st(1) assms(1) allowed, where net = net and oc = oc and dbg = dbg] st(3) made(1) by auto
  obtain n m where mint: "mint_kind kd (fa_minters st ! dev) = (numbered kd n, m)" using mint_kind_numbered by blast
  have step: "st1 = snd (new_cell (numbered kd n) (send_on ?lk (op_action op n) (st\<lparr>fa_minters := (fa_minters st)[dev := m]\<rparr>)))"
    using facade_step_create [of op kd st dev n m ?lk] assms(4) mint by (simp add: op(1) made(1))
  have rid: "wrap (hd_id x) = numbered kd n" using made(4) by (simp add: step new_cell_sets(1))
  obtain h g' where gpu: "gpu_create (srv_device srv) call (gpu_of st) = (Ret h, g')"
    using benign_gpu(1) [OF assms(1)] by metis
  obtain t where t: "handle srv (op_action op n) (wi_engine ?w) = (Ret (Some RespOk), (wi_engine ?w)\<lparr>eng_gpu := g', eng_tables := t\<rparr>)"
    "handle_of t = (handle_of (tables_of st))(numbered kd n \<mapsto> h)"
    using assms(5) [OF w held_agree [OF st(2)] gpu] by blast
  obtain r st2 where body: "body x st1 = (r, st2)" by (rule prod.exhaust)
  have ends: "let_handle ?lk create body st = (r, drop_cell ?lk (length (fa_cells st)) st2)"
    by (simp add: let_handle_def create body drop_handle_def made(2))
  note tracked = assms(6) [OF made(3), of h]
  have answered: "answered (drop_cell ?lk (length (fa_cells st)) st2)" "answered st2" "answered st1"
  proof -
    show "answered (drop_cell ?lk (length (fa_cells st)) st2)" using ended by (simp add: ends)
    then show "answered st2"
      using wired_answered [OF wired_facade_step [of net srv oc dbg dev "OpDrop (length (fa_cells st))"], of st2] by simp
    then show "answered st1" using wired_answered [OF mirrors_wired [OF tracked], of st1] by (simp add: body)
  qed
  have "all_answered (wi_log (transmit net srv (op_action op n) ?w))"
    using answered(3) by (simp add: step new_cell_sets(4) send_on_def)
  note delivered = transmit_eq [OF this t(1)]
  have engine: "gpu_of st1 = g'" "tables_of st1 = t"
    by (simp_all add: step new_cell_sets(4) send_on_def delivered)
  have "distinct (map cell_resource (fa_cells st1))" using st1(1) by (simp add: in_step_def cells_ok_def)
  then have fresh: "numbered kd n \<notin> live st" using made(4) rid by (auto simp: live_def)
  have new: "insert (wrap (hd_id x), h) H \<subseteq> held st1"
    using st(2) fresh made(4) t(2) by (auto simp: held_def live_eq engine(2) rid)
  note kept = cleanD [OF mirrors_clean [OF tracked] st1(1) held_live [OF new] st1(2), unfolded body snd_conv]
  obtain extra where cells: "fa_cells st2 = fa_cells st @ \<lparr>cell_resource = wrap (hd_id x), cell_count = 1\<rparr> # extra"
    using kept(3) made(4) by (auto simp: grown_def)
  have a: "length (fa_cells st) < length (fa_cells st2)" "cell_count (fa_cells st2 ! length (fa_cells st)) = 1"
    "cell_resource (fa_cells st2 ! length (fa_cells st)) = wrap (hd_id x)"
    by (simp_all add: cells)
  note dropped = drop_last [OF kept(1) a(1,2) answered(1)]
  let ?l = "andThen (direct (gpu_create (srv_device srv) call)) l (gpu_of st)"
  show "encode_failed srv (fst (let_handle ?lk create body st))
    \<or> (fst (let_handle ?lk create body st) = fst ?l \<and> gpu_of (snd (let_handle ?lk create body st)) = snd ?l
      \<and> H \<subseteq> held (snd (let_handle ?lk create body st)))"
  proof (cases "encode_failed srv r")
    case True
    then show ?thesis by (simp add: ends)
  next
    case False
    have same: "r = fst (l h g')" "gpu_of st2 = snd (l h g')" "insert (wrap (hd_id x), h) H \<subseteq> held st2"
      using mirrorsD [OF tracked st1(1) new st1(2)] False answered(2) by (simp_all add: body engine(1))
    have "H \<subseteq> held (drop_cell ?lk (length (fa_cells st)) st2)"
    proof
      fix p assume p: "p \<in> H"
      then have "fst p \<noteq> wrap (hd_id x)" using st(2) fresh by (auto simp: held_def rid)
      then show "p \<in> held (drop_cell ?lk (length (fa_cells st)) st2)"
        using p same(3) dropped(2) [where r = "fst p" and h = "snd p"] a(3) by (cases p) auto
    qed
    then show ?thesis using same(1,2) dropped(1) using gpu by (simp add: ends andThen_def direct_def)
  qed
qed

text \<open>What the engine does for each call that makes a handle.\<close>

lemma create_unlocked_run:
  assumes "\<not> eng_poisoned s" and "gpu_create (srv_device srv) call (eng_gpu s) = (Ret h, g')"
  shows "create_unlocked srv call upd i s = (Ret RespOk, s\<lparr>eng_gpu := g', eng_tables := insert_in upd i h (eng_tables s)\<rparr>)"
  using assms by (simp add: create_unlocked_def andThen_def on_gpu_def store_def locked_def)

lemma create_locked_run:
  assumes "\<not> eng_poisoned s" and "resolve (eng_tables s) = Inr call"
    and "gpu_create (srv_device srv) call (eng_gpu s) = (Ret h, g')"
  shows "create_locked srv resolve upd i s = (Ret RespOk, s\<lparr>eng_gpu := g', eng_tables := insert_in upd i h (eng_tables s)\<rparr>)"
  using assms by (simp add: create_locked_def andThen_def on_gpu_def store_def locked_def)

lemma makes_buffer: "makes lk dev (OpCreateBuffer desc) (create_buffer_on lk dev desc) RBuffer (\<lambda>b. buf_size b = bd_size desc)"
  by (simp add: makes_def create_on_defs mint_with_def new_handle_defs mint_defs send_on_def split: prod.split)

lemmas creating = create_buffer_def create_shader_module_def create_bind_group_layout_def create_texture_def
  create_texture_view_def create_bind_group_def create_pipeline_layout_def create_compute_pipeline_def
  create_render_pipeline_def

lemma mirrors_buffer:
  assumes "benign srv" and "\<And>x h. buf_size x = bd_size desc \<Longrightarrow> mirrors net srv dev k (insert (RBuffer (hd_id x), h) H) (body x) (l h)"
  shows "mirrors net srv dev (Suc k) H (let_handle (served net srv oc dbg) (create_buffer_on (served net srv oc dbg) dev desc) body)
    (andThen (direct (gpu_create (srv_device srv) (MkBuffer desc))) l)"
  by (rule mirrors_let_handle [OF assms(1) makes_buffer])
    (auto simp: creating handle_of_insert intro!: handle_eq create_unlocked_run exI assms(2))

lemma mirrors_shader_module:
  assumes "benign srv" and "sm_source desc = Wgsl src" and "label = sm_label desc"
    and "\<And>x h. mirrors net srv dev k (insert (RShaderModule (hd_id x), h) H) (body x) (l h)"
  shows "mirrors net srv dev (Suc k) H (let_handle (served net srv oc dbg) (create_shader_module_on (served net srv oc dbg) dev desc) body)
    (andThen (direct (gpu_create (srv_device srv) (MkShaderModule label src))) l)"
  by (rule mirrors_let_handle [OF assms(1) makes_intros(2)])
    (auto simp: creating assms(2,3) handle_of_insert intro!: handle_eq create_unlocked_run exI assms(4))

lemma mirrors_bind_group_layout:
  assumes "benign srv" and "\<And>x h. mirrors net srv dev k (insert (RBindGroupLayout (hd_id x), h) H) (body x) (l h)"
  shows "mirrors net srv dev (Suc k) H (let_handle (served net srv oc dbg) (create_bind_group_layout_on (served net srv oc dbg) dev desc) body)
    (andThen (direct (gpu_create (srv_device srv) (MkBindGroupLayout desc))) l)"
  by (rule mirrors_let_handle [OF assms(1) makes_intros(3)])
    (auto simp: creating handle_of_insert intro!: handle_eq create_unlocked_run exI assms(2))

lemma mirrors_texture:
  assumes "benign srv" and "\<And>x h. hd_minter x = dev \<Longrightarrow> mirrors net srv dev k (insert (RTexture (hd_id x), h) H) (body x) (l h)"
  shows "mirrors net srv dev (Suc k) H (let_handle (served net srv oc dbg) (create_texture_on (served net srv oc dbg) dev desc) body)
    (andThen (direct (gpu_create (srv_device srv) (MkTexture desc))) l)"
  by (rule mirrors_let_handle [OF assms(1) makes_intros(8) _ _ _ assms(2)])
    (auto simp: creating handle_of_insert intro!: handle_eq create_unlocked_run exI)

lemma mirrors_resolved:
  fixes srv :: "('w, 'h, 'g) server"
  assumes "benign srv" and "makes (served net srv oc dbg) dev op create wrap P" and "set (op_refs op) \<subseteq> fst ` H" and "op_kind op = Some kd"
    and "\<And>n. handle_action srv (op_action op n) = create_locked srv resolve upd (i n)"
    and "\<And>t n h. handle_of (insert_in upd (i n) h t) = (handle_of t)(numbered kd n \<mapsto> h)"
    and "\<And>t. agree H t \<Longrightarrow> resolve t = Inr call"
    and "\<And>x h. P x \<Longrightarrow> mirrors net srv dev k (insert (wrap (hd_id x), h) H) (body x) (l h)"
  shows "mirrors net srv dev (Suc k) H (let_handle (served net srv oc dbg) create body) (andThen (direct (gpu_create (srv_device srv) call)) l)"
proof (rule mirrors_let_handle [OF assms(1-4) _ assms(8)])
  fix s :: "('h, 'g) engine" and h g' n
  assume s: "\<not> eng_poisoned s" "agree H (eng_tables s)"
    "gpu_create (srv_device srv) call (eng_gpu s) = (Ret h, g')"
  have "create_locked srv resolve upd (i n) s = (Ret RespOk, s\<lparr>eng_gpu := g', eng_tables := insert_in upd (i n) h (eng_tables s)\<rparr>)"
    by (rule create_locked_run [where resolve = resolve and call = call, OF s(1) assms(7) [OF s(2)] s(3)])
  then show "\<exists>u. handle srv (op_action op n) s = (Ret (Some RespOk), s\<lparr>eng_gpu := g', eng_tables := u\<rparr>)
      \<and> handle_of u = (handle_of (eng_tables s))(numbered kd n \<mapsto> h)"
    using assms(6) [of n h "eng_tables s"] by (intro exI conjI handle_eq) (simp_all add: assms(5))
qed

lemma mirrors_texture_view:
  fixes srv :: "('w, 'h, 'g) server"
  assumes "benign srv" and "hd_minter t = dev" and "(RTexture (hd_id t), ht) \<in> H"
    and "\<And>x h. mirrors net srv dev k (insert (RTextureView (hd_id x), h) H) (body x) (l h)"
  shows "mirrors net srv dev (Suc k) H (let_handle (served net srv oc dbg) (create_view (served net srv oc dbg) t desc) body)
    (andThen (direct (gpu_create (srv_device srv) (MkTextureView ht desc))) l)"
proof (rule mirrors_resolved [where upd = texture_views_update and i = Id and kd = KTextureView, OF assms(1) makes_intros(9) [OF assms(2)]])
  show "texture_view_call (hd_id t) desc tbl = Inr (MkTextureView ht desc)" if "agree H tbl" for tbl
    using bspec [OF that assms(3)] by (simp add: texture_view_call_def)
qed (use assms(3,4) in \<open>force simp: creating handle_of_insert\<close>)+

lemma mirrors_bind_group:
  fixes srv :: "('w, 'h, 'g) server"
  assumes "benign srv" and "list_all (\<lambda>e. binding_supported (bge_resource e)) (bg_entries desc)"
    and "set (op_refs (OpCreateBindGroup desc :: 'w facade_op)) \<subseteq> fst ` H" and "\<And>t. agree H t \<Longrightarrow> bind_group_call desc t = Inr call"
    and "\<And>x h. mirrors net srv dev k (insert (RBindGroup (hd_id x), h) H) (body x) (l h)"
  shows "mirrors net srv dev (Suc k) H (let_handle (served net srv oc dbg) (create_bind_group_on (served net srv oc dbg) dev desc) body)
    (andThen (direct (gpu_create (srv_device srv) call)) l)"
  by (rule mirrors_resolved [where upd = bind_groups_update and i = Id and kd = KBindGroup, OF assms(1) makes_intros(4) [OF assms(2)] assms(3) _ _ _ assms(4,5)])
    (simp_all add: creating handle_of_insert)

lemma mirrors_pipeline_layout:
  fixes srv :: "('w, 'h, 'g) server"
  assumes "benign srv" and "set (op_refs (OpCreatePipelineLayout desc :: 'w facade_op)) \<subseteq> fst ` H" and "\<And>t. agree H t \<Longrightarrow> pipeline_layout_call desc t = Inr call"
    and "\<And>x h. mirrors net srv dev k (insert (RPipelineLayout (hd_id x), h) H) (body x) (l h)"
  shows "mirrors net srv dev (Suc k) H (let_handle (served net srv oc dbg) (create_pipeline_layout_on (served net srv oc dbg) dev desc) body)
    (andThen (direct (gpu_create (srv_device srv) call)) l)"
  by (rule mirrors_resolved [where upd = pipeline_layouts_update and i = Id and kd = KPipelineLayout, OF assms(1) makes_intros(5) assms(2) _ _ _ assms(3,4)])
    (simp_all add: creating handle_of_insert)

lemma mirrors_compute_pipeline:
  fixes srv :: "('w, 'h, 'g) server"
  assumes "benign srv" and "set (op_refs (OpCreateComputePipeline desc :: 'w facade_op)) \<subseteq> fst ` H" and "\<And>t. agree H t \<Longrightarrow> compute_pipeline_call desc t = Inr call"
    and "\<And>x h. mirrors net srv dev k (insert (RComputePipeline (hd_id x), h) H) (body x) (l h)"
  shows "mirrors net srv dev (Suc k) H (let_handle (served net srv oc dbg) (create_compute_pipeline_on (served net srv oc dbg) dev desc) body)
    (andThen (direct (gpu_create (srv_device srv) call)) l)"
  by (rule mirrors_resolved [where upd = compute_pipelines_update and i = Id and kd = KComputePipeline, OF assms(1) makes_intros(6) assms(2) _ _ _ assms(3,4)])
    (simp_all add: creating handle_of_insert)

lemma mirrors_render_pipeline:
  fixes srv :: "('w, 'h, 'g) server"
  assumes "benign srv" and "set (op_refs (OpCreateRenderPipeline desc :: 'w facade_op)) \<subseteq> fst ` H" and "\<And>t. agree H t \<Longrightarrow> render_pipeline_call desc t = Inr call"
    and "\<And>x h. mirrors net srv dev k (insert (RRenderPipeline (hd_id x), h) H) (body x) (l h)"
  shows "mirrors net srv dev (Suc k) H (let_handle (served net srv oc dbg) (create_render_pipeline_on (served net srv oc dbg) dev desc) body)
    (andThen (direct (gpu_create (srv_device srv) call)) l)"
  by (rule mirrors_resolved [where upd = render_pipelines_update and i = Id and kd = KRenderPipeline, OF assms(1) makes_intros(7) assms(2) _ _ _ assms(3,4)])
    (simp_all add: creating handle_of_insert)

subsection \<open>The workloads\<close>

lemma andThen_unit: "andThen m (\<lambda>_. ret ()) = m" "andThen m ret = m"
  by (auto simp: fun_eq_iff andThen_def split: prod.split flow.split)

lemmas resolving = bind_group_call_def bind_group_entry_of_def pipeline_layout_call_def compute_pipeline_call_def
  render_pipeline_call_def optional_layout_def fragment_module_def fragment_of_def non_zero_def
  color_attachment_of_def depth_attachment_of_def lookup_image_copy_buffer_def lookup_image_copy_texture_def

lemmas mirroring = mirrors_buffer mirrors_shader_module mirrors_bind_group_layout mirrors_texture mirrors_texture_view
  mirrors_bind_group mirrors_pipeline_layout mirrors_compute_pipeline mirrors_render_pipeline
  mirrors_write mirrors_submit mirrors_read

lemma mirrors_double:
  assumes "benign srv" and "cnt \<noteq> 0"
  shows "mirrors net srv dev (Suc (Suc (Suc (Suc (Suc (Suc (Suc 0))))))) {} (double_on_device ho (served net srv oc dbg) cnt dev)
    (local_double (srv_device srv) ho cnt)"
  unfolding double_on_device_def local_double_def Let_def if_not_P [OF assms(2)]
  by (intro mirroring [OF assms(1)] mirrors_andThen mirrors_if mirrors_pure goes_andThen goes_with_pass [OF assms(1)] goes_call [OF assms(1)])
    (simp_all add: layout_refs_def recorded resolving andThen_unit)

lemma mirrors_checkerboard:
  assumes "benign srv" and "\<not> (cb_width args = 0 \<or> cb_height args = 0 \<or> cb_tile args = 0)"
  shows "mirrors net srv dev (Suc (Suc (Suc (Suc (Suc (Suc (Suc (Suc (Suc 0))))))))) {}
    (checkerboard_on_device ho (served net srv oc dbg) args dev) (local_checkerboard (srv_device srv) ho args)"
  unfolding checkerboard_on_device_def local_checkerboard_def Let_def if_not_P [OF assms(2)]
  by (intro mirroring [OF assms(1)] mirrors_andThen mirrors_case_prod mirrors_pure goes_andThen goes_with_pass [OF assms(1)] goes_call [OF assms(1)])
    (simp_all add: layout_refs_def recorded resolving andThen_unit)

definition local_workload ::
  "('w, 'h, 'g) wgpu \<Rightarrow> 'w host \<Rightarrow> workload \<Rightarrow> ('g, cli_error, (ppm_target \<times> string \<times> bytes) option) step" where
  "local_workload d ho w =
     (case w of
        Ping \<Rightarrow> ret None
      | ComputeDouble n \<Rightarrow> andThen (local_double d ho n) (\<lambda>_. ret None)
      | RenderCheckerboard args \<Rightarrow> andThen (local_checkerboard d ho args) (\<lambda>out. ret (Some out)))"

text \<open>The handshake does not touch the device.\<close>

lemma mirrored_after_handshake:
  fixes m :: "nat \<Rightarrow> (('w, 'h, 'g) wire facade, cli_error, 'a) step"
  assumes "mirrors net srv 0 k {} (m 0) l" and "k < 2 ^ 63"
    and "run = andThen (via_client (request_adapter (served net srv oc dbg))) (\<lambda>_.
      andThen (via_client (request_device (served net srv oc dbg))) m)"
    and "answered (snd (run (fresh_client g)))" and "\<not> encode_failed srv (fst (run (fresh_client g)))"
  shows "l g = (fst (run (fresh_client g)), gpu_of (snd (run (fresh_client g))))"
proof -
  obtain r st where r: "run (fresh_client g) = (r, st)" by (rule prod.exhaust)
  from r [symmetric, unfolded assms(3)] show ?thesis
  proof (cases rule: handshake)
    case (connected st0)
    note st0 = connected_state [OF connected(1)]
    have "minted 0 st0 + k < id_capacity" using assms(2) by (simp add: st0(4) id_capacity_def)
    from mirrorsD(1,2) [OF assms(1) st0(8) _ this] show ?thesis
      using assms(4,5) st0(3) by (simp add: r connected(2) [symmetric] prod_eq_iff new_engine_def)
  next
    case (refused e)
    then show ?thesis using assms(4) by (simp add: r)
  qed
qed

lemma mapped_runs:
  assumes "answered (snd (m st)) \<Longrightarrow> encode_failed srv (fst (m st)) \<or> l g = (fst (m st), gpu_of (snd (m st)))"
    and "answered (snd (andThen m (\<lambda>a. ret (f a)) st))"
  shows "encode_failed srv (fst (andThen m (\<lambda>a. ret (f a)) st))
    \<or> andThen l (\<lambda>a. ret (f a)) g = (fst (andThen m (\<lambda>a. ret (f a)) st), gpu_of (snd (andThen m (\<lambda>a. ret (f a)) st)))"
  using assms by (cases "m st") (auto simp: andThen_def encode_failed_def split: flow.splits)

lemma double_runs_remotely:
  assumes "benign srv" and "answered (snd (compute_double ho (served net srv oc dbg) cnt (fresh_client g)))"
  shows "encode_failed srv (fst (compute_double ho (served net srv oc dbg) cnt (fresh_client g)))
    \<or> local_double (srv_device srv) ho cnt g = (fst (compute_double ho (served net srv oc dbg) cnt (fresh_client g)),
        gpu_of (snd (compute_double ho (served net srv oc dbg) cnt (fresh_client g))))"
proof (cases "cnt = 0")
  case True
  then show ?thesis by (simp add: compute_double_def local_double_def fresh_client_def new_engine_def)
next
  case False
  then show ?thesis
    using mirrored_after_handshake [where m = "double_on_device ho (served net srv oc dbg) cnt", OF mirrors_double [OF assms(1) False] _ refl]
      assms(2)
    by (auto simp: compute_double_def)
qed

lemma checkerboard_runs_remotely:
  assumes "benign srv" and "answered (snd (render_checkerboard ho (served net srv oc dbg) args (fresh_client g)))"
  shows "encode_failed srv (fst (render_checkerboard ho (served net srv oc dbg) args (fresh_client g)))
    \<or> local_checkerboard (srv_device srv) ho args g = (fst (render_checkerboard ho (served net srv oc dbg) args (fresh_client g)),
        gpu_of (snd (render_checkerboard ho (served net srv oc dbg) args (fresh_client g))))"
proof (cases "cb_width args = 0 \<or> cb_height args = 0 \<or> cb_tile args = 0")
  case True
  then show ?thesis by (simp add: render_checkerboard_def local_checkerboard_def fresh_client_def new_engine_def)
next
  case False
  then show ?thesis
    using mirrored_after_handshake [where m = "checkerboard_on_device ho (served net srv oc dbg) args", OF mirrors_checkerboard [OF assms(1) False] _ refl]
      assms(2)
    by (auto simp: render_checkerboard_def)
qed

text \<open>C8: remote is local. Against a fresh server whose device does not panic, each workload of the demo
  client, whatever its parameters and whatever the device computes, has the result of the same workload
  run on that device directly, and leaves the device in the same state, or it reports that its command
  buffer could not be serialised, provided that every action was answered. An action is not when its
  frame or the response to it does not fit in a frame, such as a readback of more than 64 MiB, which
  works on the device directly and closes the connection remotely, or when the transport fails.\<close>

theorem workloads_run_remotely:
  assumes "benign srv" and "all_answered (wi_log (fa_client (snd (run_workload ho (served net srv oc dbg) w (fresh_client g)))))"
  shows "encode_failed srv (fst (run_workload ho (served net srv oc dbg) w (fresh_client g)))
    \<or> local_workload (srv_device srv) ho w g = (fst (run_workload ho (served net srv oc dbg) w (fresh_client g)),
        gpu_of (snd (run_workload ho (served net srv oc dbg) w (fresh_client g))))"
proof (cases w)
  case Ping
  obtain r st where run: "ping (served net srv oc dbg) (fresh_client g) = (r, st)" by (rule prod.exhaust)
  note ping = ping_greets [OF run]
  have "r = Ret PROTOCOL_VERSION" using ping(2) assms(2) by (simp add: Ping run_workload_def snd_andThen_ret run)
  then show ?thesis
    using greeted(3) [OF ping(1)] by (simp add: Ping run_workload_def local_workload_def andThen_def run new_engine_def)
next
  case (ComputeDouble n)
  show ?thesis
    unfolding ComputeDouble run_workload_def local_workload_def workload.case
    by (rule mapped_runs, rule double_runs_remotely [OF assms(1)], assumption) (use assms(2) in \<open>simp add: ComputeDouble run_workload_def\<close>)
next
  case (RenderCheckerboard args)
  show ?thesis
    unfolding RenderCheckerboard run_workload_def local_workload_def workload.case
    by (rule mapped_runs, rule checkerboard_runs_remotely [OF assms(1)], assumption) (use assms(2) in \<open>simp add: RenderCheckerboard run_workload_def\<close>)
qed

text \<open>A device that answers every readback with the bytes of the number two, behind a server whose serializer
  knows every recording.\<close>

definition doubling_device :: "(nat, nat, nat) wgpu" where
  "doubling_device = good_device\<lparr>wg_mapped_range := \<lambda>sl g. (Some [2, 0, 0, 0], g)\<rparr>"

definition doubling_server :: "(nat, nat, nat) server" where
  "doubling_server = \<lparr>srv_device = doubling_device, srv_recordings = unary_bincode, srv_overflow_checks = False\<rparr>"

lemma doubling_benign: "benign doubling_server"
  by (simp add: benign_def doubling_server_def doubling_device_def good_device_def counting_device_def never_panics_def
      maps_succeed_def unary_bincode_ok)

lemma doubling_locally: "local_workload doubling_device demo_host (ComputeDouble 1) 0 = (Ret None, 10)"
proof -
  have gpu: "gpu_create doubling_device c g = (Ret g, Suc g)" "gpu_exec doubling_device x g = (Ret (), g)"
    "gpu_map_async doubling_device sl g = (Ret MapOk, g)" "gpu_mapped_range doubling_device sl g = (Ret [2, 0, 0, 0], g)" for c x sl g
    by (simp_all add: gpu_call_defs doubling_device_def good_device_def counting_device_def)
  have input: "double_input 1 = [1]" by (simp add: double_input_def)
  show ?thesis
    by (simp add: local_workload_def local_double_def local_write_def local_submit_def local_read_def with_pass_def andThen_def
        direct_def gpu Let_def input demo_host_def u32_from_ne_bytes_def u32_from_be_bytes_def mul_u32_def)
qed

text \<open>On a transport that works, with frames that fit, the workload is answered throughout.\<close>

lemma double_answered:
  assumes "benign srv" and "cnt \<noteq> 0"
  shows "answered (snd (run_workload ho (served demo_net srv oc dbg) (ComputeDouble cnt) (fresh_client g)))"
proof -
  let ?lk = "served demo_net srv oc dbg" and ?st = "demo_start g :: ('a, 'b, 'c) wire facade"
  have "working (fa_client ?st)" by (simp add: working_def demo_start_def new_engine_def all_answered_def)
  moreover have "wired demo_net srv (\<lambda>st. snd (double_on_device ho ?lk cnt 0 st))"
    by (rule mirrors_wired [OF mirrors_double [OF assms]])
  ultimately have "working (fa_client (snd (double_on_device ho ?lk cnt 0 ?st)))"
    using working_run [OF _ demo_dependable assms(1)] unfolding wired_def by blast
  moreover have "snd (compute_double ho ?lk cnt (fresh_client g)) = snd (double_on_device ho ?lk cnt 0 ?st)"
    using assms(2) demo_connected [of srv oc dbg g]
    by (simp add: compute_double_def via_client_andThen connect_device_def [symmetric])
      (simp add: andThen_def via_client_def)
  ultimately show ?thesis by (simp add: run_workload_def snd_andThen_ret working_def)
qed

theorem workloads_run_remotely_witness:
  "(Ret None, 10) = (fst (run_workload demo_host (served demo_net doubling_server False demo_debug) (ComputeDouble 1) (fresh_client 0)),
     gpu_of (snd (run_workload demo_host (served demo_net doubling_server False demo_debug) (ComputeDouble 1) (fresh_client 0))))"
proof -
  have "\<not> encode_failed doubling_server r" for r :: "(cli_error, (ppm_target \<times> string \<times> bytes) option) flow"
    by (simp add: encode_failed_def doubling_server_def encode_recording_def unary_bincode_total)
  moreover have "srv_device doubling_server = doubling_device" by (simp add: doubling_server_def)
  ultimately show ?thesis
    using workloads_run_remotely [OF doubling_benign double_answered [OF doubling_benign], of 1 demo_host False demo_debug 0]
    by (simp add: doubling_locally)
qed

end
