(* ===== verification/Startup.thy ===== *)
theory Startup
  imports Arguments
begin

section \<open>The server's identity\<close>

text \<open>
  \<open>transport/pki.rs\<close>, the private certificate authority, and the part of \<open>bin/wgpu-remote-server.rs\<close>
  that decides which authority a server uses and for which names it has a certificate issued.

  rcgen is a parameter: key pairs and certificates are of the types \<open>'k\<close> and \<open>'c\<close>, and its functions
  act on the world outside, \<open>'r\<close>; so are \<open>IpAddr::from_str\<close> and rcgen's check of a DNS name. The file
  system is a map from paths to contents, with the paths that can be written; two paths are two files.
  Messages to the terminal are left out.
\<close>

subsection \<open>Parameters and state\<close>

datatype 'ip san_type = IpAddress 'ip | DnsName string

datatype key_usage = KeyCertSign | CrlSign

record 'ip cert_params =
  cp_is_ca :: bool
  cp_key_usages :: "key_usage list"
  cp_common_name :: string
  cp_sans :: "'ip san_type list"

record ('ip, 'k, 'c, 'r) rcgen =
  rc_generate :: "'r \<Rightarrow> (string + 'k) \<times> 'r"
  rc_self_signed :: "'ip cert_params \<Rightarrow> 'k \<Rightarrow> 'r \<Rightarrow> (string + 'c) \<times> 'r"
  rc_signed_by :: "'ip cert_params \<Rightarrow> 'k \<Rightarrow> 'c \<Rightarrow> 'k \<Rightarrow> 'r \<Rightarrow> (string + 'c) \<times> 'r"
  rc_cert_der :: "'c \<Rightarrow> bytes"
  rc_key_der :: "'k \<Rightarrow> bytes"
  rc_key_from_der :: "bytes \<Rightarrow> string + 'k"
  rc_parse_ip :: "string \<Rightarrow> 'ip option"
  rc_dns_name :: "string \<Rightarrow> bool"

record 'r machine =
  mc_files :: "string \<Rightarrow> bytes option"
  mc_writable :: "string \<Rightarrow> bool"
  mc_world :: 'r

datatype pki_error = PkiRcgen string | PkiIo string

type_synonym ('r, 'a) startup = "('r machine, pki_error, 'a) step"

definition via_rcgen :: "('r \<Rightarrow> (string + 'a) \<times> 'r) \<Rightarrow> ('r, 'a) startup" where
  "via_rcgen f m =
     (case f (mc_world m) of
        (Inl e, r) \<Rightarrow> (Fail (PkiRcgen e), m\<lparr>mc_world := r\<rparr>)
      | (Inr a, r) \<Rightarrow> (Ret a, m\<lparr>mc_world := r\<rparr>))"

definition read_file :: "string \<Rightarrow> ('r, bytes) startup" where
  "read_file p m = (case mc_files m p of None \<Rightarrow> (Fail (PkiIo (''read '' @ p)), m) | Some b \<Rightarrow> (Ret b, m))"

definition write_file :: "string \<Rightarrow> bytes \<Rightarrow> ('r, unit) startup" where
  "write_file p b m =
     (if mc_writable m p then (Ret (), m\<lparr>mc_files := (mc_files m)(p \<mapsto> b)\<rparr>) else (Fail (PkiIo (''write '' @ p)), m))"

definition file_exists :: "string \<Rightarrow> 'r machine \<Rightarrow> bool" where
  "file_exists p m \<longleftrightarrow> mc_files m p \<noteq> None"

subsection \<open>CertAuthority\<close>

record ('k, 'c) cert_authority =
  au_key :: 'k
  au_cert :: 'c
  au_cert_der :: bytes

record 'k server_cert =
  sc_cert_chain :: "bytes list"
  sc_private_key :: bytes

definition ca_params :: "'ip cert_params" where
  "ca_params = \<lparr>cp_is_ca = True, cp_key_usages = [KeyCertSign, CrlSign], cp_common_name = ''wgpu-remote CA'', cp_sans = []\<rparr>"

definition ca_generate :: "('ip, 'k, 'c, 'r) rcgen \<Rightarrow> ('r, ('k, 'c) cert_authority) startup" where
  "ca_generate rc =
     andThen (via_rcgen (rc_generate rc)) (\<lambda>key.
     andThen (via_rcgen (rc_self_signed rc ca_params key)) (\<lambda>cert.
       ret \<lparr>au_key = key, au_cert = cert, au_cert_der = rc_cert_der rc cert\<rparr>))"

definition ca_from_der :: "('ip, 'k, 'c, 'r) rcgen \<Rightarrow> bytes \<Rightarrow> bytes \<Rightarrow> ('r, ('k, 'c) cert_authority) startup" where
  "ca_from_der rc cert_der key_der =
     andThen (via_rcgen (\<lambda>r. (rc_key_from_der rc key_der, r))) (\<lambda>key.
     andThen (via_rcgen (rc_self_signed rc ca_params key)) (\<lambda>cert.
       ret \<lparr>au_key = key, au_cert = cert, au_cert_der = cert_der\<rparr>))"

definition ca_load :: "('ip, 'k, 'c, 'r) rcgen \<Rightarrow> string \<Rightarrow> string \<Rightarrow> ('r, ('k, 'c) cert_authority) startup" where
  "ca_load rc cert_path key_path =
     andThen (read_file cert_path) (\<lambda>cert_der.
     andThen (read_file key_path) (\<lambda>key_der.
       ca_from_der rc cert_der key_der))"

definition ca_save :: "('ip, 'k, 'c, 'r) rcgen \<Rightarrow> ('k, 'c) cert_authority \<Rightarrow> string \<Rightarrow> string \<Rightarrow> ('r, unit) startup" where
  "ca_save rc ca cert_path key_path =
     andThen (write_file cert_path (au_cert_der ca)) (\<lambda>_. write_file key_path (rc_key_der rc (au_key ca)))"

text \<open>\<open>None\<close> is the panic of \<open>unwrap\<close> on a name that is neither an address nor a DNS name.\<close>

definition san_type_of :: "('ip, 'k, 'c, 'r) rcgen \<Rightarrow> string \<Rightarrow> 'ip san_type option" where
  "san_type_of rc s =
     (case rc_parse_ip rc s of
        Some ip \<Rightarrow> Some (IpAddress ip)
      | None \<Rightarrow> if rc_dns_name rc s then Some (DnsName s) else None)"

definition issue_server_cert ::
  "('ip, 'k, 'c, 'r) rcgen \<Rightarrow> ('k, 'c) cert_authority \<Rightarrow> string list \<Rightarrow> ('r, 'k server_cert) startup" where
  "issue_server_cert rc ca sans =
     andThen (via_rcgen (rc_generate rc)) (\<lambda>server_key.
     andThen (lift_opt (those (map (san_type_of rc) sans))) (\<lambda>san_types.
     andThen (via_rcgen (rc_signed_by rc
         \<lparr>cp_is_ca = False, cp_key_usages = [], cp_common_name = ''wgpu-remote server'', cp_sans = san_types\<rparr>
         server_key (au_cert ca) (au_key ca))) (\<lambda>cert.
       ret \<lparr>sc_cert_chain = [rc_cert_der rc cert, au_cert_der ca], sc_private_key = rc_key_der rc server_key\<rparr>)))"

subsection \<open>init-ca and serve_quic\<close>

definition init_ca :: "('ip, 'k, 'c, 'r) rcgen \<Rightarrow> ca_args \<Rightarrow> ('r, unit) startup" where
  "init_ca rc args =
     andThen (ca_generate rc) (\<lambda>ca. ca_save rc ca (ca_cert_path args) (ca_key_path args))"

definition load_or_generate ::
  "('ip, 'k, 'c, 'r) rcgen \<Rightarrow> 'addr server_flags \<Rightarrow> ('r, ('k, 'c) cert_authority) startup" where
  "load_or_generate rc args m =
     (if file_exists (sf_ca_cert args) m \<and> file_exists (sf_ca_key args) m
      then ca_load rc (sf_ca_cert args) (sf_ca_key args) m
      else andThen (ca_generate rc) (\<lambda>ca.
        andThen (ca_save rc ca (sf_ca_cert args) (sf_ca_key args)) (\<lambda>_. ret ca)) m)"

text \<open>\<open>bind_ip\<close> is the printed IP address of \<open>--bind\<close>.\<close>

definition server_sans :: "('addr \<Rightarrow> string) \<Rightarrow> 'addr server_flags \<Rightarrow> string list" where
  "server_sans bind_ip args =
     ''localhost'' # (let ip = bind_ip (sf_bind args) in if ip \<noteq> ''0.0.0.0'' \<and> ip \<noteq> ''::'' then [ip] else [])
       @ sf_extra_sans args"

definition quic_identity ::
  "('ip, 'k, 'c, 'r) rcgen \<Rightarrow> ('addr \<Rightarrow> string) \<Rightarrow> 'addr server_flags \<Rightarrow> ('r, 'k server_cert) startup" where
  "quic_identity rc bind_ip args =
     andThen (load_or_generate rc args) (\<lambda>ca. issue_server_cert rc ca (server_sans bind_ip args))"

subsection \<open>Restarts\<close>

text \<open>What rcgen documents: a key is what its DER says, and nothing fails on what it made itself.\<close>

definition rcgen_ok :: "('ip, 'k, 'c, 'r) rcgen \<Rightarrow> bool" where
  "rcgen_ok rc \<longleftrightarrow> (\<forall>k. rc_key_from_der rc (rc_key_der rc k) = Inr k)
     \<and> (\<forall>p k r. \<exists>c r'. rc_self_signed rc p k r = (Inr c, r'))"

definition trusts :: "bytes \<Rightarrow> 'k server_cert \<Rightarrow> bool" where
  "trusts pinned cert \<longleftrightarrow> last (sc_cert_chain cert) = pinned"

lemma via_rcgen_Ret:
  "via_rcgen f m = (Ret a, m') \<longleftrightarrow> (\<exists>r. f (mc_world m) = (Inr a, r) \<and> m' = m\<lparr>mc_world := r\<rparr>)"
  by (auto simp: via_rcgen_def split: prod.splits sum.splits)

lemma write_file_Ret:
  "write_file p b m = (Ret u, m') \<longleftrightarrow> mc_writable m p \<and> m' = m\<lparr>mc_files := (mc_files m)(p \<mapsto> b)\<rparr>"
  by (auto simp: write_file_def)

lemma read_file_Ret: "read_file p m = (Ret b, m') \<longleftrightarrow> mc_files m p = Some b \<and> m' = m"
  by (auto simp: read_file_def split: option.splits)

lemmas startup_Ret = andThen_eq_Ret via_rcgen_Ret write_file_Ret read_file_Ret

text \<open>The authority that a pair of files holds.\<close>

definition holds_authority :: "('ip, 'k, 'c, 'r) rcgen \<Rightarrow> 'addr server_flags \<Rightarrow> ('k, 'c) cert_authority \<Rightarrow> 'r machine \<Rightarrow> bool" where
  "holds_authority rc args ca m \<longleftrightarrow> mc_files m (sf_ca_cert args) = Some (au_cert_der ca)
     \<and> (\<exists>d. mc_files m (sf_ca_key args) = Some d \<and> rc_key_from_der rc d = Inr (au_key ca))"

lemma load_or_generate_holds:
  assumes "rcgen_ok rc" and "sf_ca_cert args \<noteq> sf_ca_key args" and "load_or_generate rc args m = (Ret ca, m')"
  shows "holds_authority rc args ca m'"
proof (cases "file_exists (sf_ca_cert args) m \<and> file_exists (sf_ca_key args) m")
  case True
  then show ?thesis
    using assms(3)
    by (auto simp: load_or_generate_def ca_load_def ca_from_der_def startup_Ret holds_authority_def)
next
  case False
  then show ?thesis
    using assms by (auto simp: load_or_generate_def ca_generate_def ca_save_def startup_Ret holds_authority_def rcgen_ok_def)
qed

lemma load_or_generate_again:
  assumes "rcgen_ok rc" and "holds_authority rc args ca m"
  shows "\<exists>ca' m'. load_or_generate rc args m = (Ret ca', m') \<and> au_cert_der ca' = au_cert_der ca \<and> au_key ca' = au_key ca
    \<and> mc_files m' = mc_files m"
proof -
  obtain d where files: "mc_files m (sf_ca_cert args) = Some (au_cert_der ca)" "mc_files m (sf_ca_key args) = Some d"
    "rc_key_from_der rc d = Inr (au_key ca)"
    using assms(2) by (auto simp: holds_authority_def)
  obtain c r where "rc_self_signed rc ca_params (au_key ca) (mc_world m) = (Inr c, r)"
    using assms(1) unfolding rcgen_ok_def by blast
  then show ?thesis
    using files by (simp add: load_or_generate_def file_exists_def ca_load_def ca_from_der_def andThen_def read_file_def via_rcgen_def)
qed

text \<open>C39: clients keep trusting a server across restarts. Whatever authority a server starts with, one it
  finds or one it makes, it is on disk when it has started; a later start from those files, even with
  other names and another address, uses the same authority: whatever certificate it has issued, its
  chain ends in the certificate that clients pinned. The two paths have to be different.\<close>

theorem authority_survives_restart:
  assumes "rcgen_ok rc" and "sf_ca_cert args \<noteq> sf_ca_key args" and "load_or_generate rc args m = (Ret ca, m')"
    and "mc_files m2 (sf_ca_cert args) = mc_files m' (sf_ca_cert args)" and "mc_files m2 (sf_ca_key args) = mc_files m' (sf_ca_key args)"
    and "sf_ca_cert args2 = sf_ca_cert args" and "sf_ca_key args2 = sf_ca_key args"
  shows "(\<exists>ca2 m3. load_or_generate rc args2 m2 = (Ret ca2, m3) \<and> au_key ca2 = au_key ca \<and> mc_files m3 = mc_files m2)
    \<and> (\<forall>cert m3. quic_identity rc bind_ip args2 m2 = (Ret cert, m3) \<longrightarrow> trusts (au_cert_der ca) cert)"
proof -
  have "holds_authority rc args ca m'" by (rule load_or_generate_holds [OF assms(1-3)])
  then have "holds_authority rc args2 ca m2" using assms(4-7) by (simp add: holds_authority_def)
  then obtain ca2 m3 where again: "load_or_generate rc args2 m2 = (Ret ca2, m3)" "au_cert_der ca2 = au_cert_der ca"
    "au_key ca2 = au_key ca" "mc_files m3 = mc_files m2"
    using load_or_generate_again [OF assms(1)] by blast
  then show ?thesis
    by (auto simp: quic_identity_def andThen_eq_Ret issue_server_cert_def trusts_def)
qed

text \<open>When only one of the two files is there, starting replaces both: what clients pinned is gone.\<close>

lemma lost_key_replaces_certificate:
  assumes "mc_files m (sf_ca_key args) = None" and "load_or_generate rc args m = (Ret ca, m')"
    and "sf_ca_cert args \<noteq> sf_ca_key args"
  shows "mc_files m' (sf_ca_cert args) = Some (au_cert_der ca)
    \<and> (\<exists>k r c r'. rc_generate rc (mc_world m) = (Inr k, r) \<and> rc_self_signed rc ca_params k r = (Inr c, r')
         \<and> au_cert_der ca = rc_cert_der rc c)"
  using assms by (auto simp: load_or_generate_def file_exists_def ca_generate_def ca_save_def startup_Ret)

definition demo_rcgen :: "(unit, nat, nat, nat) rcgen" where
  "demo_rcgen =
     \<lparr>rc_generate = (\<lambda>r. (Inr r, r + 1)), rc_self_signed = (\<lambda>p k r. (Inr r, r + 1)),
      rc_signed_by = (\<lambda>p k ic ik r. (Inr (100 * ik + k), r)), rc_cert_der = (\<lambda>c. replicate c 1),
      rc_key_der = (\<lambda>k. replicate k 2), rc_key_from_der = (\<lambda>b. Inr (length b)),
      rc_parse_ip = (\<lambda>_. None), rc_dns_name = (\<lambda>_. True)\<rparr>"

theorem authority_survives_restart_witness:
  "\<exists>ca m'. load_or_generate demo_rcgen (server_defaults ()) \<lparr>mc_files = (\<lambda>_. None), mc_writable = (\<lambda>_. True), mc_world = 5\<rparr>
       = (Ret ca, m')
     \<and> (\<exists>ca2 m3. load_or_generate demo_rcgen (server_defaults ()) (m'\<lparr>mc_world := 9\<rparr>) = (Ret ca2, m3) \<and> au_key ca2 = au_key ca)"
proof -
  let ?args = "server_defaults ()" and ?m = "\<lparr>mc_files = (\<lambda>_. None), mc_writable = (\<lambda>_. True), mc_world = (5 :: nat)\<rparr>"
  have ok: "rcgen_ok demo_rcgen" by (simp add: rcgen_ok_def demo_rcgen_def)
  have paths: "sf_ca_cert ?args \<noteq> sf_ca_key ?args" by (simp add: server_defaults_def)
  obtain ca m' where first: "load_or_generate demo_rcgen ?args ?m = (Ret ca, m')"
    by (simp add: load_or_generate_def file_exists_def ca_generate_def ca_save_def andThen_def via_rcgen_def write_file_def
        demo_rcgen_def)
  have "\<exists>ca2 m3. load_or_generate demo_rcgen ?args (m'\<lparr>mc_world := 9\<rparr>) = (Ret ca2, m3) \<and> au_key ca2 = au_key ca"
    using authority_survives_restart [OF ok paths first, of "m'\<lparr>mc_world := 9\<rparr>" ?args "\<lambda>_. []"] by auto
  with first show ?thesis by blast
qed

end
