(* ===== verification/Transport.thy ===== *)
theory Transport
  imports Startup
begin

section \<open>The transports\<close>

text \<open>
  \<open>transport/quic.rs\<close> and \<open>transport/iroh.rs\<close> (without its tests), over \<open>transport/mod.rs\<close>. quinn
  with rustls, and iroh, are parameters: records of the functions that the code calls, on the world
  outside (\<open>mc_world\<close> of \<open>Startup\<close>). An endpoint, a connection and a pair of streams are values of type
  parameters. What is modelled is what the code adds: the configurations it builds for a server and for
  a client, its protocol name, and how it reports what went wrong.
\<close>

subsection \<open>The world outside\<close>

definition via_world :: "(string \<Rightarrow> 'e) \<Rightarrow> ('n \<Rightarrow> (string + 'a) \<times> 'n) \<Rightarrow> ('n machine, 'e, 'a) step" where
  "via_world err f m =
     (case f (mc_world m) of
        (Inl e, n) \<Rightarrow> (Fail (err e), m\<lparr>mc_world := n\<rparr>)
      | (Inr a, n) \<Rightarrow> (Ret a, m\<lparr>mc_world := n\<rparr>))"

text \<open>\<open>f(..).map_err(err)?\<close> for a function without effects that says what is wrong with its argument.\<close>

definition refuse :: "(string \<Rightarrow> 'e) \<Rightarrow> string option \<Rightarrow> ('s, 'e, unit) step" where
  "refuse err problem = (case problem of None \<Rightarrow> ret () | Some e \<Rightarrow> fail (err e))"

lemma via_world_Ret:
  "via_world err f m = (Ret a, m') \<longleftrightarrow> (\<exists>n. f (mc_world m) = (Inr a, n) \<and> m' = m\<lparr>mc_world := n\<rparr>)"
  by (auto simp: via_world_def split: prod.splits sum.splits)

lemma refuse_Ret: "refuse err problem m = (Ret u, m') \<longleftrightarrow> problem = None \<and> m' = m"
  by (auto simp: refuse_def split: option.splits)

definition bytes_of :: "string \<Rightarrow> bytes" where
  "bytes_of s = map (\<lambda>c. of_nat (of_char c)) s"

datatype transport_error =
    TransportClosed
  | ResolveFailed string
  | HandshakeFailed string
  | TransportIo string
  | TransportOther string

subsection \<open>QUIC\<close>

definition QUIC_ALPN :: bytes where
  "QUIC_ALPN = bytes_of ''wgpu-remote/1''"

datatype quic_error =
    QuicRustls string
  | QuicRcgen string
  | QuicIo string
  | QuicConnect string
  | QuicConnectionError string
  | NoIncoming

text \<open>What the builders of the two TLS configurations were given.\<close>

record server_crypto =
  sx_chain :: "bytes list"
  sx_key :: bytes
  sx_alpn :: "bytes list"

record client_crypto =
  cx_roots :: "bytes list"
  cx_alpn :: "bytes list"

text \<open>
  \<open>qn_dial\<close> is \<open>endpoint.connect\<close>, which fails at once or gives an attempt, and the attempt's outcome;
  \<open>qn_accept\<close> gives nothing when the endpoint is closed, and otherwise the outcome of the handshake.
\<close>

record ('addr, 'ep, 'conn, 'st, 'n) quinn =
  qn_self_signed :: "string list \<Rightarrow> 'n \<Rightarrow> (string + bytes \<times> bytes) \<times> 'n"
  qn_single_cert :: "bytes list \<Rightarrow> bytes \<Rightarrow> string option"
  qn_root :: "bytes \<Rightarrow> string option"
  qn_server_config :: "server_crypto \<Rightarrow> string option"
  qn_client_config :: "client_crypto \<Rightarrow> string option"
  qn_bind_server :: "server_crypto \<Rightarrow> 'addr \<Rightarrow> 'n \<Rightarrow> (string + 'ep) \<times> 'n"
  qn_bind_client :: "'n \<Rightarrow> (string + 'ep) \<times> 'n"
  qn_local_addr :: "'ep \<Rightarrow> 'n \<Rightarrow> (string + 'addr) \<times> 'n"
  qn_dial :: "'ep \<Rightarrow> client_crypto option \<Rightarrow> 'addr \<Rightarrow> string \<Rightarrow> 'n \<Rightarrow> (string + (string + 'conn)) \<times> 'n"
  qn_accept :: "'ep \<Rightarrow> 'n \<Rightarrow> (string + 'conn) option \<times> 'n"
  qn_open_bi :: "'conn \<Rightarrow> 'n \<Rightarrow> (string + 'st) \<times> 'n"
  qn_accept_bi :: "'conn \<Rightarrow> 'n \<Rightarrow> (string + 'st) \<times> 'n"
  qn_close :: "'conn \<Rightarrow> u32 \<Rightarrow> bytes \<Rightarrow> 'n \<Rightarrow> 'n"
  qn_close_endpoint :: "'ep \<Rightarrow> u32 \<Rightarrow> bytes \<Rightarrow> 'n \<Rightarrow> 'n"

type_synonym ('n, 'a) quic = "('n machine, quic_error, 'a) step"

record 'ep quic_endpoint =
  qe_endpoint :: 'ep
  qe_client :: "client_crypto option"

text \<open>The configurations: \<open>with_no_client_auth().with_single_cert(chain, key)\<close>, and one pinned root.\<close>

definition server_crypto_of :: "bytes list \<Rightarrow> bytes \<Rightarrow> server_crypto" where
  "server_crypto_of chain key = \<lparr>sx_chain = chain, sx_key = key, sx_alpn = [QUIC_ALPN]\<rparr>"

definition client_crypto_of :: "bytes \<Rightarrow> client_crypto" where
  "client_crypto_of cert = \<lparr>cx_roots = [cert], cx_alpn = [QUIC_ALPN]\<rparr>"

definition listen :: "('addr, 'ep, 'conn, 'st, 'n) quinn \<Rightarrow> 'addr \<Rightarrow> bytes list \<Rightarrow> bytes \<Rightarrow> ('n, 'ep quic_endpoint) quic" where
  "listen qn addr chain key =
     andThen (refuse QuicRustls (qn_single_cert qn chain key)) (\<lambda>_.
     andThen (refuse QuicRustls (qn_server_config qn (server_crypto_of chain key))) (\<lambda>_.
     andThen (via_world QuicIo (qn_bind_server qn (server_crypto_of chain key) addr)) (\<lambda>ep.
       ret \<lparr>qe_endpoint = ep, qe_client = None\<rparr>)))"

definition quic_server :: "('addr, 'ep, 'conn, 'st, 'n) quinn \<Rightarrow> 'addr \<Rightarrow> ('n, 'ep quic_endpoint \<times> bytes) quic" where
  "quic_server qn addr =
     andThen (via_world QuicRcgen (qn_self_signed qn [''localhost''])) (\<lambda>(cert_der, key).
     andThen (listen qn addr [cert_der] key) (\<lambda>ep. ret (ep, cert_der)))"

definition quic_server_with_cert ::
  "('addr, 'ep, 'conn, 'st, 'n) quinn \<Rightarrow> 'addr \<Rightarrow> 'k server_cert \<Rightarrow> ('n, 'ep quic_endpoint) quic" where
  "quic_server_with_cert qn addr cert = listen qn addr (sc_cert_chain cert) (sc_private_key cert)"

definition quic_client :: "('addr, 'ep, 'conn, 'st, 'n) quinn \<Rightarrow> bytes \<Rightarrow> ('n, 'ep quic_endpoint) quic" where
  "quic_client qn cert =
     andThen (refuse QuicRustls (qn_root qn cert)) (\<lambda>_.
     andThen (refuse QuicRustls (qn_client_config qn (client_crypto_of cert))) (\<lambda>_.
     andThen (via_world QuicIo (qn_bind_client qn)) (\<lambda>ep.
       ret \<lparr>qe_endpoint = ep, qe_client = Some (client_crypto_of cert)\<rparr>)))"

definition quic_connect ::
  "('addr, 'ep, 'conn, 'st, 'n) quinn \<Rightarrow> 'ep quic_endpoint \<Rightarrow> 'addr \<Rightarrow> string \<Rightarrow> ('n, 'conn) quic" where
  "quic_connect qn ep addr server_name =
     andThen (via_world QuicConnect (qn_dial qn (qe_endpoint ep) (qe_client ep) addr server_name)) (\<lambda>connecting.
       case connecting of
         Inl e \<Rightarrow> fail (QuicConnectionError e)
       | Inr conn \<Rightarrow> ret conn)"

definition quic_accept :: "('addr, 'ep, 'conn, 'st, 'n) quinn \<Rightarrow> 'ep quic_endpoint \<Rightarrow> ('n, 'conn) quic" where
  "quic_accept qn ep m =
     (case qn_accept qn (qe_endpoint ep) (mc_world m) of
        (None, n) \<Rightarrow> (Fail NoIncoming, m\<lparr>mc_world := n\<rparr>)
      | (Some (Inl e), n) \<Rightarrow> (Fail (QuicConnectionError e), m\<lparr>mc_world := n\<rparr>)
      | (Some (Inr conn), n) \<Rightarrow> (Ret conn, m\<lparr>mc_world := n\<rparr>))"

definition quic_close_endpoint :: "('addr, 'ep, 'conn, 'st, 'n) quinn \<Rightarrow> 'ep quic_endpoint \<Rightarrow> ('n, unit) quic" where
  "quic_close_endpoint qn ep m =
     (Ret (), m\<lparr>mc_world := qn_close_endpoint qn (qe_endpoint ep) 0 (bytes_of ''shutdown'') (mc_world m)\<rparr>)"

text \<open>\<open>impl Connection for QuicConnection\<close>.\<close>

definition quic_open_bi :: "('addr, 'ep, 'conn, 'st, 'n) quinn \<Rightarrow> 'conn \<Rightarrow> ('n machine, transport_error, 'st) step" where
  "quic_open_bi qn conn = via_world TransportOther (qn_open_bi qn conn)"

definition quic_accept_bi :: "('addr, 'ep, 'conn, 'st, 'n) quinn \<Rightarrow> 'conn \<Rightarrow> ('n machine, transport_error, 'st) step" where
  "quic_accept_bi qn conn = via_world TransportOther (qn_accept_bi qn conn)"

definition quic_close :: "('addr, 'ep, 'conn, 'st, 'n) quinn \<Rightarrow> 'conn \<Rightarrow> u32 \<Rightarrow> bytes \<Rightarrow> ('n machine, transport_error, unit) step" where
  "quic_close qn conn code reason m = (Ret (), m\<lparr>mc_world := qn_close qn conn code reason (mc_world m)\<rparr>)"

subsection \<open>iroh\<close>

definition IROH_ALPN :: bytes where
  "IROH_ALPN = bytes_of ''wgpu-remote/1''"

datatype iroh_error = BindFailed string

datatype preset = Minimal | N0

record ('id, 'ep, 'conn, 'st, 'n) iroh =
  ir_generate_key :: "'n \<Rightarrow> bytes \<times> 'n"
  ir_bind :: "preset \<Rightarrow> bytes option \<Rightarrow> bytes list \<Rightarrow> 'n \<Rightarrow> (string + 'ep) \<times> 'n"
  ir_id :: "'ep \<Rightarrow> 'id"
  ir_online :: "'ep \<Rightarrow> 'n \<Rightarrow> 'n"
  ir_connect :: "'ep \<Rightarrow> 'id \<Rightarrow> bytes \<Rightarrow> 'n \<Rightarrow> (string + 'conn) \<times> 'n"
  ir_accept :: "'ep \<Rightarrow> 'n \<Rightarrow> (string + 'conn) option \<times> 'n"
  ir_open_bi :: "'conn \<Rightarrow> 'n \<Rightarrow> (string + 'st) \<times> 'n"
  ir_accept_bi :: "'conn \<Rightarrow> 'n \<Rightarrow> (string + 'st) \<times> 'n"
  ir_close :: "'conn \<Rightarrow> u32 \<Rightarrow> bytes \<Rightarrow> 'n \<Rightarrow> 'n"
  ir_send_datagram :: "'conn \<Rightarrow> bytes \<Rightarrow> 'n \<Rightarrow> (string + unit) \<times> 'n"
  ir_read_datagram :: "'conn \<Rightarrow> 'n \<Rightarrow> (string + bytes) \<times> 'n"

text \<open>\<open>From<BindError>\<close> makes every failure to bind a \<open>Bind\<close>.\<close>

definition iroh_with_secret_key ::
  "('id, 'ep, 'conn, 'st, 'n) iroh \<Rightarrow> bytes \<Rightarrow> ('n machine, iroh_error, 'ep) step" where
  "iroh_with_secret_key ir key = via_world BindFailed (ir_bind ir Minimal (Some key) [IROH_ALPN])"

definition iroh_new :: "('id, 'ep, 'conn, 'st, 'n) iroh \<Rightarrow> ('n machine, iroh_error, 'ep) step" where
  "iroh_new ir m =
     (case ir_generate_key ir (mc_world m) of (key, n) \<Rightarrow> iroh_with_secret_key ir key (m\<lparr>mc_world := n\<rparr>))"

definition iroh_with_discovery :: "('id, 'ep, 'conn, 'st, 'n) iroh \<Rightarrow> ('n machine, iroh_error, 'ep) step" where
  "iroh_with_discovery ir = via_world BindFailed (ir_bind ir N0 None [IROH_ALPN])"

definition iroh_dial :: "('id, 'ep, 'conn, 'st, 'n) iroh \<Rightarrow> 'ep \<Rightarrow> 'id \<Rightarrow> ('n machine, transport_error, 'conn) step" where
  "iroh_dial ir ep addr = via_world TransportOther (ir_connect ir ep addr IROH_ALPN)"

definition iroh_accept :: "('id, 'ep, 'conn, 'st, 'n) iroh \<Rightarrow> 'ep \<Rightarrow> ('n machine, transport_error, 'conn) step" where
  "iroh_accept ir ep m =
     (case ir_accept ir ep (mc_world m) of
        (None, n) \<Rightarrow> (Fail TransportClosed, m\<lparr>mc_world := n\<rparr>)
      | (Some (Inl e), n) \<Rightarrow> (Fail (TransportOther e), m\<lparr>mc_world := n\<rparr>)
      | (Some (Inr conn), n) \<Rightarrow> (Ret conn, m\<lparr>mc_world := n\<rparr>))"

definition iroh_open_bi :: "('id, 'ep, 'conn, 'st, 'n) iroh \<Rightarrow> 'conn \<Rightarrow> ('n machine, transport_error, 'st) step" where
  "iroh_open_bi ir conn = via_world TransportOther (ir_open_bi ir conn)"

definition iroh_accept_bi :: "('id, 'ep, 'conn, 'st, 'n) iroh \<Rightarrow> 'conn \<Rightarrow> ('n machine, transport_error, 'st) step" where
  "iroh_accept_bi ir conn = via_world TransportOther (ir_accept_bi ir conn)"

definition iroh_close :: "('id, 'ep, 'conn, 'st, 'n) iroh \<Rightarrow> 'conn \<Rightarrow> u32 \<Rightarrow> bytes \<Rightarrow> ('n machine, transport_error, unit) step" where
  "iroh_close ir conn code reason m = (Ret (), m\<lparr>mc_world := ir_close ir conn code reason (mc_world m)\<rparr>)"

definition iroh_send_datagram ::
  "('id, 'ep, 'conn, 'st, 'n) iroh \<Rightarrow> 'conn \<Rightarrow> bytes \<Rightarrow> ('n machine, transport_error, unit) step" where
  "iroh_send_datagram ir conn data = via_world TransportOther (ir_send_datagram ir conn data)"

definition iroh_recv_datagram ::
  "('id, 'ep, 'conn, 'st, 'n) iroh \<Rightarrow> 'conn \<Rightarrow> ('n machine, transport_error, bytes) step" where
  "iroh_recv_datagram ir conn = via_world TransportOther (ir_read_datagram ir conn)"

lemmas transport_Ret = andThen_eq_Ret via_world_Ret refuse_Ret

lemma listen_Ret:
  "listen qn addr chain key m = (Ret ep, m') \<Longrightarrow>
     \<exists>e n. qn_bind_server qn (server_crypto_of chain key) addr (mc_world m) = (Inr e, n)
       \<and> ep = \<lparr>qe_endpoint = e, qe_client = None\<rparr> \<and> m' = m\<lparr>mc_world := n\<rparr>"
  by (auto simp: listen_def transport_Ret)

lemma quic_client_Ret:
  "quic_client qn cert m = (Ret ep, m') \<Longrightarrow> qe_client ep = Some (client_crypto_of cert) \<and> mc_files m' = mc_files m"
  by (auto simp: quic_client_def transport_Ret)

end
