(* ===== verification/Serving.thy ===== *)
theory Serving
  imports Transport
begin

section \<open>Connecting and serving\<close>

text \<open>
  The ends of a connection: \<open>connect_quic\<close>, \<open>connect_quic_with_server_name\<close> and \<open>connect_iroh\<close> of
  \<open>lib.rs\<close>, the connecting of \<open>bin/wgpu-remote-cli.rs\<close>, and \<open>serve_quic\<close> and \<open>serve_iroh\<close> of
  \<open>bin/wgpu-remote-server.rs\<close> with their accept loops. The start of the engine is a parameter, for which see \<open>Programs\<close>; that the
  endpoint is kept alive (\<open>mem::forget\<close>) and messages to the terminal are left out.

  The connections a loop accepts are those it spawns a task for, which runs \<open>run_connection\<close>
  (\<open>Handler\<close>). A loop that may not end is an optional result, \<open>None\<close> when it does not.
\<close>

subsection \<open>Errors\<close>

definition map_err :: "('e \<Rightarrow> 'f) \<Rightarrow> ('s, 'e, 'a) step \<Rightarrow> ('s, 'f, 'a) step" where
  "map_err f m s =
     (case m s of
        (Ret a, s') \<Rightarrow> (Ret a, s')
      | (Fail e, s') \<Rightarrow> (Fail (f e), s')
      | (Panic, s') \<Rightarrow> (Panic, s'))"


fun show_quic_error :: "quic_error \<Rightarrow> string" where
  "show_quic_error (QuicRustls e) = ''rustls config: '' @ e"
| "show_quic_error (QuicRcgen e) = ''rcgen: '' @ e"
| "show_quic_error (QuicIo e) = ''io: '' @ e"
| "show_quic_error (QuicConnect e) = ''connect: '' @ e"
| "show_quic_error (QuicConnectionError e) = ''connection: '' @ e"
| "show_quic_error NoIncoming = ''no incoming connection''"

fun show_transport_error :: "transport_error \<Rightarrow> string" where
  "show_transport_error TransportClosed = ''connection closed''"
| "show_transport_error (ResolveFailed e) = ''address resolution failed: '' @ e"
| "show_transport_error (HandshakeFailed e) = ''tls / handshake failed: '' @ e"
| "show_transport_error (TransportIo e) = ''io: '' @ e"
| "show_transport_error (TransportOther e) = ''transport-specific: '' @ e"

fun show_iroh_error :: "iroh_error \<Rightarrow> string" where
  "show_iroh_error (BindFailed e) = ''bind failed: '' @ e"

subsection \<open>The functions of the crate\<close>

datatype connect_error = ConnectIo string | ConnectTransport string



definition go_online :: "('id, 'ep, 'conn, 'st, 'n) iroh \<Rightarrow> 'ep \<Rightarrow> ('n machine, 'e, unit) step" where
  "go_online ir ep m = (Ret (), m\<lparr>mc_world := ir_online ir ep (mc_world m)\<rparr>)"

definition connect_iroh ::
  "('id, 'ep, 'conn, 'st, 'n) iroh \<Rightarrow> (string \<Rightarrow> string + 'id) \<Rightarrow> string \<Rightarrow> ('n machine, connect_error, 'conn) step" where
  "connect_iroh ir parse_id endpoint_id =
     andThen (map_err (\<lambda>e. ConnectTransport (''invalid endpoint ID: '' @ e)) (lift_res (parse_id endpoint_id))) (\<lambda>remote_id.
     andThen (map_err (\<lambda>e. ConnectTransport (show_iroh_error e)) (iroh_with_discovery ir)) (\<lambda>ep.
     andThen (go_online ir ep) (\<lambda>_.
       map_err (\<lambda>e. ConnectTransport (show_transport_error e)) (iroh_dial ir ep remote_id))))"

subsection \<open>The demo client connects\<close>

definition cli_connect_quic ::
  "('addr, 'ep, 'conn, 'st, 'n) quinn \<Rightarrow> 'addr quic_opts \<Rightarrow> ('n machine, string, 'conn) step" where
  "cli_connect_quic qn opts =
     andThen (map_err (\<lambda>_. ''read cert '' @ qo_ca_cert opts) (read_file (qo_ca_cert opts))) (\<lambda>cert_bytes.
     andThen (map_err show_quic_error (quic_client qn cert_bytes)) (\<lambda>endpoint.
       map_err show_quic_error (quic_connect qn endpoint (qo_server opts) (qo_server_name opts))))"

definition cli_connect_iroh ::
  "('id, 'ep, 'conn, 'st, 'n) iroh \<Rightarrow> (string \<Rightarrow> string + 'id) \<Rightarrow> iroh_opts \<Rightarrow> ('n machine, string, 'conn) step" where
  "cli_connect_iroh ir parse_id opts =
     andThen (map_err show_iroh_error (iroh_with_discovery ir)) (\<lambda>ep.
     andThen (go_online ir ep) (\<lambda>_.
     andThen (map_err (\<lambda>e. ''invalid endpoint ID: '' @ e) (lift_res (parse_id (io_endpoint_id opts)))) (\<lambda>remote_id.
       map_err show_transport_error (iroh_dial ir ep remote_id))))"

text \<open>
  \<open>&s[..n]\<close> of a string given by its UTF-8 bytes: a panic when \<open>n\<close> is past the end or inside a
  character, that is before a continuation byte.
\<close>

definition str_prefix :: "nat \<Rightarrow> string \<Rightarrow> string option" where
  "str_prefix n s =
     (if length s < n \<or> (n < length s \<and> (of_char (s ! n) :: nat) div 64 = 2) then None else Some (take n s))"

definition cli_connect ::
  "('addr, 'ep, 'conn, 'st, 'n) quinn \<Rightarrow> ('id, 'iep, 'iconn, 'ist, 'n) iroh \<Rightarrow> (string \<Rightarrow> string + 'id) \<Rightarrow> 'addr transport_opts \<Rightarrow>
     ('n machine, string, 'conn + 'iconn) step" where
  "cli_connect qn ir parse_id transport =
     (case transport of
        QuicTransport opts \<Rightarrow> andThen (cli_connect_quic qn opts) (\<lambda>conn. ret (Inl conn))
      | IrohTransport opts \<Rightarrow>
          andThen (lift_opt (str_prefix (min 12 (length (io_endpoint_id opts))) (io_endpoint_id opts))) (\<lambda>_.
          andThen (cli_connect_iroh ir parse_id opts) (\<lambda>conn. ret (Inr conn))))"

subsection \<open>The server starts\<close>

datatype serve_error =
    ServePki pki_error
  | ServeQuic quic_error
  | ServeIroh iroh_error
  | ServeIo string
  | ServeEngine string

definition quic_server_endpoint ::
  "('addr, 'ep, 'conn, 'st, 'n) quinn \<Rightarrow> ('ip, 'k, 'c, 'n) rcgen \<Rightarrow> ('addr \<Rightarrow> string) \<Rightarrow> 'addr server_flags \<Rightarrow>
     ('n machine, serve_error, 'ep quic_endpoint) step" where
  "quic_server_endpoint qn rc bind_ip args =
     (if sf_self_signed args
      then andThen (map_err ServeQuic (quic_server qn (sf_bind args))) (\<lambda>(ep, cert).
        andThen (map_err (\<lambda>_. ServeIo ''write'')
            (write_file (case sf_cert_out args of Some p \<Rightarrow> p | None \<Rightarrow> ''./server-cert.der'') cert)) (\<lambda>_. ret ep))
      else andThen (map_err ServePki (quic_identity rc bind_ip args)) (\<lambda>cert.
        map_err ServeQuic (quic_server_with_cert qn (sf_bind args) cert)))"

definition serve_quic_start ::
  "('addr, 'ep, 'conn, 'st, 'n) quinn \<Rightarrow> ('ip, 'k, 'c, 'n) rcgen \<Rightarrow> ('addr \<Rightarrow> string) \<Rightarrow> ('addr \<Rightarrow> string) \<Rightarrow>
     ('n \<Rightarrow> (string + 'engine) \<times> 'n) \<Rightarrow> 'addr server_flags \<Rightarrow> ('n machine, serve_error, 'engine \<times> 'ep quic_endpoint) step" where
  "serve_quic_start qn rc bind_ip show_port start_engine args =
     andThen (quic_server_endpoint qn rc bind_ip args) (\<lambda>endpoint.
     andThen (via_world ServeIo (qn_local_addr qn (qe_endpoint endpoint))) (\<lambda>local.
     andThen (case sf_port_file args of
         None \<Rightarrow> ret ()
       | Some pf \<Rightarrow> map_err (\<lambda>_. ServeIo ''write'') (write_file pf (bytes_of (show_port local)))) (\<lambda>_.
     andThen (via_world ServeEngine start_engine) (\<lambda>engine.
       ret (engine, endpoint)))))"

definition serve_iroh_start ::
  "('id, 'ep, 'conn, 'st, 'n) iroh \<Rightarrow> ('n \<Rightarrow> (string + 'engine) \<times> 'n) \<Rightarrow> ('n machine, serve_error, 'engine \<times> 'ep) step" where
  "serve_iroh_start ir start_engine =
     andThen (map_err ServeIroh (iroh_with_discovery ir)) (\<lambda>ep.
     andThen (go_online ir ep) (\<lambda>_.
     andThen (via_world ServeEngine start_engine) (\<lambda>engine.
       ret (engine, ep))))"

subsection \<open>The accept loops\<close>

text \<open>One iteration of the loop of \<open>serve_quic\<close>: an error is printed, and the loop goes on.\<close>

definition quic_accept_step ::
  "('addr, 'ep, 'conn, 'st, 'n) quinn \<Rightarrow> 'ep quic_endpoint \<Rightarrow> 'conn list \<times> 'n machine \<Rightarrow> 'conn list \<times> 'n machine" where
  "quic_accept_step qn ep = (\<lambda>(spawned, m).
     case quic_accept qn ep m of
       (Ret conn, m') \<Rightarrow> (spawned @ [conn], m')
     | (_, m') \<Rightarrow> (spawned, m'))"

partial_function (option) quic_accept_loop ::
  "('addr, 'ep, 'conn, 'st, 'n) quinn \<Rightarrow> 'ep quic_endpoint \<Rightarrow> 'conn list \<times> 'n machine \<Rightarrow> ('conn list \<times> 'n machine) option" where
  "quic_accept_loop qn ep st = quic_accept_loop qn ep (quic_accept_step qn ep st)"

text \<open>The loop of \<open>serve_iroh\<close>: an error is printed, and the server ends.\<close>

partial_function (option) iroh_accept_loop ::
  "('id, 'ep, 'conn, 'st, 'n) iroh \<Rightarrow> 'ep \<Rightarrow> 'conn list \<Rightarrow> 'n machine \<Rightarrow> ('conn list \<times> 'n machine) option" where
  "iroh_accept_loop ir ep spawned m =
     (case iroh_accept ir ep m of
        (Ret conn, m') \<Rightarrow> iroh_accept_loop ir ep (spawned @ [conn]) m'
      | (_, m') \<Rightarrow> Some (spawned, m'))"

text \<open>What accepting gives, \<open>k\<close> times in a row.\<close>

fun outcomes :: "('s, 'e, 'a) step \<Rightarrow> nat \<Rightarrow> 's \<Rightarrow> 'a option list" where
  "outcomes acc 0 m = []"
| "outcomes acc (Suc k) m = (case acc m of (Ret a, m') \<Rightarrow> Some a # outcomes acc k m' | (_, m') \<Rightarrow> None # outcomes acc k m')"

fun the_somes :: "'a option list \<Rightarrow> 'a list" where
  "the_somes [] = []"
| "the_somes (Some a # xs) = a # the_somes xs"
| "the_somes (None # xs) = the_somes xs"

lemma quic_accept_steps:
  "fst ((quic_accept_step qn ep ^^ k) (spawned, m)) = spawned @ the_somes (outcomes (quic_accept qn ep) k m)"
proof (induction k arbitrary: spawned m)
  case (Suc k)
  obtain r m' where acc: "quic_accept qn ep m = (r, m')" by (rule prod.exhaust)
  have "(quic_accept_step qn ep ^^ Suc k) (spawned, m) = (quic_accept_step qn ep ^^ k) (quic_accept_step qn ep (spawned, m))"
    by (simp add: funpow_swap1)
  also have "quic_accept_step qn ep (spawned, m) = (case r of Ret conn \<Rightarrow> (spawned @ [conn], m') | _ \<Rightarrow> (spawned, m'))"
    by (simp add: quic_accept_step_def acc split: flow.split)
  finally show ?case using acc by (cases r) (simp_all add: Suc del: funpow.simps)
qed simp

lemma quic_accept_loop_never_ends: "quic_accept_loop qn ep st = None"
proof (rule ccontr)
  assume "quic_accept_loop qn ep st \<noteq> None"
  then obtain r where "quic_accept_loop qn ep st = Some r" by blast
  then show False by (rule quic_accept_loop.raw_induct [where P = "\<lambda>_ _ _ _. False", rotated]) blast
qed

lemma iroh_accept_loop_until_error:
  "outcomes (iroh_accept ir ep) (Suc (length conns)) m = map Some conns @ [None] \<Longrightarrow>
     \<exists>m'. iroh_accept_loop ir ep spawned m = Some (spawned @ conns, m')"
proof (induction conns arbitrary: spawned m)
  case Nil
  then show ?case by (subst iroh_accept_loop.simps) (auto split: prod.splits flow.splits)
next
  case (Cons c conns)
  from Cons.prems obtain m' where first: "iroh_accept ir ep m = (Ret c, m')"
    and rest: "outcomes (iroh_accept ir ep) (Suc (length conns)) m' = map Some conns @ [None]"
    by (auto split: prod.splits flow.splits)
  show ?case using Cons.IH [OF rest, of "spawned @ [c]"] by (subst iroh_accept_loop.simps) (simp add: first)
qed

text \<open>C29: which server survives a bad client. The QUIC server never stops: after any number of iterations
  it has spawned a task for every connection that was accepted, in order, whatever failed in between.
  The iroh server ends with the first \<open>accept\<close> that fails, and a client whose handshake fails makes it
  fail: from then on nobody is served.\<close>

theorem accept_loops:
  "quic_accept_loop qn ep ([], m) = None
   \<and> (\<forall>k. fst ((quic_accept_step qn ep ^^ k) ([], m)) = the_somes (outcomes (quic_accept qn ep) k m))
   \<and> (\<forall>conns. outcomes (iroh_accept ir iep) (Suc (length conns)) m = map Some conns @ [None]
        \<longrightarrow> (\<exists>m'. iroh_accept_loop ir iep [] m = Some (conns, m')))"
proof (intro conjI allI impI)
  show "quic_accept_loop qn ep ([], m) = None" by (rule quic_accept_loop_never_ends)
  show "fst ((quic_accept_step qn ep ^^ k) ([], m)) = the_somes (outcomes (quic_accept qn ep) k m)" for k
    by (simp add: quic_accept_steps)
  show "\<exists>m'. iroh_accept_loop ir iep [] m = Some (conns, m')"
    if "outcomes (iroh_accept ir iep) (Suc (length conns)) m = map Some conns @ [None]" for conns
    using iroh_accept_loop_until_error [OF that, of "[]"] by simp
qed

subsection \<open>Trust\<close>

















subsection \<open>Witnesses\<close>

definition demo_quinn :: "('n \<Rightarrow> (string + nat) option \<times> 'n) \<Rightarrow> (unit, unit, nat, unit, 'n) quinn" where
  "demo_quinn acc =
     \<lparr>qn_self_signed = (\<lambda>_ n. (Inr ([1], [2]), n)), qn_single_cert = (\<lambda>_ _. None), qn_root = (\<lambda>_. None),
      qn_server_config = (\<lambda>_. None), qn_client_config = (\<lambda>_. None), qn_bind_server = (\<lambda>_ _ n. (Inr (), n)),
      qn_bind_client = (\<lambda>n. (Inr (), n)), qn_local_addr = (\<lambda>_ n. (Inr (), n)), qn_dial = (\<lambda>_ _ _ _ n. (Inr (Inr 7), n)),
      qn_accept = (\<lambda>_. acc), qn_open_bi = (\<lambda>_ n. (Inr (), n)), qn_accept_bi = (\<lambda>_ n. (Inr (), n)),
      qn_close = (\<lambda>_ _ _ n. n), qn_close_endpoint = (\<lambda>_ _ _ n. n)\<rparr>"

definition demo_iroh :: "('n \<Rightarrow> (string + nat) option \<times> 'n) \<Rightarrow> (unit, unit, nat, unit, 'n) iroh" where
  "demo_iroh acc =
     \<lparr>ir_generate_key = (\<lambda>n. ([3], n)), ir_bind = (\<lambda>_ _ _ n. (Inr (), n)), ir_id = (\<lambda>_. ()), ir_online = (\<lambda>_ n. n),
      ir_connect = (\<lambda>_ _ _ n. (Inr 7, n)), ir_accept = (\<lambda>_. acc), ir_open_bi = (\<lambda>_ n. (Inr (), n)),
      ir_accept_bi = (\<lambda>_ n. (Inr (), n)), ir_close = (\<lambda>_ _ _ n. n), ir_send_datagram = (\<lambda>_ _ n. (Inr (), n)),
      ir_read_datagram = (\<lambda>_ n. (Inr [], n))\<rparr>"

text \<open>A world that is the list of the handshakes to come.\<close>

fun next_incoming :: "(string + nat) list \<Rightarrow> (string + nat) option \<times> (string + nat) list" where
  "next_incoming [] = (None, [])"
| "next_incoming (x # xs) = (Some x, xs)"

definition machine_with :: "'n \<Rightarrow> 'n machine" where
  "machine_with n = \<lparr>mc_files = (\<lambda>_. None), mc_writable = (\<lambda>_. True), mc_world = n\<rparr>"

theorem accept_loops_witness:
  "(\<exists>m'. iroh_accept_loop (demo_iroh next_incoming) () [] (machine_with [Inr 1, Inr 2, Inl ''bad'', Inr 3]) = Some ([1, 2], m'))
   \<and> fst ((quic_accept_step (demo_quinn next_incoming) \<lparr>qe_endpoint = (), qe_client = None\<rparr> ^^ 4)
       ([], machine_with [Inr 1, Inr 2, Inl ''bad'', Inr 3])) = [1, 2, 3]"
proof -
  let ?m = "machine_with [Inr 1, Inr 2, Inl ''bad'', Inr 3]" and ?ep = "\<lparr>qe_endpoint = (), qe_client = None\<rparr>"
  note loops = accept_loops [of "demo_quinn next_incoming" ?ep ?m "demo_iroh next_incoming" "()"]
  have "outcomes (iroh_accept (demo_iroh next_incoming) ()) (Suc (length [1, 2])) ?m = map Some [1, 2] @ [None]"
    by (simp add: iroh_accept_def demo_iroh_def machine_with_def)
  moreover have "the_somes (outcomes (quic_accept (demo_quinn next_incoming) ?ep) 4 ?m) = [1, 2, 3]"
    by (simp add: quic_accept_def demo_quinn_def machine_with_def eval_nat_numeral)
  ultimately show ?thesis using loops by metis
qed








end
