(* ===== verification/Programs.thy ===== *)
theory Programs
  imports Serving Workloads
begin

section \<open>The two programs\<close>

text \<open>
  \<open>Engine::new\<close> of \<open>server/engine.rs\<close>, and \<open>main\<close> with \<open>real_main\<close> of \<open>bin/wgpu-remote-server.rs\<close> and of
  \<open>bin/wgpu-remote-cli.rs\<close>: from the words of the command line to the exit status, with what is left in
  the file system. A program that does not end has no result, \<open>None\<close>. What is printed is left out; a
  file is written as a whole or not at all.
\<close>

subsection \<open>Engine::new\<close>

text \<open>The parameters are the backends: the two calls of wgpu, and the plain values passed to them. A device
  is its functions, \<open>wgpu\<close> of \<open>Gpu\<close>, and its state.\<close>

datatype power_preference = LowPower | HighPerformance

record adapter_options =
  ao_power_preference :: power_preference
  ao_force_fallback_adapter :: bool
  ao_has_surface :: bool

record 'w device_request =
  dr_label :: "string option"
  dr_features :: 'w
  dr_limits :: 'w
  dr_memory_hints :: 'w
  dr_experimental :: 'w
  dr_trace :: 'w

record ('w, 'ad, 'h, 'g, 'n) backends =
  be_no_features :: 'w
  be_default_limits :: 'w
  be_performance :: 'w
  be_no_experimental :: 'w
  be_trace_off :: 'w
  be_request_adapter :: "adapter_options \<Rightarrow> 'n \<Rightarrow> (string + 'ad) \<times> 'n"
  be_request_device :: "'ad \<Rightarrow> 'w device_request \<Rightarrow> 'n \<Rightarrow> (string + ('w, 'h, 'g) wgpu \<times> 'g) \<times> 'n"

datatype engine_error = NoAdapter | DeviceCreation string

fun show_engine_error :: "engine_error \<Rightarrow> string" where
  "show_engine_error NoAdapter = ''failed to find a wgpu adapter''"
| "show_engine_error (DeviceCreation e) = ''failed to create wgpu device: '' @ e"

definition start_engine :: "('w, 'ad, 'h, 'g, 'n) backends \<Rightarrow> 'n \<Rightarrow> (engine_error + ('w, 'h, 'g) wgpu \<times> ('h, 'g) engine) \<times> 'n" where
  "start_engine be n =
     (case be_request_adapter be
         \<lparr>ao_power_preference = HighPerformance, ao_force_fallback_adapter = False, ao_has_surface = False\<rparr> n of
        (Inl _, n) \<Rightarrow> (Inl NoAdapter, n)
      | (Inr adapter, n) \<Rightarrow>
          (case be_request_device be adapter
              \<lparr>dr_label = Some ''wgpu-remote-server'', dr_features = be_no_features be, dr_limits = be_default_limits be,
               dr_memory_hints = be_performance be, dr_experimental = be_no_experimental be, dr_trace = be_trace_off be\<rparr> n of
             (Inl e, n) \<Rightarrow> (Inl (DeviceCreation e), n)
           | (Inr (device, g), n) \<Rightarrow> (Inr (device, new_engine g), n)))"

text \<open>As the server reports it: the error's text.\<close>

definition engine_of :: "('w, 'ad, 'h, 'g, 'n) backends \<Rightarrow> 'n \<Rightarrow> (string + ('w, 'h, 'g) wgpu \<times> ('h, 'g) engine) \<times> 'n" where
  "engine_of be n = (case start_engine be n of (r, n') \<Rightarrow> (map_sum show_engine_error id r, n'))"

subsection \<open>The server\<close>

definition exit_status :: "('e, 'a) flow \<Rightarrow> nat" where
  "exit_status r = (case r of Ret _ \<Rightarrow> 0 | Fail _ \<Rightarrow> 1 | Panic \<Rightarrow> 101)"

text \<open>The step that starts a server, and what follows when it has started.\<close>

definition then_serve ::
  "('s, 'e, 'a) step \<Rightarrow> ('a \<Rightarrow> 's \<Rightarrow> ('b \<times> 's) option) \<Rightarrow> 's \<Rightarrow> (('e, 'b) flow \<times> 's) option" where
  "then_serve start loop s =
     (case start s of
        (Ret a, s) \<Rightarrow> map_option (\<lambda>(b, s). (Ret b, s)) (loop a s)
      | (Fail e, s) \<Rightarrow> Some (Fail e, s)
      | (Panic, s) \<Rightarrow> Some (Panic, s))"

definition serve_quic ::
  "('addr, 'ep, 'conn, 'st, 'n) quinn \<Rightarrow> ('ip, 'k, 'c, 'n) rcgen \<Rightarrow> ('addr \<Rightarrow> string) \<Rightarrow> ('addr \<Rightarrow> string) \<Rightarrow>
     ('w, 'ad, 'h, 'g, 'n) backends \<Rightarrow> 'addr server_flags \<Rightarrow> 'n machine \<Rightarrow>
     ((serve_error, (('w, 'h, 'g) wgpu \<times> ('h, 'g) engine) \<times> 'conn list) flow \<times> 'n machine) option" where
  "serve_quic qn rc bind_ip show_port be args =
     then_serve (serve_quic_start qn rc bind_ip show_port (engine_of be) args) (\<lambda>(engine, endpoint) m.
       map_option (\<lambda>(spawned, m). ((engine, spawned), m)) (quic_accept_loop qn endpoint ([], m)))"

definition serve_iroh ::
  "('id, 'ep, 'conn, 'st, 'n) iroh \<Rightarrow> ('w, 'ad, 'h, 'g, 'n) backends \<Rightarrow> 'n machine \<Rightarrow>
     ((serve_error, (('w, 'h, 'g) wgpu \<times> ('h, 'g) engine) \<times> 'conn list) flow \<times> 'n machine) option" where
  "serve_iroh ir be =
     then_serve (serve_iroh_start ir (engine_of be)) (\<lambda>(engine, ep) m.
       map_option (\<lambda>(spawned, m). ((engine, spawned), m)) (iroh_accept_loop ir ep [] m))"

text \<open>The value of \<open>real_main\<close> after the command line, as the status \<open>main\<close> exits with.\<close>

definition run_command ::
  "('addr, 'ep, 'conn, 'st, 'n) quinn \<Rightarrow> ('id, 'iep, 'iconn, 'ist, 'n) iroh \<Rightarrow> ('ip, 'k, 'c, 'n) rcgen \<Rightarrow>
     ('addr \<Rightarrow> string) \<Rightarrow> ('addr \<Rightarrow> string) \<Rightarrow> ('w, 'ad, 'h, 'g, 'n) backends \<Rightarrow> 'addr server_cmd \<Rightarrow> 'n machine \<Rightarrow>
     (nat \<times> 'n machine) option" where
  "run_command qn ir rc bind_ip show_port be cmd m =
     (case cmd of
        InitCa args \<Rightarrow> Some (case init_ca rc args m of (r, m) \<Rightarrow> (exit_status r, m))
      | Serve args \<Rightarrow>
          if sf_iroh args then map_option (\<lambda>(r, m). (exit_status r, m)) (serve_iroh ir be m)
          else map_option (\<lambda>(r, m). (exit_status r, m)) (serve_quic qn rc bind_ip show_port be args m))"

definition server_main ::
  "('addr, 'ep, 'conn, 'st, 'n) quinn \<Rightarrow> ('id, 'iep, 'iconn, 'ist, 'n) iroh \<Rightarrow> ('ip, 'k, 'c, 'n) rcgen \<Rightarrow>
     (string \<Rightarrow> string + 'addr) \<Rightarrow> 'addr \<Rightarrow> ('addr \<Rightarrow> string) \<Rightarrow> ('addr \<Rightarrow> string) \<Rightarrow> ('w, 'ad, 'h, 'g, 'n) backends \<Rightarrow>
     string list \<Rightarrow> 'n machine \<Rightarrow> (nat \<times> 'n machine) option" where
  "server_main qn ir rc parse_addr bind bind_ip show_port be argv m =
     (case server_parse_args parse_addr bind argv of
        Refused _ \<Rightarrow> Some (2, m)
      | UsageShown \<Rightarrow> Some (0, m)
      | Parsed cmd \<Rightarrow> run_command qn ir rc bind_ip show_port be cmd m)"

subsection \<open>The demo client\<close>

text \<open>
  \<open>session\<close> is \<open>Client::new\<close> on the connection: the ways to reach the server through it, and the state of
  a program that has no handle yet. The picture's file is created and written before the handles of the
  workload drop; no drop reads it, so it is written here once the workload has returned.
\<close>

definition write_picture :: "ppm_target \<times> string \<times> bytes \<Rightarrow> ('n machine, string, unit) step" where
  "write_picture = (\<lambda>(target, header, rgb).
     case target of
       ToStdout \<Rightarrow> ret ()
     | ToFile path \<Rightarrow> map_err (\<lambda>_. ''write'') (write_file path (bytes_of header @ rgb)))"

definition cli_work ::
  "'w host \<Rightarrow> ('conn \<Rightarrow> ('w, 'c) link \<times> 'c facade) \<Rightarrow> workload \<Rightarrow> 'conn \<Rightarrow> ('n machine, string, unit) step" where
  "cli_work ho session w conn =
     (case session conn of (lk, st) \<Rightarrow>
        (case fst (run_workload ho lk w st) of
           Ret None \<Rightarrow> ret ()
         | Ret (Some picture) \<Rightarrow> write_picture picture
         | Fail _ \<Rightarrow> fail ''workload''
         | Panic \<Rightarrow> panic))"

definition cli_main ::
  "('addr, 'ep, 'conn, 'st, 'n) quinn \<Rightarrow> ('id, 'iep, 'iconn, 'ist, 'n) iroh \<Rightarrow> (string \<Rightarrow> string + 'id) \<Rightarrow>
     (string \<Rightarrow> string + 'addr) \<Rightarrow> 'addr \<Rightarrow> 'w host \<Rightarrow> ('conn + 'iconn \<Rightarrow> ('w, 'c) link \<times> 'c facade) \<Rightarrow>
     string list \<Rightarrow> 'n machine \<Rightarrow> nat \<times> 'n machine" where
  "cli_main qn ir parse_id parse_addr server ho session argv m =
     (case cli_parse_args parse_addr server argv of
        Refused _ \<Rightarrow> (2, m)
      | UsageShown \<Rightarrow> (0, m)
      | Parsed cmd \<Rightarrow>
          (case andThen (cli_connect qn ir parse_id (cc_transport cmd)) (cli_work ho session (cc_workload cmd)) m of
             (r, m) \<Rightarrow> (exit_status r, m)))"

subsection \<open>How the server ends\<close>

lemma iroh_accept_loop_ends:
  "(\<exists>r. iroh_accept_loop ir ep spawned m = Some r) \<longleftrightarrow> (\<exists>k. None \<in> set (outcomes (iroh_accept ir ep) k m))"
proof (intro iffI; elim exE)
  fix r
  assume "iroh_accept_loop ir ep spawned m = Some r"
  then show "\<exists>k. None \<in> set (outcomes (iroh_accept ir ep) k m)"
  proof (rule iroh_accept_loop.raw_induct
      [where P = "\<lambda>ir ep spawned m r. \<exists>k. None \<in> set (outcomes (iroh_accept ir ep) k m)", rotated])
    fix loop ir ep spawned m r
    assume step: "\<And>ir ep spawned m r. loop ir ep spawned m = Some r \<Longrightarrow> \<exists>k. None \<in> set (outcomes (iroh_accept ir ep) k m)"
      "(case iroh_accept ir ep m of (Ret conn, m') \<Rightarrow> loop ir ep (spawned @ [conn]) m' | (_, m') \<Rightarrow> Some (spawned, m')) = Some r"
    obtain out m' where acc: "iroh_accept ir ep m = (out, m')" by (rule prod.exhaust)
    show "\<exists>k. None \<in> set (outcomes (iroh_accept ir ep) k m)"
    proof (cases out)
      case (Ret conn)
      with step(2) acc have "loop ir ep (spawned @ [conn]) m' = Some r" by simp
      then obtain k where "None \<in> set (outcomes (iroh_accept ir ep) k m')" using step(1) by blast
      then have "None \<in> set (outcomes (iroh_accept ir ep) (Suc k) m)" by (simp add: acc Ret)
      then show ?thesis by blast
    next
      case (Fail e)
      then have "None \<in> set (outcomes (iroh_accept ir ep) 1 m)" by (simp add: acc)
      then show ?thesis by blast
    next
      case Panic
      then have "None \<in> set (outcomes (iroh_accept ir ep) 1 m)" by (simp add: acc)
      then show ?thesis by blast
    qed
  qed
next
  fix k
  assume "None \<in> set (outcomes (iroh_accept ir ep) k m)"
  then show "\<exists>r. iroh_accept_loop ir ep spawned m = Some r"
  proof (induction k arbitrary: spawned m)
    case (Suc k)
    obtain out m' where acc: "iroh_accept ir ep m = (out, m')" by (rule prod.exhaust)
    show ?case
    proof (cases out)
      case (Ret conn)
      with Suc acc have "\<exists>r. iroh_accept_loop ir ep (spawned @ [conn]) m' = Some r" by simp
      then show ?thesis by (subst iroh_accept_loop.simps) (simp add: acc Ret)
    qed (subst iroh_accept_loop.simps, simp add: acc)+
  qed simp
qed

lemma then_serve_cases:
  "then_serve start loop s = None \<longleftrightarrow> (\<exists>a s'. start s = (Ret a, s') \<and> loop a s' = None)"
  "(\<exists>b s''. then_serve start loop s = Some (Ret b, s'')) \<longleftrightarrow> (\<exists>a s' x. start s = (Ret a, s') \<and> loop a s' = Some x)"
  by (auto simp: then_serve_def split: prod.splits flow.splits)

lemma exit_status_0 [simp]: "exit_status r = 0 \<longleftrightarrow> (\<exists>a. r = Ret a)"
  by (simp add: exit_status_def split: flow.split)

lemma ends_with_0:
  "(\<exists>m'. map_option (\<lambda>(r, m). (exit_status r, m)) x = Some (0, m')) \<longleftrightarrow> (\<exists>a m'. x = Some (Ret a, m'))"
  by (cases x) (auto split: prod.splits)

text \<open>C30: how a server ends. The QUIC server runs for ever exactly when it could start, and never exits
  with success; otherwise it reports that it did not start. The iroh server exits with success exactly
  when it could start and some \<open>accept\<close> after that fails, so that its supervisor cannot tell a server
  that a failed handshake has ended from one that was asked to.\<close>

theorem server_exit_status:
  assumes "server_parse_args parse_addr bind argv = Parsed (Serve args)"
  shows "(\<not> sf_iroh args \<longrightarrow>
           (server_main qn ir rc parse_addr bind bind_ip show_port be argv m = None
             \<longleftrightarrow> (\<exists>started m1. serve_quic_start qn rc bind_ip show_port (engine_of be) args m = (Ret started, m1)))
           \<and> (\<nexists>m'. server_main qn ir rc parse_addr bind bind_ip show_port be argv m = Some (0, m')))
    \<and> (sf_iroh args \<longrightarrow>
           ((\<exists>m'. server_main qn ir rc parse_addr bind bind_ip show_port be argv m = Some (0, m'))
             \<longleftrightarrow> (\<exists>engine ep m1 k. serve_iroh_start ir (engine_of be) m = (Ret (engine, ep), m1)
                  \<and> None \<in> set (outcomes (iroh_accept ir ep) k m1))))"
proof (intro conjI impI)
  let ?main = "server_main qn ir rc parse_addr bind bind_ip show_port be argv m"
  assume "\<not> sf_iroh args"
  then have main: "?main = map_option (\<lambda>(r, m). (exit_status r, m)) (serve_quic qn rc bind_ip show_port be args m)"
    by (simp add: server_main_def assms run_command_def)
  show "?main = None \<longleftrightarrow> (\<exists>started m1. serve_quic_start qn rc bind_ip show_port (engine_of be) args m = (Ret started, m1))"
    by (simp add: main serve_quic_def then_serve_cases quic_accept_loop_never_ends split: prod.splits)
  show "\<nexists>m'. ?main = Some (0, m')"
    unfolding main ends_with_0 serve_quic_def then_serve_cases
    by (simp add: quic_accept_loop_never_ends split: prod.splits)
next
  let ?main = "server_main qn ir rc parse_addr bind bind_ip show_port be argv m"
  assume "sf_iroh args"
  then have main: "?main = map_option (\<lambda>(r, m). (exit_status r, m)) (serve_iroh ir be m)"
    by (simp add: server_main_def assms run_command_def)
  show "(\<exists>m'. ?main = Some (0, m')) \<longleftrightarrow> (\<exists>engine ep m1 k. serve_iroh_start ir (engine_of be) m = (Ret (engine, ep), m1)
      \<and> None \<in> set (outcomes (iroh_accept ir ep) k m1))"
    unfolding main ends_with_0 serve_iroh_def then_serve_cases
    by (simp flip: iroh_accept_loop_ends [where spawned = "[]"])
qed

definition demo_backends :: "(nat, unit, nat, nat, nat) backends" where
  "demo_backends =
     \<lparr>be_no_features = 0, be_default_limits = 0, be_performance = 0, be_no_experimental = 0, be_trace_off = 0,
      be_request_adapter = (\<lambda>_ n. (Inr (), n)), be_request_device = (\<lambda>_ _ n. (Inr (good_device, 0), n))\<rparr>"

text \<open>A world that counts the handshakes still to succeed.\<close>

definition count_down :: "nat \<Rightarrow> (string + nat) option \<times> nat" where
  "count_down n = (if n = 0 then (Some (Inl ''bad''), 0) else (Some (Inr n), n - 1))"

theorem server_exit_status_witness:
  "(\<exists>m'. server_main (demo_quinn count_down) (demo_iroh count_down) demo_rcgen (\<lambda>_. Inr ()) () (\<lambda>_. ''10.0.0.1'') (\<lambda>_. ''4433'')
      demo_backends [''--iroh''] (machine_with 2) = Some (0, m'))
   \<and> server_main (demo_quinn count_down) (demo_iroh count_down) demo_rcgen (\<lambda>_. Inr ()) () (\<lambda>_. ''10.0.0.1'') (\<lambda>_. ''4433'')
      demo_backends [''--self-signed''] (machine_with 2) = None"
proof -
  let ?iroh = "(server_defaults ())\<lparr>sf_iroh := True\<rparr>" and ?quic = "(server_defaults ())\<lparr>sf_self_signed := True\<rparr>"
  have parsed: "server_parse_args (\<lambda>_. Inr ()) () [''--iroh''] = Parsed (Serve ?iroh)"
    "server_parse_args (\<lambda>_. Inr ()) () [''--self-signed''] = Parsed (Serve ?quic)"
    by (simp_all add: server_parse_args_def server_value_def)
  have "\<exists>engine. serve_iroh_start (demo_iroh count_down) (engine_of demo_backends) (machine_with 2)
      = (Ret (engine, ()), machine_with 2)"
    by (simp add: serve_iroh_start_def iroh_with_discovery_def go_online_def engine_of_def start_engine_def demo_backends_def
        demo_iroh_def via_world_def map_err_def andThen_def machine_with_def)
  moreover have "None \<in> set (outcomes (iroh_accept (demo_iroh count_down) ()) 3 (machine_with 2))"
    by (simp add: iroh_accept_def demo_iroh_def machine_with_def count_down_def eval_nat_numeral)
  moreover have "\<exists>started m1. serve_quic_start (demo_quinn count_down) demo_rcgen (\<lambda>_. ''10.0.0.1'') (\<lambda>_. ''4433'')
      (engine_of demo_backends) ?quic (machine_with 2) = (Ret started, m1)"
    by (simp add: serve_quic_start_def quic_server_endpoint_def quic_server_def listen_def refuse_def engine_of_def
        start_engine_def demo_backends_def demo_quinn_def via_world_def map_err_def andThen_def machine_with_def
        write_file_def server_defaults_def)
  ultimately show ?thesis
    using server_exit_status [OF parsed(1), of "demo_quinn count_down" "demo_iroh count_down" demo_rcgen "\<lambda>_. ''10.0.0.1''"
        "\<lambda>_. ''4433''" demo_backends "machine_with 2"]
      server_exit_status [OF parsed(2), of "demo_quinn count_down" "demo_iroh count_down" demo_rcgen "\<lambda>_. ''10.0.0.1''"
        "\<lambda>_. ''4433''" demo_backends "machine_with 2"]
    by (simp add: server_defaults_def) blast
qed

subsection \<open>What the client leaves behind\<close>

abbreviation same_files :: "'n machine \<Rightarrow> 'n machine \<Rightarrow> bool" where
  "same_files m m' \<equiv> mc_files m' = mc_files m"

lemma same_files_order [simp]: "reflp same_files" "transp same_files"
  by (simp_all add: reflp_def transp_def)

lemma keeps_map_err: "keeps R m \<Longrightarrow> keeps R (map_err f m)"
  by (rule keepsI) (auto simp: map_err_def dest: keepsD split: prod.splits flow.splits)

lemma same_files_outside:
  "keeps same_files (via_world err f)" "keeps same_files (refuse err' problem)" "keeps same_files (read_file p)"
  "keeps same_files (go_online ir ep)"
  by (simp_all add: keeps_def via_world_def refuse_def read_file_def go_online_def split: prod.splits sum.splits option.splits)

lemma same_files_transports:
  "keeps same_files (quic_client qn cert)" "keeps same_files (quic_connect qn ep addr name)"
  "keeps same_files (iroh_with_discovery ir)" "keeps same_files (iroh_dial ir iep i)"
  by (auto simp: quic_client_def quic_connect_def iroh_with_discovery_def iroh_dial_def
      intro!: keeps_andThen same_files_outside keeps_pure split: sum.split)

lemma same_files_connect: "keeps same_files (cli_connect qn ir parse_id transport)"
  by (auto simp: cli_connect_def cli_connect_quic_def cli_connect_iroh_def
      intro!: keeps_andThen keeps_map_err same_files_transports same_files_outside keeps_pure split: transport_opts.split)

text \<open>
  The demo client writes no file but the picture, and that only on success: whatever else happens, the
  files are what they were.
\<close>

theorem client_writes_only_its_picture:
  assumes "cli_main qn ir parse_id parse_addr server ho session argv m = (status, m')"
    and "mc_files m' \<noteq> mc_files m"
  shows "status = 0 \<and> (\<exists>cmd conn m1 path header rgb. cli_parse_args parse_addr server argv = Parsed cmd
      \<and> cli_connect qn ir parse_id (cc_transport cmd) m = (Ret conn, m1)
      \<and> fst (run_workload ho (fst (session conn)) (cc_workload cmd) (snd (session conn))) = Ret (Some (ToFile path, header, rgb))
      \<and> mc_files m' = (mc_files m)(path \<mapsto> bytes_of header @ rgb))"
proof (cases "cli_parse_args parse_addr server argv")
  case (Parsed cmd)
  obtain r where run: "andThen (cli_connect qn ir parse_id (cc_transport cmd)) (cli_work ho session (cc_workload cmd)) m = (r, m')"
    and status: "status = exit_status r"
    using assms(1) by (auto simp: cli_main_def Parsed split: prod.splits)
  from run show ?thesis
  proof (cases rule: andThen_cases)
    case (Ret conn m1)
    moreover have "mc_files m1 = mc_files m" using keepsD [OF same_files_connect Ret(1)] .
    ultimately show ?thesis using assms(2) status Parsed
      by (fastforce simp: cli_work_def write_picture_def map_err_def write_file_def
          split: prod.splits flow.splits option.splits ppm_target.splits if_splits)
  qed (use assms(2) keepsD [OF same_files_connect] in \<open>(metis)+\<close>)
qed (use assms in \<open>auto simp: cli_main_def\<close>)

end
