(* ===== verification/In_Memory.thy ===== *)
theory In_Memory
  imports Transport Runs
begin

section \<open>The in-memory transport\<close>

text \<open>
  \<open>in_memory.rs\<close> of \<open>crates/wgpu-remote-tests\<close>: two connections in one process. A connection has the
  sender of one bounded channel and, shared by its clones, the receiver of another; what travels is the
  remote half of a pair of pipes. Channels and pipes are tokio's: a channel is a queue of at most
  \<open>QUEUE_DEPTH\<close> entries, which is closed to the receiver when no sender is left and it is empty, and to
  the sender when the receiver is gone. A pair of pipes is its number, in the order they are made; an
  \<open>await\<close> that has to wait is \<open>Pending\<close>, and may be tried again.
\<close>

datatype side = ClientEnd | ServerEnd

fun peer :: "side \<Rightarrow> side" where
  "peer ClientEnd = ServerEnd"
| "peer ServerEnd = ClientEnd"

lemma peer_peer [simp]: "peer (peer s) = s"
  by (cases s) simp_all

lemma peer_neq [simp]: "peer s \<noteq> s" "s \<noteq> peer s"
  by (cases s; simp)+

lemma other_side: "t \<noteq> s \<longleftrightarrow> t = peer s"
  by (cases s; cases t) simp_all

definition QUEUE_DEPTH :: nat where
  "QUEUE_DEPTH = 64"

text \<open>
  \<open>me_incoming s\<close> is the channel that the connection at side \<open>s\<close> accepts from, \<open>me_clones s\<close> how many
  clones of it there are, and \<open>me_pipes\<close> how many pairs of pipes have been made.
\<close>

record memory =
  me_incoming :: "side \<Rightarrow> nat list"
  me_clones :: "side \<Rightarrow> nat"
  me_pipes :: nat

definition memory_pair :: memory where
  "memory_pair = \<lparr>me_incoming = (\<lambda>_. []), me_clones = (\<lambda>_. 1), me_pipes = 0\<rparr>"

datatype 'a await = Ready 'a | Pending

definition memory_open_bi :: "side \<Rightarrow> memory \<Rightarrow> (transport_error + nat) await \<times> memory" where
  "memory_open_bi s m =
     (let i = me_pipes m; m = m\<lparr>me_pipes := i + 1\<rparr>; q = me_incoming m (peer s) in
      if me_clones m (peer s) = 0 then (Ready (Inl TransportClosed), m)
      else if QUEUE_DEPTH \<le> length q then (Pending, m)
      else (Ready (Inr i), m\<lparr>me_incoming := (me_incoming m)(peer s := q @ [i])\<rparr>))"

definition memory_accept_bi :: "side \<Rightarrow> memory \<Rightarrow> (transport_error + nat) await \<times> memory" where
  "memory_accept_bi s m =
     (case me_incoming m s of
        i # q \<Rightarrow> (Ready (Inr i), m\<lparr>me_incoming := (me_incoming m)(s := q)\<rparr>)
      | [] \<Rightarrow> if me_clones m (peer s) = 0 then (Ready (Inl TransportClosed), m) else (Pending, m))"

definition memory_close :: "side \<Rightarrow> u32 \<Rightarrow> bytes \<Rightarrow> memory \<Rightarrow> memory" where
  "memory_close s code reason m = m"

definition memory_clone :: "side \<Rightarrow> memory \<Rightarrow> memory" where
  "memory_clone s m = m\<lparr>me_clones := (me_clones m)(s := me_clones m s + 1)\<rparr>"

text \<open>The drop of a connection: the last one drops the receiver, and the streams that wait in it.\<close>

definition memory_drop :: "side \<Rightarrow> memory \<Rightarrow> memory" where
  "memory_drop s m =
     (let n = me_clones m s - 1; m = m\<lparr>me_clones := (me_clones m)(s := n)\<rparr> in
      if n = 0 then m\<lparr>me_incoming := (me_incoming m)(s := [])\<rparr> else m)"

subsection \<open>Runs\<close>

datatype memory_op = MOpen side | MAccept side | MClose side u32 bytes | MClone side | MDrop side

fun op_side :: "memory_op \<Rightarrow> side" where
  "op_side (MOpen s) = s"
| "op_side (MAccept s) = s"
| "op_side (MClose s _ _) = s"
| "op_side (MClone s) = s"
| "op_side (MDrop s) = s"

text \<open>The streams opened and accepted at each side, in order.\<close>

record stream_log =
  sl_opened :: "side \<Rightarrow> nat list"
  sl_accepted :: "side \<Rightarrow> nat list"

fun memory_step :: "memory_op \<Rightarrow> memory \<times> stream_log \<Rightarrow> memory \<times> stream_log" where
  "memory_step (MOpen s) (m, l) =
     (case memory_open_bi s m of
        (Ready (Inr i), m) \<Rightarrow> (m, l\<lparr>sl_opened := (sl_opened l)(s := sl_opened l s @ [i])\<rparr>)
      | (_, m) \<Rightarrow> (m, l))"
| "memory_step (MAccept s) (m, l) =
     (case memory_accept_bi s m of
        (Ready (Inr i), m) \<Rightarrow> (m, l\<lparr>sl_accepted := (sl_accepted l)(s := sl_accepted l s @ [i])\<rparr>)
      | (_, m) \<Rightarrow> (m, l))"
| "memory_step (MClose s code reason) (m, l) = (memory_close s code reason m, l)"
| "memory_step (MClone s) (m, l) = (memory_clone s m, l)"
| "memory_step (MDrop s) (m, l) = (memory_drop s m, l)"

definition has_clone :: "memory_op \<Rightarrow> memory \<times> stream_log \<Rightarrow> bool" where
  "has_clone op ml \<longleftrightarrow> 0 < me_clones (fst ml) (op_side op)"

definition nothing_logged :: stream_log where
  "nothing_logged = \<lparr>sl_opened = (\<lambda>_. []), sl_accepted = (\<lambda>_. [])\<rparr>"

text \<open>What holds of the streams from side \<open>s\<close> to the other.\<close>

definition paired_from :: "side \<Rightarrow> memory \<Rightarrow> stream_log \<Rightarrow> bool" where
  "paired_from s m l \<longleftrightarrow>
     (\<exists>lost. sl_opened l s = sl_accepted l (peer s) @ me_incoming m (peer s) @ lost
        \<and> (0 < me_clones m (peer s) \<longrightarrow> lost = []))
     \<and> length (me_incoming m (peer s)) \<le> QUEUE_DEPTH
     \<and> sorted_wrt (<) (sl_opened l s) \<and> (\<forall>i \<in> set (sl_opened l s). i < me_pipes m)"

lemma paired_step:
  assumes "paired_from s m l" and "has_clone op (m, l)" and "memory_step op (m, l) = (m', l')"
  shows "paired_from s m' l'"
proof (cases op)
  case (MOpen t)
  show ?thesis
  proof (cases "t = s")
    case True
    then show ?thesis
      using assms MOpen
      by (auto simp: paired_from_def memory_open_bi_def Let_def sorted_wrt_append less_SucI split: if_splits)
  next
    case False
    then have "s = peer t" by (cases s; cases t) simp_all
    then show ?thesis
      using assms MOpen
      by (auto simp: paired_from_def memory_open_bi_def Let_def less_SucI split: if_splits)
  qed
next
  case (MAccept t)
  show ?thesis
  proof (cases "t = peer s")
    case True
    then show ?thesis
      using assms MAccept
      by (auto simp: paired_from_def memory_accept_bi_def split: list.splits if_splits)
  next
    case False
    then have "t = s" by (cases s; cases t) simp_all
    then show ?thesis
      using assms MAccept
      by (auto simp: paired_from_def memory_accept_bi_def split: list.splits if_splits)
  qed
next
  case (MDrop t)
  then show ?thesis
    using assms by (auto simp: paired_from_def memory_drop_def Let_def has_clone_def split: if_splits)
qed (use assms in \<open>auto simp: paired_from_def memory_close_def memory_clone_def has_clone_def\<close>)

lemma paired_run:
  assumes "paired_from s (fst ml) (snd ml)" and "all_along has_clone memory_step ops ml"
  shows "paired_from s (fst (fold memory_step ops ml)) (snd (fold memory_step ops ml))"
  using assms
proof (induction ops arbitrary: ml)
  case (Cons op ops)
  obtain m l m' l' where ml: "ml = (m, l)" "memory_step op (m, l) = (m', l')" by (metis surj_pair)
  then have "paired_from s m' l'" using paired_step [of s m l op m' l'] Cons.prems by simp
  then show ?case using Cons.IH [of "(m', l')"] Cons.prems(2) by (simp add: ml)
qed simp

text \<open>Streams pair up: over any run of two connections, of whatever their programs do, each side accepts the
  streams the other has opened, each once and in their order; the others wait, at most \<open>QUEUE_DEPTH\<close> of
  them, as long as there is a connection that can accept them.\<close>

theorem memory_streams_pair_up:
  assumes "all_along has_clone memory_step ops (memory_pair, nothing_logged)"
    and "fold memory_step ops (memory_pair, nothing_logged) = (m, l)"
  shows "(\<exists>waiting. sl_opened l s = sl_accepted l (peer s) @ waiting
      \<and> (0 < me_clones m (peer s) \<longrightarrow> waiting = me_incoming m (peer s) \<and> length waiting \<le> QUEUE_DEPTH))
    \<and> distinct (sl_opened l s)"
proof -
  have "paired_from s memory_pair nothing_logged"
    by (simp add: paired_from_def memory_pair_def nothing_logged_def)
  then have ok: "paired_from s m l" using paired_run [of s "(memory_pair, nothing_logged)" ops] assms by simp
  then have "distinct (sl_opened l s)" by (simp add: paired_from_def strict_sorted_iff)
  then show ?thesis using ok by (auto simp: paired_from_def)
qed

text \<open>When the last connection of the other side is gone, what was opened can still be accepted; then accepting
  fails. \<open>close\<close> does not have this effect.\<close>

lemma memory_accept_after_drop:
  assumes "me_clones m (peer s) = 0"
  shows "fst (memory_accept_bi s m) = Ready (case me_incoming m s of [] \<Rightarrow> Inl TransportClosed | i # _ \<Rightarrow> Inr i)"
    and "me_incoming m s = [] \<Longrightarrow> 0 < me_clones m' (peer s) \<Longrightarrow> me_incoming m' s = [] \<Longrightarrow>
      fst (memory_accept_bi s (memory_close (peer s) code reason m')) = Pending"
  using assms by (simp_all add: memory_accept_bi_def memory_close_def split: list.split)

end
