(* ===== verification/Spec2Isabelle.thy ===== *)
theory Spec2Isabelle
  imports Stack_Progress Interleaving Response_Types Clients Dropin_Properties Dropin_System Workload_Properties Remote Programs In_Memory
begin

text \<open>
  \<^bold>\<open>wgpu-remote\<close>: wgpu programs whose GPU is in another machine. A client records what a program asks
  of wgpu as messages, sends them over one multiplexed stream, and a server replays them on its own
  wgpu device. This is a development of the crate \<open>src/crates/wgpu-remote\<close>, for the feature \<open>wgpu-27\<close>.

  \<^bold>\<open>The program, and the theories that model it.\<close>

  \<^item> \<open>Prelude\<close>: words, the outcome of a step (\<open>Ret\<close>, an error \<open>Fail\<close>, a \<open>Panic\<close>), sequencing of steps
    over an explicit state (\<open>andThen\<close>, \<open>for_each\<close>), results as sums, and the lemmas about them.
  \<^item> \<open>Ids\<close>, \<open>Descriptors\<close>, \<open>Commands\<close>, \<open>Actions\<close>: the messages (\<open>protocol/ids.rs\<close>, \<open>descriptors.rs\<close>,
    \<open>commands.rs\<close>, \<open>actions.rs\<close>, \<open>responses.rs\<close>, \<open>version.rs\<close>).
  \<^item> \<open>Codec\<close>: frames on a byte stream (\<open>protocol/codec.rs\<close>, \<open>read_frame\<close> of \<open>transport/mod.rs\<close>).
  \<^item> \<open>Tables\<close>, \<open>Gpu\<close>, \<open>Engine_State\<close>, \<open>Replay\<close>, \<open>Engine\<close>: the server's engine (\<open>server/tables.rs\<close>,
    \<open>server/engine.rs\<close>): the tables behind their mutex, the calls it makes on wgpu, the replay of
    recordings, and one definition per action. \<open>Replay_Trace\<close> and \<open>Engine_Properties\<close> hold the
    properties, \<open>Engine_Spec\<close> the abstract map of known resources they refine.
  \<^item> \<open>Handler\<close>: the tasks of a connection (\<open>server/handler.rs\<close>). \<open>Interleaving\<close>: the handlers of the
    engine cut where they release the lock, and the tasks of all streams interleaving at these points.
  \<^item> \<open>Minter\<close>, \<open>Mux\<close>: fresh ids and the multiplexed client (\<open>client/ids.rs\<close>, \<open>client/client.rs\<close>): calls, the
    writer and the reader task, the pending map, as steps on a record.
  \<^item> \<open>Handles\<close>, \<open>Recorder\<close>, \<open>Device\<close>: the facade (\<open>client/resources.rs\<close>, \<open>encoder.rs\<close>, \<open>instance.rs\<close>):
    reference-counted handles, command recording, creation, the queue.
  \<^item> \<open>Stack\<close>: client, transport, stream task and engine as one system, down to the bytes: calls, tasks and
    the arrival of bytes in any order. \<open>Stack_Progress\<close>: that they come to rest with every request answered.
  \<^item> \<open>System\<close>, \<open>Discipline\<close>: programs over the facade, and what a call of a program that keeps its handles
    issues, whatever the link. \<open>Composed\<close>: the link \<open>served\<close> between facade and engine, with what can be
    lost on it: frames and responses that do not encode (among them those over \<open>MAX_FRAME_BYTES\<close>), a
    stream that cannot be opened, a connection that is lost before a frame or its answer arrives. Its log
    has every action issued, with its answer if the client got to see one. \<open>Client_Properties\<close>,
    \<open>Response_Types\<close>: the facade on this link.
  \<^item> \<open>Clients\<close>: several clients of one engine, which join, make calls and go. What a client sends waits
    in a queue of its own, and the server handles the frames of different clients in any order.
  \<^item> \<open>Translate\<close>, \<open>Dropin\<close>, \<open>Dropin_Recorder\<close>, \<open>Dropin_Properties\<close>: the drop-in backend, wgpu's own
    interface over the facade (\<open>translate.rs\<close>, \<open>dispatch.rs\<close>). \<open>Dropin_System\<close>: programs on it, with
    the tasks of \<open>map_async\<close>, as programs of the facade connected to the engine.
  \<^item> \<open>Arguments\<close>: the command lines of both binaries (\<open>parse_args\<close> of \<open>bin/wgpu-remote-cli.rs\<close> and
    \<open>bin/wgpu-remote-server.rs\<close>).
  \<^item> \<open>Workloads\<close>, \<open>Workload_Properties\<close>: the demo client's \<open>ping\<close>, \<open>compute_double\<close> and
    \<open>render_checkerboard\<close> as programs over the facade (\<open>bin/wgpu-remote-cli.rs\<close>). \<open>Remote\<close>: the same
    programs against wgpu itself, and that both do the same. \<open>Serializers\<close>: a serializer for witnesses.
  \<^item> \<open>Startup\<close>: the certificate authority (\<open>transport/pki.rs\<close>), and how the server finds or makes its own
    and has its certificate issued (\<open>init_ca\<close>, \<open>serve_quic\<close> of \<open>bin/wgpu-remote-server.rs\<close>).
  \<^item> \<open>Transport\<close>: the endpoints and connections over QUIC and iroh (\<open>transport/quic.rs\<close>, \<open>iroh.rs\<close>).
    \<open>Serving\<close>: the connect functions of \<open>lib.rs\<close> and of the demo client, the start of a server and its
    accept loops. \<open>In_Memory\<close>: the transport of the tests, two connections in one process
    (\<open>crates/wgpu-remote-tests/src/in_memory.rs\<close>). \<open>Programs\<close>: \<open>Engine::new\<close>, and both binaries from
    the command line to the exit status.

  \<^bold>\<open>What is a parameter.\<close> wgpu (a record of functions on an abstract device state that return, or
  panic; some properties assume it never panics or that mapping succeeds), bincode (an encoder and a
  decoder, both of which may fail; the round trips assume that decoding inverts encoding, and every
  property that does is witnessed with a serializer given by a table), what the transport does to each
  request of the link \<open>served\<close> (\<open>transport_fault\<close>), the leaf types of wgpu-types (a type variable), the
  byte sinks of a transport, and whether the build checks overflow. For the binaries also: the parser of
  socket addresses, rcgen with its random state (the property of restarts assumes that a key is what its
  DER says and that nothing fails on what rcgen made), the literals of the workloads that have leaf
  types, and the byte order of the machine. For the transports: quinn with rustls, and iroh, records of
  the functions the code calls on the world outside, and the adapters of the server's machine. The
  property of pinned clients assumes of TLS what \<open>tls_ok\<close> says: a chain of a leaf and a self-signed root is
  accepted, for the names the leaf was issued for, by who trusts that root, if the root is a certificate
  authority that may sign certificates, the leaf is none, was issued in the root's name and signed with
  its key, is not restricted in its use, and the server holds the leaf's key.

  \<^bold>\<open>What the groups of lemmas show.\<close> The codec inverts itself, on single frames, on streams and on
  prefixes. The engine refines a map of known resources, action by action and over runs; it accepts
  exactly the actions whose references are known; a submission is all or nothing, its calls on wgpu are
  those of a plan resolved beforehand and follow wgpu's encoder and pass discipline on every path. A
  poisoned lock stays poisoned. Streams are served in order however their tasks interleave, and abort
  on what they cannot decode or encode. Handlers that interleave between their locks take effect one after
  the other, and every answer has the type of its action. The client puts frames on the wire in the order of its calls,
  resolves a request at most once, and hands out distinct ids. Over the whole stack, what a request is
  resolved with is the engine's answer to its own action, handled after the actions queued before it;
  while all tasks live, whatever their schedule, every request gets it. Over programs on the facade, resources
  are destroyed exactly with their last handle, recordings arrive as recorded, and programs that use
  live handles get no error, up to the first create that is lost on the way, also when several clients
  share the server and their frames are handled in any order, as long as no \<open>Destroy\<close> is under way for
  what another has; the exceptions found (a buffer dropped between recording and submission,
  a second device of one connection, a second client, requests after the reader died, responses that
  do not fit into a frame) are theorems too. The drop-in
  translates faithfully, records what the facade records, and ships what was staged; its programs are
  programs of the facade, so that the same holds for them, and a pending map keeps its buffer alive; its
  mapped ranges are relative to what was mapped. Of the binaries: the client's options mean the same in any order,
  its workloads get no error answer and leave nothing behind; run remotely, when every action was answered,
  they make the calls on the device, and have the result, that they have when run on it directly; the image it writes has every pixel of the
  readback as long as the picture fits in 32 bits, and a server that restarts keeps its authority as
  long as neither of its two files is lost, so that clients which pin it are accepted. The accept loop
  over QUIC serves whoever is accepted and never ends; the one over iroh ends with the first failure.
  In memory, each side accepts the streams that the other opens, in order.

  \<^bold>\<open>Interfaces.\<close> A locale for each contract a component relies on, interpreted on the model's own
  definitions: \<open>framing\<close> (a stream cut into messages; interpreted on \<open>put_frame\<close> and \<open>read_frame\<close>),
  \<open>id_table\<close> (one kind of resource among the tables; ten interpretations), \<open>resource_minter\<close> (counters
  that mint ids per kind; the client's minter), \<open>recorder\<close> (a link that appends what is sent to a log;
  the facade connected to the engine), \<open>budgeted\<close> of \<open>Runs\<close> (guarded steps that keep an invariant while
  the ids last; programs of the facade, programs on the drop-in, the events of several clients, runs of
  the whole stack), \<open>settling\<close> (tasks that keep an invariant and leave less work; the tasks of the stack).

  \<^bold>\<open>Bounds and fuel.\<close> Ids and offsets are 64-bit words, counts in commands 32-bit ones; wrap-around and
  overflow checks are written out. No definition uses fuel: the loops over a stream end because each
  iteration consumes a length prefix, the accept loops, which need not end, are partial functions whose
  ending is characterised, all others are structural.

  \<^bold>\<open>Not modelled.\<close> What the binaries print; that an endpoint is kept alive while its connections are;
  re-exports and module files; \<open>Debug\<close> texts, and \<open>Display\<close> texts where nothing depends on them; calls of
  wgpu outside the lock that overlap with calls under it; the wgpu values that \<open>features\<close> and
  \<open>limits\<close> of the drop-in answer; the feature \<open>wgpu-29\<close>; the tests, but for
  their transport.
\<close>

end
